(* ===== verification/Rbus_Prelude.thy ===== *)
theory Rbus_Prelude
  imports Main "HOL-Library.Word" "HOL-Library.Monad_Syntax"
begin

text \<open>
  Prelude of the development: the C string and size arithmetic the sources use, and the generic
  facts on lists and options that the component theories share.

  A C string is the list of its characters before the terminator.  The C standard fixes only
  the sign of the result of \<open>strncmp\<close>, so the model returns \<open>-1\<close>, \<open>0\<close> or \<open>1\<close>;
  the sources only compare the result with zero.  A pointer that may be \<open>NULL\<close> is an option.
  Bytes are 8-bit words.  \<open>size_t\<close> is a natural number below \<open>2 ^ 64\<close>, and the places
  where the sources let it wrap are written out.
\<close>

unbundle bit_operations_syntax

named_theorems cstr_simps \<open>rewrite rules for the C string functions\<close>
named_theorems tab_simps \<open>rewrite rules for vectors of named entries\<close>

type_synonym byte = "8 word"
type_synonym int32 = "32 word"
type_synonym int64 = "64 word"
type_synonym ptr = nat

section \<open>C strings\<close>

fun strncmp :: "nat \<Rightarrow> string \<Rightarrow> string \<Rightarrow> int" where
  "strncmp 0 _ _ = 0"
| "strncmp (Suc n) [] [] = 0"
| "strncmp (Suc n) [] (y # ys) = -1"
| "strncmp (Suc n) (x # xs) [] = 1"
| "strncmp (Suc n) (x # xs) (y # ys) =
     (if x = y then strncmp n xs ys
      else if (of_char x :: nat) < of_char y then -1 else 1)"

definition strnlen :: "string \<Rightarrow> nat \<Rightarrow> nat" where
  "strnlen s n = min (length s) n"

text \<open>
  The characters of a C string that starts at offset \<open>p\<close> of a byte buffer.  \<open>None\<close>: the
  buffer holds no terminator from there on, so reading the string runs past its end.
\<close>

definition cstr_read :: "byte list \<Rightarrow> nat \<Rightarrow> string option" where
  "cstr_read data p =
     (if 0 \<in> set (drop p data)
      then Some (map (\<lambda>b. char_of (unat b)) (takeWhile (\<lambda>b. b \<noteq> 0) (drop p data)))
      else None)"

definition cstr_bytes :: "string \<Rightarrow> byte list" where
  "cstr_bytes s = map (\<lambda>c. of_nat (of_char c)) s @ [0]"

definition no_nul :: "string \<Rightarrow> bool" where
  "no_nul s \<longleftrightarrow> char_of (0 :: nat) \<notin> set s"

section \<open>Conversions between \<open>size_t\<close> and \<open>int\<close>\<close>

definition size_sub :: "nat \<Rightarrow> nat \<Rightarrow> nat" where
  "size_sub a b = nat ((int a - int b) mod 2 ^ 64)"

definition size_of_int32 :: "int32 \<Rightarrow> nat" where
  "size_of_int32 w = nat (sint w mod 2 ^ 64)"

definition int32_of_size :: "nat \<Rightarrow> int32" where
  "int32_of_size n = of_nat n"

text \<open>\<open>int len = strlen(s)\<close>: the length is converted to a 32-bit \<open>int\<close>, which wraps.\<close>

definition strlen_int :: "string \<Rightarrow> int" where
  "strlen_int s = sint (int32_of_size (length s))"

section \<open>Facts on C strings\<close>

lemma strncmp_0_iff [cstr_simps]: "strncmp n a b = 0 \<longleftrightarrow> take n a = take n b"
  by (induction n a b rule: strncmp.induct) auto

text \<open>
  A stored name shorter than the limit of the comparison is equal to a key exactly when
  \<open>strncmp\<close> says so: the limit never truncates the comparison.
\<close>

lemma strncmp_short_iff [cstr_simps]:
  assumes "length a < n"
  shows "strncmp n a b = 0 \<longleftrightarrow> a = b"
proof -
  have "take n a = take n b \<longleftrightarrow> a = b"
  proof
    assume eq: "take n a = take n b"
    with assms have a: "a = take n b" by simp
    with assms have "length b < n" by (metis length_take min_less_iff_conj nat_neq_iff)
    with a show "a = b" by simp
  qed simp
  then show ?thesis by (simp add: strncmp_0_iff)
qed

lemma strnlen_ge_iff [cstr_simps]: "n \<le> strnlen s n \<longleftrightarrow> n \<le> length s"
  by (auto simp: strnlen_def)

lemma unat_of_char [simp]: "unat (of_nat (of_char c) :: byte) = (of_char c :: nat)"
proof -
  have "(of_char c :: nat) < 256" using nat_of_char_less_256 [of c] by simp
  then show ?thesis by (simp add: unat_of_nat)
qed

lemma of_char_byte_eq_0_iff: "(of_nat (of_char c) :: byte) = 0 \<longleftrightarrow> c = char_of (0 :: nat)"
proof -
  have "(of_nat (of_char c) :: byte) = 0 \<longleftrightarrow> unat (of_nat (of_char c) :: byte) = 0"
    by (simp only: unat_eq_zero)
  also have "\<dots> \<longleftrightarrow> (of_char c :: nat) = 0" by simp
  also have "\<dots> \<longleftrightarrow> c = char_of (0 :: nat)" by (metis char_of_char of_char_of of_char_eq_iff mod_0)
  finally show ?thesis .
qed

lemma char_of_0: "char_of (0 :: nat) = CHR 0x00"
  by (simp add: char_of_def)

lemma length_cstr_bytes [simp]: "length (cstr_bytes s) = Suc (length s)"
  by (simp add: cstr_bytes_def)

text \<open>Reading back a terminated string that was written into a buffer.\<close>

lemma cstr_read_written:
  assumes "no_nul s"
  shows "cstr_read (pre @ cstr_bytes s @ post) (length pre) = Some s"
proof -
  let ?f = "\<lambda>c. of_nat (of_char c) :: byte"
  have nz: "\<forall>b\<in>set (map ?f s). b \<noteq> 0"
    using assms by (auto simp: no_nul_def of_char_byte_eq_0_iff)
  then have "takeWhile (\<lambda>b. b \<noteq> 0) (map ?f s @ 0 # post) = map ?f s"
    by (subst takeWhile_append2) auto
  then show ?thesis
    by (simp add: cstr_read_def cstr_bytes_def comp_def)
qed

section \<open>Facts on the size conversions\<close>

lemma sint_negative:
  fixes w :: int32
  assumes "bit w 31"
  shows "sint w = uint w - 2 ^ 32"
proof -
  have "uint w < 2 ^ 32" using unsigned_less [of w] by simp
  then have "take_bit 32 (uint w) = uint w" by (simp add: take_bit_int_eq_self)
  with assms show ?thesis
    by (simp add: sint_uint signed_take_bit_eq_take_bit_minus bit_uint_iff)
qed

lemma size_sub_no_wrap: "b \<le> a \<Longrightarrow> a < 2 ^ 64 \<Longrightarrow> size_sub a b = a - b"
  by (simp add: size_sub_def nat_diff_distrib' flip: of_nat_diff)

lemma sint_int32_of_size:
  assumes "n < 2 ^ 31"
  shows "sint (int32_of_size n) = int n"
  using assms by (simp add: int32_of_size_def sint_uint uint_nat unat_of_nat signed_take_bit_eq_if_positive
      take_bit_nat_eq_self bit_iff_odd take_bit_int_eq_self signed_take_bit_int_eq_self)

lemma size_of_int32_of_size: "n < 2 ^ 31 \<Longrightarrow> size_of_int32 (int32_of_size n) = n"
  by (simp add: size_of_int32_def sint_int32_of_size)

lemma strlen_int_small [cstr_simps]: "length s < 2 ^ 31 \<Longrightarrow> strlen_int s = int (length s)"
  by (simp add: strlen_int_def sint_int32_of_size)

text \<open>A length with bit 31 set is read as a negative number.\<close>

lemma strlen_int_negative:
  assumes "2 ^ 31 \<le> length s" and "length s < 2 ^ 32"
  shows "strlen_int s = int (length s) - 2 ^ 32"
proof -
  let ?w = "of_nat (length s) :: int32"
  have u: "uint ?w = int (length s)" using assms(2) by (simp add: uint_nat unat_of_nat)
  have "length s div 2 ^ 31 = 1" using assms by (intro div_nat_eqI) simp_all
  then have "bit ?w 31" unfolding bit_of_nat_iff by (simp add: bit_iff_odd)
  then have "sint ?w = uint ?w - 2 ^ 32" by (rule sint_negative)
  with u show ?thesis by (simp add: strlen_int_def int32_of_size_def)
qed

section \<open>Facts on the top bit of a 32-bit word\<close>

text \<open>
  The meta section stores an offset with bit 31 set, so that it takes the longest integer
  format, and clears the bit in the buffer afterwards.
\<close>

lemma bit_int32_mask: "bit (0x80000000 :: int32) k \<longleftrightarrow> k = 31"
proof -
  have "(0x80000000 :: int32) = push_bit 31 1" by simp
  then show ?thesis by (auto simp only: bit_push_bit_iff bit_1_iff) simp_all
qed

lemma bit_byte_mask: "bit (0x7F :: byte) k \<longleftrightarrow> k < 7"
proof -
  have "(0x7F :: byte) = mask 7" by (simp add: mask_eq_exp_minus_1)
  then show ?thesis by (auto simp only: bit_mask_iff) simp_all
qed

lemma bit31_of_nat: "n < 2 ^ 31 \<Longrightarrow> \<not> bit (of_nat n :: int32) 31"
  unfolding bit_of_nat_iff by (simp add: bit_iff_odd)

lemma and_top_bit:
  fixes w K :: int32
  assumes K: "\<And>k. bit K k \<longleftrightarrow> k = 31" and "\<not> bit w 31"
  shows "w AND K = 0"
  using assms(2) by (auto intro!: bit_word_eqI simp: bit_simps K)

lemma top_byte_cleared:
  fixes w K :: int32 and M :: byte
  assumes K: "\<And>k. bit K k \<longleftrightarrow> k = 31" and M: "\<And>k. bit M k \<longleftrightarrow> k < 7"
    and w: "\<not> bit w 31"
  shows "ucast (drop_bit 24 (w OR K)) AND M = (ucast (drop_bit 24 w) :: byte)"
proof (rule bit_word_eqI)
  fix n assume n: "n < LENGTH(8)"
  show "bit ((ucast (drop_bit 24 (w OR K)) :: byte) AND M) n \<longleftrightarrow>
      bit (ucast (drop_bit 24 w) :: byte) n"
    using n w by (cases "n = 7") (auto simp: bit_simps K M)
qed

lemma low_bytes_unmasked:
  fixes w K :: int32
  assumes K: "\<And>k. bit K k \<longleftrightarrow> k = 31"
  shows "ucast (drop_bit 16 (w OR K)) = (ucast (drop_bit 16 w) :: byte)"
    and "ucast (drop_bit 8 (w OR K)) = (ucast (drop_bit 8 w) :: byte)"
    and "ucast (w OR K) = (ucast w :: byte)"
  by (auto intro!: bit_word_eqI simp: bit_simps K)

lemma sint_masked:
  assumes "n < 2 ^ 31"
  shows "sint (int32_of_size n OR 0x80000000) = int n - 2 ^ 31"
proof -
  let ?w = "of_nat n :: int32"
  have "?w AND 0x80000000 = 0"
    using bit_int32_mask bit31_of_nat [OF assms] by (rule and_top_bit)
  then have "?w OR 0x80000000 = ?w + 0x80000000" by (rule disjunctive_add_eq_or [symmetric])
  then have "?w OR 0x80000000 = of_nat (n + 2 ^ 31)" by simp
  then have u: "uint (?w OR 0x80000000) = int n + 2 ^ 31"
    using assms by (simp add: uint_nat unat_of_nat del: of_nat_add)
  have "bit (?w OR 0x80000000) 31" by (simp only: bit_or_iff bit_int32_mask simp_thms)
  then have "sint (?w OR 0x80000000) = uint (?w OR 0x80000000) - 2 ^ 32"
    by (rule sint_negative)
  with u show ?thesis by (simp add: int32_of_size_def)
qed

section \<open>Facts on lists of named entries\<close>

lemma find_Some_iff_distinct:
  assumes "distinct (map f xs)"
  shows "List.find (\<lambda>x. f x = k) xs = Some y \<longleftrightarrow> y \<in> set xs \<and> f y = k"
  using assms by (induction xs) (auto simp: image_iff)

lemma find_append:
  "List.find P (xs @ ys) = (case List.find P xs of None \<Rightarrow> List.find P ys | Some x \<Rightarrow> Some x)"
  by (induction xs) auto

lemma find_cong_set:
  "(\<And>x. x \<in> set xs \<Longrightarrow> P x = Q x) \<Longrightarrow> List.find P xs = List.find Q xs"
  by (induction xs) auto

lemma distinct_map_remove1: "distinct (map f xs) \<Longrightarrow> distinct (map f (remove1 x xs))"
  by (metis distinct_map distinct_remove1 inj_on_subset set_remove1_subset)

end
