(* ===== verification/Rt_Interface.thy ===== *)
theory Rt_Interface
  imports Rbus_Prelude
begin

text \<open>
  The libraries the sources call and that are not part of the repository: rtMessage's vector,
  reference counting and error codes (\<open>rtVector.h\<close>, \<open>rtRetainable.h\<close>, \<open>rtError.h\<close>) and
  msgpack-c.  None of them is given a body.  Each library is a record of functions, an argument
  of every definition that calls it, and the documented behaviour the sources rely on is a
  locale on that record.  The lemmas proved inside the locales hold for every library that
  keeps these promises.

  \<^item> \<open>rtvector\<close>: a vector handle is \<open>NULL\<close> (\<open>None\<close>) or the sequence of its items.
  \<^item> \<open>named_table\<close>: a vector of entries found by name with a bounded \<open>strncmp\<close>, the way
    every table of \<open>rbus_core.c\<close> is searched.
  \<^item> \<open>msgpack_api\<close>: the packer appends an encoding to the buffer, the unpacker reads it back
    at its offset; the two facts on the \<open>int 32\<close> format that the meta section depends on.
  \<^item> \<open>retainable\<close>: reference counts.
\<close>

section \<open>Error codes of rtMessage\<close>

datatype rtError =
    RT_OK
  | RT_FAIL
  | RT_ERROR_TIMEOUT
  | RT_OBJECT_NO_LONGER_AVAILABLE
  | RT_ERROR_DUPLICATE_ENTRY
  | RT_ERROR_OTHER int

section \<open>Vectors\<close>

type_synonym 'a rtVector = "'a list option"

record 'a rtVector_ops =
  rtVector_Create :: "'a rtVector"
  rtVector_PushBack :: "'a rtVector \<Rightarrow> 'a \<Rightarrow> 'a rtVector"
  rtVector_Size :: "'a rtVector \<Rightarrow> nat"
  rtVector_At :: "'a rtVector \<Rightarrow> nat \<Rightarrow> 'a option"
  rtVector_Find :: "'a rtVector \<Rightarrow> string \<Rightarrow> ('a \<Rightarrow> string \<Rightarrow> int) \<Rightarrow> 'a option"
  rtVector_HasItem :: "'a rtVector \<Rightarrow> string \<Rightarrow> ('a \<Rightarrow> string \<Rightarrow> int) \<Rightarrow> bool"
  rtVector_RemoveItem :: "'a rtVector \<Rightarrow> 'a \<Rightarrow> 'a rtVector"
  rtVector_RemoveItemByCompare ::
    "'a rtVector \<Rightarrow> string \<Rightarrow> ('a \<Rightarrow> string \<Rightarrow> int) \<Rightarrow> 'a rtVector"

locale rtvector =
  fixes V :: "'a rtVector_ops"
  assumes create: "rtVector_Create V = Some []"
    and push: "rtVector_PushBack V (Some xs) x = Some (xs @ [x])"
    and size: "rtVector_Size V (Some xs) = length xs"
    and at: "i < length xs \<Longrightarrow> rtVector_At V (Some xs) i = Some (xs ! i)"
    and find: "rtVector_Find V (Some xs) k cmp = List.find (\<lambda>x. cmp x k = 0) xs"
    and has: "rtVector_HasItem V (Some xs) k cmp \<longleftrightarrow> (\<exists>x\<in>set xs. cmp x k = 0)"
    and remove: "distinct xs \<Longrightarrow> x \<in> set xs \<Longrightarrow>
      rtVector_RemoveItem V (Some xs) x = Some (remove1 x xs)"
    and remove_by: "length (filter (\<lambda>x. cmp x k = 0) xs) = 1 \<Longrightarrow>
      rtVector_RemoveItemByCompare V (Some xs) k cmp = Some (filter (\<lambda>x. cmp x k \<noteq> 0) xs)"
begin

lemmas vec_simps = create push size at find has remove

lemma find_SomeD:
  "rtVector_Find V (Some xs) k cmp = Some x \<Longrightarrow> x \<in> set xs \<and> cmp x k = 0"
  by (auto simp: find find_Some_iff)

lemma find_None: "rtVector_Find V (Some xs) k cmp = None \<longleftrightarrow> (\<forall>x\<in>set xs. cmp x k \<noteq> 0)"
  by (auto simp: find find_None_iff)

end

section \<open>Tables of named entries\<close>

text \<open>
  Every table is a vector whose entries carry a name shorter than the limit of the comparison,
  no two entries the same name.  Under these conditions the vector is a finite map from names
  to entries, and the vector operations are lookup, insertion and deletion of that map.
\<close>

definition table_wf :: "('a \<Rightarrow> string) \<Rightarrow> nat \<Rightarrow> 'a list \<Rightarrow> bool" where
  "table_wf nm lim xs \<longleftrightarrow> distinct (map nm xs) \<and> (\<forall>x\<in>set xs. length (nm x) < lim)"

definition table_map :: "('a \<Rightarrow> string) \<Rightarrow> 'a list \<Rightarrow> (string \<rightharpoonup> 'a)" where
  "table_map nm xs = map_of (map (\<lambda>x. (nm x, x)) xs)"

lemma table_wf_Nil [simp]: "table_wf nm lim []"
  by (simp add: table_wf_def)

lemma table_map_Nil [simp]: "table_map nm [] = Map.empty"
  by (simp add: table_map_def)

lemma table_map_eq_find: "table_map nm xs k = List.find (\<lambda>x. nm x = k) xs"
  unfolding table_map_def by (induction xs) auto

lemma table_map_SomeD: "table_map nm xs k = Some x \<Longrightarrow> x \<in> set xs \<and> nm x = k"
  by (auto simp: table_map_eq_find find_Some_iff)

lemma table_map_None_iff: "table_map nm xs k = None \<longleftrightarrow> k \<notin> nm ` set xs"
  by (auto simp: table_map_eq_find find_None_iff)

lemma table_wf_distinct: "table_wf nm lim xs \<Longrightarrow> distinct xs"
  by (auto simp: table_wf_def distinct_map)

lemma table_wf_snoc:
  "table_wf nm lim xs \<Longrightarrow> table_map nm xs (nm x) = None \<Longrightarrow> length (nm x) < lim \<Longrightarrow>
   table_wf nm lim (xs @ [x])"
  by (auto simp: table_wf_def table_map_None_iff)

lemma table_map_snoc:
  "table_map nm xs (nm x) = None \<Longrightarrow> table_map nm (xs @ [x]) = (table_map nm xs)(nm x \<mapsto> x)"
  by (rule ext) (auto simp: table_map_eq_find find_append split: option.splits)

lemma table_wf_remove1: "table_wf nm lim xs \<Longrightarrow> table_wf nm lim (remove1 x xs)"
  by (auto simp: table_wf_def distinct_map_remove1 dest: notin_set_remove1)

lemma table_map_remove1:
  assumes "table_wf nm lim xs" and "x \<in> set xs"
  shows "table_map nm (remove1 x xs) = (table_map nm xs)(nm x := None)"
proof (rule ext)
  fix k
  have d: "distinct (map nm xs)" using assms(1) by (simp add: table_wf_def)
  then have dx: "distinct xs" by (simp add: distinct_map)
  from d have d': "distinct (map nm (remove1 x xs))" by (rule distinct_map_remove1)
  have "y \<in> set (remove1 x xs) \<and> nm y = k \<longleftrightarrow> nm x \<noteq> k \<and> y \<in> set xs \<and> nm y = k" for y
    using d dx assms(2) by (auto simp: distinct_map inj_on_def)
  then have "table_map nm (remove1 x xs) k = Some y \<longleftrightarrow>
      ((table_map nm xs)(nm x := None)) k = Some y" for y
    using d d' by (auto simp: table_map_eq_find find_Some_iff_distinct)
  then show "table_map nm (remove1 x xs) k = ((table_map nm xs)(nm x := None)) k"
    by (metis not_Some_eq)
qed

text \<open>Updating an entry in place: the entry with the given name is replaced.\<close>

definition table_upd :: "('a \<Rightarrow> string) \<Rightarrow> string \<Rightarrow> ('a \<Rightarrow> 'a) \<Rightarrow> 'a list \<Rightarrow> 'a list" where
  "table_upd nm k f xs = map (\<lambda>x. if nm x = k then f x else x) xs"

lemma table_upd_names:
  assumes "\<And>x. nm x = k \<Longrightarrow> nm (f x) = k"
  shows "map nm (table_upd nm k f xs) = map nm xs"
  by (auto simp: table_upd_def assms)

lemma table_wf_upd:
  assumes "table_wf nm lim xs" and f: "\<And>x. nm x = k \<Longrightarrow> nm (f x) = k"
  shows "table_wf nm lim (table_upd nm k f xs)"
proof -
  have names: "map nm (table_upd nm k f xs) = map nm xs" using f by (rule table_upd_names)
  have "nm ` set (table_upd nm k f xs) = nm ` set xs" using arg_cong [OF names, of set] by simp
  then have "\<forall>x\<in>set (table_upd nm k f xs). length (nm x) < lim"
    using assms(1) unfolding table_wf_def by (metis (no_types, lifting) imageE imageI)
  then show ?thesis using assms(1) names by (simp add: table_wf_def)
qed

lemma table_map_upd:
  assumes "\<And>x. nm x = k \<Longrightarrow> nm (f x) = k"
  shows "table_map nm (table_upd nm k f xs) = (table_map nm xs)(k := map_option f (table_map nm xs k))"
  by (rule ext) (unfold table_map_eq_find table_upd_def, induction xs, auto simp: assms)

lemma table_upd_set: "x \<in> set (table_upd nm k f xs) \<Longrightarrow> (\<exists>y\<in>set xs. nm y = k \<and> x = f y) \<or> x \<in> set xs"
  by (auto simp: table_upd_def)

lemma table_upd_length [simp]: "length (table_upd nm k f xs) = length xs"
  by (simp add: table_upd_def)

lemma table_upd_Nil [simp]: "table_upd nm k f [] = []"
  by (simp add: table_upd_def)

text \<open>\<open>ok\<close> marks the entries the comparison is specified on.\<close>

locale named_table = rtvector V for V :: "'a rtVector_ops" +
  fixes nm :: "'a \<Rightarrow> string"
    and cmp :: "'a \<Rightarrow> string \<Rightarrow> int"
    and lim :: nat
    and ok :: "'a \<Rightarrow> bool"
  assumes cmp: "ok x \<Longrightarrow> cmp x k = strncmp lim (nm x) k"
begin

lemma find_table_map:
  assumes "table_wf nm lim xs" and "\<forall>x\<in>set xs. ok x"
  shows "rtVector_Find V (Some xs) k cmp = table_map nm xs k"
proof -
  have "List.find (\<lambda>x. cmp x k = 0) xs = List.find (\<lambda>x. nm x = k) xs"
    using assms by (intro find_cong_set) (auto simp: table_wf_def cmp strncmp_short_iff)
  then show ?thesis by (simp add: find table_map_eq_find)
qed

lemma find_after_push:
  assumes "table_wf nm lim xs" and "\<forall>x\<in>set xs. ok x" and "ok x"
    and "table_map nm xs (nm x) = None" and "length (nm x) < lim"
  shows "rtVector_Find V (rtVector_PushBack V (Some xs) x) k cmp =
    (if k = nm x then Some x else rtVector_Find V (Some xs) k cmp)"
  using assms by (simp add: push find_table_map table_wf_snoc table_map_snoc)

lemma find_after_remove:
  assumes "table_wf nm lim xs" and "\<forall>x\<in>set xs. ok x" and "x \<in> set xs"
  shows "rtVector_Find V (rtVector_RemoveItem V (Some xs) x) k cmp =
    (if k = nm x then None else rtVector_Find V (Some xs) k cmp)"
  using assms
  by (simp add: remove table_wf_distinct find_table_map table_wf_remove1 table_map_remove1
      notin_set_remove1)

lemma remove_found:
  assumes "table_wf nm lim xs" and "table_map nm xs k = Some x"
  shows "rtVector_RemoveItem V (Some xs) x = Some (remove1 x xs)"
  using assms by (auto simp: remove table_wf_distinct dest: table_map_SomeD)

end

section \<open>msgpack\<close>

text \<open>
  An unpacked object.  Integers and floating point numbers are the 64 bits of the union
  \<open>via\<close>; a string or a binary is a pointer into the buffer, given as an offset, and a size.
\<close>

datatype msgpack_object =
    MSGPACK_OBJECT_POSITIVE_INTEGER int64
  | MSGPACK_OBJECT_NEGATIVE_INTEGER int64
  | MSGPACK_OBJECT_FLOAT int64
  | MSGPACK_OBJECT_STR nat nat
  | MSGPACK_OBJECT_BIN nat nat
  | MSGPACK_OBJECT_OTHER nat

definition int_object :: "int64 \<Rightarrow> msgpack_object" where
  "int_object v = (if 0 \<le> sint v then MSGPACK_OBJECT_POSITIVE_INTEGER v
     else MSGPACK_OBJECT_NEGATIVE_INTEGER v)"

text \<open>
  A packing function takes the contents of the buffer and returns its code (0 for success) and
  the new contents.  \<open>msgpack_unpack_next\<close> takes the buffer and an offset, and returns the
  object (\<open>None\<close> when the code is not \<open>MSGPACK_UNPACK_SUCCESS\<close>) and the new offset.
\<close>

record msgpack =
  msgpack_sbuffer_write :: "byte list \<Rightarrow> byte list \<Rightarrow> int \<times> byte list"
  msgpack_pack_int32 :: "byte list \<Rightarrow> int32 \<Rightarrow> int \<times> byte list"
  msgpack_pack_int64 :: "byte list \<Rightarrow> int64 \<Rightarrow> int \<times> byte list"
  msgpack_pack_double :: "byte list \<Rightarrow> int64 \<Rightarrow> int \<times> byte list"
  msgpack_pack_str :: "byte list \<Rightarrow> nat \<Rightarrow> int \<times> byte list"
  msgpack_pack_str_body :: "byte list \<Rightarrow> byte list \<Rightarrow> int \<times> byte list"
  msgpack_pack_bin :: "byte list \<Rightarrow> nat \<Rightarrow> int \<times> byte list"
  msgpack_pack_bin_body :: "byte list \<Rightarrow> byte list \<Rightarrow> int \<times> byte list"
  msgpack_unpack_next :: "byte list \<Rightarrow> nat \<Rightarrow> msgpack_object option \<times> nat"

text \<open>The bytes a packing function produces, read off its effect on an empty buffer.\<close>

definition enc_int32 :: "msgpack \<Rightarrow> int32 \<Rightarrow> byte list" where
  "enc_int32 mp v = snd (msgpack_pack_int32 mp [] v)"

definition enc_int64 :: "msgpack \<Rightarrow> int64 \<Rightarrow> byte list" where
  "enc_int64 mp v = snd (msgpack_pack_int64 mp [] v)"

definition enc_double :: "msgpack \<Rightarrow> int64 \<Rightarrow> byte list" where
  "enc_double mp v = snd (msgpack_pack_double mp [] v)"

definition enc_str :: "msgpack \<Rightarrow> nat \<Rightarrow> byte list" where
  "enc_str mp n = snd (msgpack_pack_str mp [] n)"

definition enc_bin :: "msgpack \<Rightarrow> nat \<Rightarrow> byte list" where
  "enc_bin mp n = snd (msgpack_pack_bin mp [] n)"

definition be32 :: "int32 \<Rightarrow> byte list" where
  "be32 v = [ucast (drop_bit 24 v), ucast (drop_bit 16 v), ucast (drop_bit 8 v), ucast v]"

locale msgpack_api =
  fixes mp :: msgpack
  assumes sbuffer_write: "msgpack_sbuffer_write mp b d = (0, b @ d)"
    and pack_int32: "msgpack_pack_int32 mp b v = (0, b @ enc_int32 mp v)"
    and pack_int64: "msgpack_pack_int64 mp b w = (0, b @ enc_int64 mp w)"
    and pack_double: "msgpack_pack_double mp b w = (0, b @ enc_double mp w)"
    and pack_str: "n < 2 ^ 32 \<Longrightarrow> msgpack_pack_str mp b n = (0, b @ enc_str mp n)"
    and pack_str_body: "msgpack_pack_str_body mp b d = (0, b @ d)"
    and pack_bin: "n < 2 ^ 32 \<Longrightarrow> msgpack_pack_bin mp b n = (0, b @ enc_bin mp n)"
    and pack_bin_body: "msgpack_pack_bin_body mp b d = (0, b @ d)"
    and enc_int32_long: "sint v < - (2 ^ 15) \<Longrightarrow> enc_int32 mp v = 0xd2 # be32 v"
    and unpack_int32: "msgpack_unpack_next mp (pre @ enc_int32 mp v @ post) (length pre) =
      (Some (int_object (scast v)), length pre + length (enc_int32 mp v))"
    and unpack_int64: "msgpack_unpack_next mp (pre @ enc_int64 mp w @ post) (length pre) =
      (Some (int_object w), length pre + length (enc_int64 mp w))"
    and unpack_double: "msgpack_unpack_next mp (pre @ enc_double mp w @ post) (length pre) =
      (Some (MSGPACK_OBJECT_FLOAT w), length pre + length (enc_double mp w))"
    and unpack_str: "length d < 2 ^ 32 \<Longrightarrow>
      msgpack_unpack_next mp (pre @ enc_str mp (length d) @ d @ post) (length pre) =
      (Some (MSGPACK_OBJECT_STR (length pre + length (enc_str mp (length d))) (length d)),
       length pre + length (enc_str mp (length d)) + length d)"
    and unpack_bin: "length d < 2 ^ 32 \<Longrightarrow>
      msgpack_unpack_next mp (pre @ enc_bin mp (length d) @ d @ post) (length pre) =
      (Some (MSGPACK_OBJECT_BIN (length pre + length (enc_bin mp (length d))) (length d)),
       length pre + length (enc_bin mp (length d)) + length d)"
    and unpack_d2: "msgpack_unpack_next mp (pre @ 0xd2 # be32 v @ post) (length pre) =
      (Some (int_object (scast v)), length pre + 5)"
    and unpack_end: "length data \<le> off \<Longrightarrow> msgpack_unpack_next mp data off = (None, off)"
begin

lemmas pack_simps = sbuffer_write pack_int32 pack_int64 pack_double pack_str pack_str_body
  pack_bin pack_bin_body

end

section \<open>Reference counts\<close>

text \<open>
  \<open>rtRetainable_retain\<close> gives the new count, \<open>rtRetainable_release\<close> the new count and
  whether the destructor was called.
\<close>

record rt_retain =
  rtRetainable_retain :: "int \<Rightarrow> int"
  rtRetainable_release :: "int \<Rightarrow> int \<times> bool"

locale retainable =
  fixes R :: rt_retain
  assumes retain: "rtRetainable_retain R n = n + 1"
    and release: "rtRetainable_release R n = (n - 1, n = 1)"

end
