(* ===== verification/Reference_Libraries.thy ===== *)
theory Reference_Libraries
  imports Rt_Interface
begin

text \<open>
  Instances of the library interfaces: a list vector, a plain reference counter, and the
  MessagePack format as its specification writes it (integers, \<open>float 64\<close>, \<open>str\<close> and
  \<open>bin\<close>, the formats the sources write; nil and booleans are recognised, and arrays, maps,
  extensions and \<open>float 32\<close> are reported as a failed unpack).  They model no code of the
  repository.  They show that the laws assumed of the libraries hold together, and they are
  what the concrete runs of the development are evaluated on.
\<close>

section \<open>Vectors and reference counts\<close>

definition list_vector :: "'a rtVector_ops" where
  "list_vector =
     \<lparr>rtVector_Create = Some [],
      rtVector_PushBack = (\<lambda>v x. map_option (\<lambda>xs. xs @ [x]) v),
      rtVector_Size = (\<lambda>v. case v of None \<Rightarrow> 0 | Some xs \<Rightarrow> length xs),
      rtVector_At = (\<lambda>v i. case v of None \<Rightarrow> None
         | Some xs \<Rightarrow> if i < length xs then Some (xs ! i) else None),
      rtVector_Find = (\<lambda>v k cmp. case v of None \<Rightarrow> None | Some xs \<Rightarrow> List.find (\<lambda>x. cmp x k = 0) xs),
      rtVector_HasItem = (\<lambda>v k cmp. case v of None \<Rightarrow> False
         | Some xs \<Rightarrow> list_ex (\<lambda>x. cmp x k = 0) xs),
      rtVector_RemoveItem = (\<lambda>v x. map_option (remove1 x) v),
      rtVector_RemoveItemByCompare = (\<lambda>v k cmp. map_option (filter (\<lambda>x. cmp x k \<noteq> 0)) v)\<rparr>"

interpretation list_vector: rtvector list_vector
  by unfold_locales (auto simp: list_vector_def list_ex_iff)

definition plain_retain :: rt_retain where
  "plain_retain =
     \<lparr>rtRetainable_retain = (\<lambda>n. n + 1), rtRetainable_release = (\<lambda>n. (n - 1, n = 1))\<rparr>"

interpretation plain_retain: retainable plain_retain
  by unfold_locales (simp_all add: plain_retain_def)

section \<open>The MessagePack format\<close>

text \<open>Big-endian numbers of \<open>n\<close> bytes.\<close>

fun be_nat :: "nat \<Rightarrow> nat \<Rightarrow> byte list" where
  "be_nat 0 a = []"
| "be_nat (Suc n) a = be_nat n (a div 256) @ [of_nat (a mod 256)]"

definition be_val :: "byte list \<Rightarrow> nat" where
  "be_val bs = foldl (\<lambda>a b. a * 256 + unat b) 0 bs"

definition twos :: "nat \<Rightarrow> nat \<Rightarrow> int" where
  "twos n x = (if 2 * int x < 256 ^ n then int x else int x - 256 ^ n)"

definition mp_int :: "int \<Rightarrow> byte list" where
  "mp_int v =
     (if v < - (2 ^ 31) then 0xd3 # be_nat 8 (nat (v mod 256 ^ 8))
      else if v < - (2 ^ 15) then 0xd2 # be_nat 4 (nat (v mod 256 ^ 4))
      else if v < - (2 ^ 7) then 0xd1 # be_nat 2 (nat (v mod 256 ^ 2))
      else if v < - (2 ^ 5) then 0xd0 # be_nat 1 (nat (v mod 256))
      else if v < 2 ^ 7 then be_nat 1 (nat (v mod 256))
      else if v < 2 ^ 8 then 0xcc # be_nat 1 (nat v)
      else if v < 2 ^ 16 then 0xcd # be_nat 2 (nat v)
      else if v < 2 ^ 32 then 0xce # be_nat 4 (nat v)
      else 0xcf # be_nat 8 (nat v))"

definition mp_str :: "nat \<Rightarrow> byte list" where
  "mp_str n =
     (if n < 32 then [of_nat (0xa0 + n)]
      else if n < 2 ^ 8 then 0xd9 # be_nat 1 n
      else if n < 2 ^ 16 then 0xda # be_nat 2 n
      else 0xdb # be_nat 4 n)"

definition mp_bin :: "nat \<Rightarrow> byte list" where
  "mp_bin n =
     (if n < 2 ^ 8 then 0xc4 # be_nat 1 n
      else if n < 2 ^ 16 then 0xc5 # be_nat 2 n
      else 0xc6 # be_nat 4 n)"

definition mp_take :: "nat \<Rightarrow> (nat \<Rightarrow> 'a) \<Rightarrow> byte list \<Rightarrow> ('a \<times> nat) option" where
  "mp_take n f r = (if length r < n then None else Some (f (be_val (take n r)), Suc n))"

definition mp_blob ::
    "(nat \<Rightarrow> nat \<Rightarrow> msgpack_object) \<Rightarrow> nat \<Rightarrow> byte list \<Rightarrow> nat \<Rightarrow> (msgpack_object \<times> nat) option" where
  "mp_blob con n r off =
     (if length r < n then None
      else let l = be_val (take n r)
        in if length r < n + l then None else Some (con (off + Suc n) l, Suc n + l))"

text \<open>The object at the head of the bytes, and how many bytes it takes.\<close>

definition mp_decode :: "byte list \<Rightarrow> nat \<Rightarrow> (msgpack_object \<times> nat) option" where
  "mp_decode bs off =
     (case bs of [] \<Rightarrow> None
      | b # r \<Rightarrow>
        let t = unat b; pos = (\<lambda>x. MSGPACK_OBJECT_POSITIVE_INTEGER (of_nat x))
        in if t < 0x80 then Some (pos t, 1)
        else if 0xe0 \<le> t then Some (MSGPACK_OBJECT_NEGATIVE_INTEGER (of_int (int t - 256)), 1)
        else if 0xa0 \<le> t \<and> t < 0xc0
          then (if length r < t - 0xa0 then None
                else Some (MSGPACK_OBJECT_STR (Suc off) (t - 0xa0), Suc (t - 0xa0)))
        else if t = 0xc0 \<or> t = 0xc2 \<or> t = 0xc3 then Some (MSGPACK_OBJECT_OTHER t, 1)
        else if t = 0xc4 then mp_blob MSGPACK_OBJECT_BIN 1 r off
        else if t = 0xc5 then mp_blob MSGPACK_OBJECT_BIN 2 r off
        else if t = 0xc6 then mp_blob MSGPACK_OBJECT_BIN 4 r off
        else if t = 0xcb then mp_take 8 (\<lambda>x. MSGPACK_OBJECT_FLOAT (of_nat x)) r
        else if t = 0xcc then mp_take 1 pos r
        else if t = 0xcd then mp_take 2 pos r
        else if t = 0xce then mp_take 4 pos r
        else if t = 0xcf then mp_take 8 pos r
        else if t = 0xd0 then mp_take 1 (\<lambda>x. int_object (of_int (twos 1 x))) r
        else if t = 0xd1 then mp_take 2 (\<lambda>x. int_object (of_int (twos 2 x))) r
        else if t = 0xd2 then mp_take 4 (\<lambda>x. int_object (of_int (twos 4 x))) r
        else if t = 0xd3 then mp_take 8 (\<lambda>x. int_object (of_int (twos 8 x))) r
        else if t = 0xd9 then mp_blob MSGPACK_OBJECT_STR 1 r off
        else if t = 0xda then mp_blob MSGPACK_OBJECT_STR 2 r off
        else if t = 0xdb then mp_blob MSGPACK_OBJECT_STR 4 r off
        else None)"

definition mp_unpack :: "byte list \<Rightarrow> nat \<Rightarrow> msgpack_object option \<times> nat" where
  "mp_unpack data off =
     (case mp_decode (drop off data) off of
        None \<Rightarrow> (None, off)
      | Some (ob, n) \<Rightarrow> (Some ob, off + n))"

definition messagepack :: msgpack where
  "messagepack =
     \<lparr>msgpack_sbuffer_write = (\<lambda>b d. (0, b @ d)),
      msgpack_pack_int32 = (\<lambda>b v. (0, b @ mp_int (sint v))),
      msgpack_pack_int64 = (\<lambda>b v. (0, b @ mp_int (sint v))),
      msgpack_pack_double = (\<lambda>b v. (0, b @ 0xcb # be_nat 8 (unat v))),
      msgpack_pack_str = (\<lambda>b n. (0, b @ mp_str n)),
      msgpack_pack_str_body = (\<lambda>b d. (0, b @ d)),
      msgpack_pack_bin = (\<lambda>b n. (0, b @ mp_bin n)),
      msgpack_pack_bin_body = (\<lambda>b d. (0, b @ d)),
      msgpack_unpack_next = mp_unpack\<rparr>"

section \<open>The format keeps the laws\<close>

lemma length_be_nat [simp]: "length (be_nat n a) = n"
  by (induction n arbitrary: a) auto

lemma be_val_snoc: "be_val (bs @ [b]) = be_val bs * 256 + unat b"
  by (simp add: be_val_def)

lemma be_val_be_nat: "be_val (be_nat n a) = a mod 256 ^ n"
proof (induction n arbitrary: a)
  case 0
  show ?case by (simp add: be_val_def)
next
  case (Suc n)
  have "unat (of_nat (a mod 256) :: byte) = a mod 256" by (simp add: unat_of_nat)
  with Suc show ?case
    by (simp add: be_val_snoc mod_mult2_eq mult.commute)
qed

lemma be_val_be_nat_small [simp]: "a < 256 ^ n \<Longrightarrow> be_val (be_nat n a) = a"
  by (simp add: be_val_be_nat)

lemma mp_take_be_nat:
  "a < 256 ^ n \<Longrightarrow> mp_take n f (be_nat n a @ post) = Some (f a, Suc n)"
  by (simp add: mp_take_def)

lemma mp_blob_be_nat:
  "length d < 256 ^ n \<Longrightarrow>
   mp_blob con n (be_nat n (length d) @ d @ post) off =
     Some (con (off + Suc n) (length d), Suc n + length d)"
  by (simp add: mp_blob_def Let_def)

lemma twos_mod:
  assumes "- (256 ^ n) \<le> 2 * v" and "2 * v < 256 ^ n"
  shows "twos n (nat (v mod 256 ^ n)) = v"
proof (cases "0 \<le> v")
  case True
  then have "v mod 256 ^ n = v" using assms(2) by (intro mod_pos_pos_trivial) simp_all
  with True assms(2) show ?thesis by (simp add: twos_def)
next
  case False
  have "v mod 256 ^ n = (v + 256 ^ n) mod 256 ^ n" by simp
  also have "\<dots> = v + 256 ^ n" using False assms(1) by (intro mod_pos_pos_trivial) simp_all
  finally have "v mod 256 ^ n = v + 256 ^ n" .
  with False assms(1) show ?thesis by (simp add: twos_def)
qed

lemma mp_take_signed:
  assumes "- (256 ^ n) \<le> 2 * v" and "2 * v < 256 ^ n"
  shows "mp_take n (\<lambda>x. f (twos n x)) (be_nat n (nat (v mod 256 ^ n)) @ post) = Some (f v, Suc n)"
proof -
  have "nat (v mod 256 ^ n) < 256 ^ n" by (simp add: nat_less_iff)
  then show ?thesis by (simp add: mp_take_be_nat twos_mod [OF assms])
qed

lemma mp_decode_tag:
  shows "mp_decode (0xc4 # r) off = mp_blob MSGPACK_OBJECT_BIN 1 r off"
    and "mp_decode (0xc5 # r) off = mp_blob MSGPACK_OBJECT_BIN 2 r off"
    and "mp_decode (0xc6 # r) off = mp_blob MSGPACK_OBJECT_BIN 4 r off"
    and "mp_decode (0xcb # r) off = mp_take 8 (\<lambda>x. MSGPACK_OBJECT_FLOAT (of_nat x)) r"
    and "mp_decode (0xcc # r) off = mp_take 1 (\<lambda>x. MSGPACK_OBJECT_POSITIVE_INTEGER (of_nat x)) r"
    and "mp_decode (0xcd # r) off = mp_take 2 (\<lambda>x. MSGPACK_OBJECT_POSITIVE_INTEGER (of_nat x)) r"
    and "mp_decode (0xce # r) off = mp_take 4 (\<lambda>x. MSGPACK_OBJECT_POSITIVE_INTEGER (of_nat x)) r"
    and "mp_decode (0xcf # r) off = mp_take 8 (\<lambda>x. MSGPACK_OBJECT_POSITIVE_INTEGER (of_nat x)) r"
    and "mp_decode (0xd0 # r) off = mp_take 1 (\<lambda>x. int_object (of_int (twos 1 x))) r"
    and "mp_decode (0xd1 # r) off = mp_take 2 (\<lambda>x. int_object (of_int (twos 2 x))) r"
    and "mp_decode (0xd2 # r) off = mp_take 4 (\<lambda>x. int_object (of_int (twos 4 x))) r"
    and "mp_decode (0xd3 # r) off = mp_take 8 (\<lambda>x. int_object (of_int (twos 8 x))) r"
    and "mp_decode (0xd9 # r) off = mp_blob MSGPACK_OBJECT_STR 1 r off"
    and "mp_decode (0xda # r) off = mp_blob MSGPACK_OBJECT_STR 2 r off"
    and "mp_decode (0xdb # r) off = mp_blob MSGPACK_OBJECT_STR 4 r off"
  by (simp_all add: mp_decode_def Let_def)

lemma sint_of_int_int64:
  assumes "- (2 ^ 63) \<le> v" and "v < 2 ^ 63"
  shows "sint (of_int v :: int64) = v"
  using assms by (simp add: sint_sbintrunc' signed_take_bit_int_eq_self)

lemma int_object_pos:
  "0 \<le> v \<Longrightarrow> v < 2 ^ 63 \<Longrightarrow>
   int_object (of_int v) = MSGPACK_OBJECT_POSITIVE_INTEGER (of_nat (nat v))"
  by (simp add: int_object_def sint_of_int_int64)

lemma mp_decode_fixint:
  assumes "- 32 \<le> v" and "v < 128"
  shows "mp_decode (be_nat 1 (nat (v mod 256)) @ post) off = Some (int_object (of_int v), 1)"
proof (cases "0 \<le> v")
  case True
  then have "nat (v mod 256) = nat v" and "unat (of_int v :: byte) = nat v"
    using assms(2) by (simp_all add: unsigned_of_int take_bit_int_eq_self)
  with True assms(2) show ?thesis by (simp add: mp_decode_def Let_def int_object_pos)
next
  case False
  define a where "a = nat (v + 256)"
  have a: "int a = v + 256" "224 \<le> a" "a < 256"
    using False assms(1) by (simp_all add: a_def nat_less_iff le_nat_iff)
  have "v mod 256 = (v + 256) mod 256" by simp
  also have "\<dots> = v + 256" using False assms(1) by (intro mod_pos_pos_trivial) simp_all
  finally have "nat (v mod 256) = a" by (simp add: a_def)
  moreover have "unat (of_nat a :: byte) = a" using a by (simp add: unat_of_nat)
  moreover have "int_object (of_int v) = MSGPACK_OBJECT_NEGATIVE_INTEGER (of_int v)"
    using False assms(1) by (simp add: int_object_def sint_of_int_int64)
  ultimately show ?thesis using a by (simp add: mp_decode_def Let_def)
qed

lemma mp_decode_int:
  assumes "- (2 ^ 63) \<le> v" and "v < 2 ^ 63"
  shows "mp_decode (mp_int v @ post) off = Some (int_object (of_int v), length (mp_int v))"
proof -
  consider "v < - (2 ^ 31)" | "- (2 ^ 31) \<le> v" "v < - (2 ^ 15)"
    | "- (2 ^ 15) \<le> v" "v < - (2 ^ 7)" | "- (2 ^ 7) \<le> v" "v < - (2 ^ 5)"
    | "- (2 ^ 5) \<le> v" "v < 2 ^ 7" | "2 ^ 7 \<le> v" "v < 2 ^ 8" | "2 ^ 8 \<le> v" "v < 2 ^ 16"
    | "2 ^ 16 \<le> v" "v < 2 ^ 32" | "2 ^ 32 \<le> v"
    by linarith
  then show ?thesis
  proof cases
    case 1
    then show ?thesis using assms mp_take_signed [of 8 v]
      by (simp add: mp_int_def mp_decode_tag(12))
  next
    case 2
    then show ?thesis using mp_take_signed [of 4 v] by (simp add: mp_int_def mp_decode_tag(11))
  next
    case 3
    then show ?thesis using mp_take_signed [of 2 v] by (simp add: mp_int_def mp_decode_tag(10))
  next
    case 4
    then show ?thesis using mp_take_signed [of 1 v] by (simp add: mp_int_def mp_decode_tag(9))
  next
    case 5
    then show ?thesis using mp_decode_fixint [of v] by (simp add: mp_int_def)
  next
    case 6
    then show ?thesis using mp_take_be_nat [of "nat v" 1 "\<lambda>x. MSGPACK_OBJECT_POSITIVE_INTEGER (of_nat x)"]
      by (simp add: mp_int_def mp_decode_tag(5) int_object_pos nat_less_iff)
  next
    case 7
    then show ?thesis
      by (simp add: mp_int_def mp_decode_tag(6) mp_take_be_nat int_object_pos nat_less_iff)
  next
    case 8
    then show ?thesis
      by (simp add: mp_int_def mp_decode_tag(7) mp_take_be_nat int_object_pos nat_less_iff)
  next
    case 9
    then show ?thesis using assms
      by (simp add: mp_int_def mp_decode_tag(8) mp_take_be_nat int_object_pos nat_less_iff)
  qed
qed

lemma mp_decode_str:
  assumes "length d < 2 ^ 32"
  shows "mp_decode (mp_str (length d) @ d @ post) off =
    Some (MSGPACK_OBJECT_STR (off + length (mp_str (length d))) (length d),
      length (mp_str (length d)) + length d)"
proof (cases "length d < 32")
  case True
  then have "unat (of_nat (160 + length d) :: byte) = 160 + length d"
    by (simp add: unat_of_nat del: of_nat_add)
  with True show ?thesis
    by (simp add: mp_str_def mp_decode_def Let_def del: of_nat_add)
next
  case False
  with assms show ?thesis
    by (simp add: mp_str_def mp_decode_tag mp_blob_be_nat del: be_nat.simps)
qed

lemma mp_decode_bin:
  assumes "length d < 2 ^ 32"
  shows "mp_decode (mp_bin (length d) @ d @ post) off =
    Some (MSGPACK_OBJECT_BIN (off + length (mp_bin (length d))) (length d),
      length (mp_bin (length d)) + length d)"
  using assms by (simp add: mp_bin_def mp_decode_tag mp_blob_be_nat del: be_nat.simps)

lemma mp_unpack_decode:
  "mp_decode (bs @ post) (length pre) = Some (ob, n) \<Longrightarrow>
   mp_unpack (pre @ bs @ post) (length pre) = (Some ob, length pre + n)"
  by (simp add: mp_unpack_def)

lemma be_nat_4:
  "be_nat 4 a = map of_nat [a div 2 ^ 24 mod 256, a div 2 ^ 16 mod 256, a div 2 ^ 8 mod 256, a mod 256]"
proof -
  have four: "(4 :: nat) = Suc (Suc (Suc (Suc 0)))" by simp
  show ?thesis unfolding four by (simp add: div_mult2_eq [symmetric])
qed

lemma be32_be_nat: "be32 v = be_nat 4 (unat v)"
proof -
  have b: "(of_nat (unat v div 2 ^ k mod 256) :: byte) = ucast (drop_bit k v)" for k
  proof (rule unsigned_word_eqI [where ?'a = nat])
    have "unat (drop_bit k v) = unat v div 2 ^ k"
      by (subst unat_drop_bit_eq) (rule drop_bit_eq_div)
    then show "unat (of_nat (unat v div 2 ^ k mod 256) :: byte) = unat (ucast (drop_bit k v) :: byte)"
      by (simp add: unat_of_nat unsigned_ucast_eq take_bit_eq_mod)
  qed
  show ?thesis
    unfolding be32_def be_nat_4 list.map using b [of 24] b [of 16] b [of 8] b [of 0] by simp
qed

lemma unat_mod_of_sint: "nat (sint (v :: int32) mod 256 ^ 4) = unat v"
proof -
  have "uint v = uint (of_int (sint v) :: int32)" by simp
  also have "\<dots> = sint v mod 256 ^ 4" by (simp only: unsigned_of_int take_bit_eq_mod) simp
  finally show ?thesis by (metis unat_eq_nat_uint)
qed

lemma sint_bounds_int32: "- (2 ^ 31) \<le> sint (v :: int32) \<and> sint v < 2 ^ 31"
  using sint_greater_eq [of v] sint_less [of v] by simp

lemma sint_bounds_int64: "- (2 ^ 63) \<le> sint (v :: int64) \<and> sint v < 2 ^ 63"
  using sint_greater_eq [of v] sint_less [of v] by simp

lemma enc_messagepack [simp]:
  "enc_int32 messagepack v = mp_int (sint v)"
  "enc_int64 messagepack w = mp_int (sint w)"
  "enc_double messagepack w = 0xcb # be_nat 8 (unat w)"
  "enc_str messagepack n = mp_str n"
  "enc_bin messagepack n = mp_bin n"
  by (simp_all add: enc_int32_def enc_int64_def enc_double_def enc_str_def enc_bin_def
      messagepack_def)

lemma unpack_messagepack [simp]: "msgpack_unpack_next messagepack = mp_unpack"
  by (simp add: messagepack_def)

interpretation messagepack: msgpack_api messagepack
proof (unfold_locales, goal_cases)
  case (9 v)
  then show ?case
    using unat_mod_of_sint [of v] be32_be_nat [of v] sint_bounds_int32 [of v]
    by (simp add: mp_int_def)
next
  case (10 pre v post)
  have "- (2 ^ 63) \<le> sint v \<and> sint v < 2 ^ 63"
    using sint_bounds_int32 [of v] by simp
  then show ?case
    using mp_decode_int [of "sint v" post "length pre"]
    by (simp add: mp_unpack_decode)
next
  case (11 pre w post)
  then show ?case
    using mp_decode_int [of "sint w" post "length pre"] sint_bounds_int64 [of w]
    by (simp add: mp_unpack_decode)
next
  case (12 pre w post)
  have "mp_decode ((0xcb # be_nat 8 (unat w)) @ post) (length pre) =
      Some (MSGPACK_OBJECT_FLOAT w, 9)"
    using unsigned_less [of w, where ?'a = nat] by (simp add: mp_decode_tag(4) mp_take_be_nat)
  from mp_unpack_decode [OF this] show ?case by simp
next
  case (13 d pre post)
  from mp_unpack_decode [of "mp_str (length d)" "d @ post", OF mp_decode_str [OF this]]
  show ?case by (simp add: add.assoc)
next
  case (14 d pre post)
  from mp_unpack_decode [of "mp_bin (length d)" "d @ post", OF mp_decode_bin [OF this]]
  show ?case by (simp add: add.assoc)
next
  case (15 pre v post)
  have "mp_decode ((0xd2 # be32 v) @ post) (length pre) = Some (int_object (scast v), 5)"
    using mp_take_signed [of 4 "sint v" "\<lambda>x. int_object (of_int x)" post] sint_bounds_int32 [of v]
      unat_mod_of_sint [of v] be32_be_nat [of v]
    by (simp add: mp_decode_tag(11))
  from mp_unpack_decode [OF this] show ?case by simp
next
  case (16 data off)
  then show ?case by (simp add: mp_unpack_def mp_decode_def)
qed (simp_all add: enc_messagepack, simp_all add: messagepack_def)

end
