(* ===== verification/Rbus_Message.thy ===== *)
theory Rbus_Message
  imports Reference_Libraries
begin

text \<open>
  \<open>rbus-core/lib/rbus_message.c\<close>: the message, a byte buffer written by a msgpack packer and
  read by a cursor, and its meta section, a trailer that holds the method or event name and
  ends in the offset of its own start.

  The record keeps the fields of \<open>struct _rbusMessage\<close> except \<open>upk\<close>, the scratch result of
  the last unpack, which every getter overwrites before it reads it.  \<open>pk\<close> says whether the
  packer was initialised: \<open>rbusMessage_FromBytes\<close> does not do so, and writing through it is
  undefined.  A writer returns \<open>None\<close> where the C code has undefined behaviour, else the
  error code and the message.  A reader returns the error code, the value stored through the
  out parameter (\<open>None\<close>: nothing stored) and the message.
\<close>

record rbusMessage =
  refCount :: int
  sbuf :: "byte list"
  pk :: bool
  read_offset :: nat
  meta_offset :: int32

section \<open>Creation\<close>

definition rbusMessage_Init :: rbusMessage where
  "rbusMessage_Init =
     \<lparr>refCount = 1, sbuf = [], pk = True, read_offset = 0, meta_offset = 0\<rparr>"

definition rbusMessage_FromBytes :: "msgpack \<Rightarrow> byte list \<Rightarrow> rbusMessage" where
  "rbusMessage_FromBytes mp buff =
     \<lparr>refCount = 1, sbuf = snd (msgpack_sbuffer_write mp [] buff), pk = False,
      read_offset = 0, meta_offset = 0\<rparr>"

text \<open>The buffer and its length, which \<open>*n = sbuf.size\<close> reduces to 32 bits.\<close>

definition rbusMessage_ToBytes :: "rbusMessage \<Rightarrow> byte list \<times> nat" where
  "rbusMessage_ToBytes m = (sbuf m, length (sbuf m) mod 2 ^ 32)"

definition message_bytes :: "rbusMessage \<Rightarrow> byte list" where
  "message_bytes m = (case rbusMessage_ToBytes m of (data, n) \<Rightarrow> take n data)"

section \<open>The packing and unpacking macros\<close>

definition verify_pack ::
    "(byte list \<Rightarrow> 'v \<Rightarrow> int \<times> byte list) \<Rightarrow> rbusMessage \<Rightarrow> 'v \<Rightarrow> (rtError \<times> rbusMessage) option" where
  "verify_pack pack m v =
     (if \<not> pk m then None
      else case pack (sbuf m) v of (code, b) \<Rightarrow>
        Some (if code \<noteq> 0 then RT_FAIL else RT_OK, m\<lparr>sbuf := b\<rparr>))"

definition verify_pack_buffer ::
    "(byte list \<Rightarrow> nat \<Rightarrow> int \<times> byte list) \<Rightarrow> (byte list \<Rightarrow> byte list \<Rightarrow> int \<times> byte list) \<Rightarrow>
     rbusMessage \<Rightarrow> byte list \<Rightarrow> (rtError \<times> rbusMessage) option" where
  "verify_pack_buffer pack_len pack_body m bytes =
     (if \<not> pk m then None
      else case pack_len (sbuf m) (length bytes) of (code, b) \<Rightarrow>
        if code \<noteq> 0 then Some (RT_FAIL, m\<lparr>sbuf := b\<rparr>)
        else case pack_body b bytes of (code', b') \<Rightarrow>
          Some (if code' \<noteq> 0 then RT_FAIL else RT_OK, m\<lparr>sbuf := b'\<rparr>))"

definition verify_unpack_next_item ::
    "msgpack \<Rightarrow> rbusMessage \<Rightarrow> msgpack_object option \<times> rbusMessage" where
  "verify_unpack_next_item mp m =
     (case msgpack_unpack_next mp (sbuf m) (read_offset m) of (ob, off) \<Rightarrow>
        (ob, m\<lparr>read_offset := off\<rparr>))"

text \<open>\<open>sel\<close> picks the payload of the accepted object types; \<open>None\<close> is a type mismatch.\<close>

definition verify_unpack ::
    "msgpack \<Rightarrow> (msgpack_object \<Rightarrow> 'a option) \<Rightarrow> rbusMessage \<Rightarrow> rtError \<times> 'a option \<times> rbusMessage" where
  "verify_unpack mp sel m =
     (case verify_unpack_next_item mp m of
        (None, m') \<Rightarrow> (RT_FAIL, None, m')
      | (Some ob, m') \<Rightarrow>
          (case sel ob of None \<Rightarrow> (RT_FAIL, None, m') | Some v \<Rightarrow> (RT_OK, Some v, m')))"

fun via_i64 :: "msgpack_object \<Rightarrow> int64 option" where
  "via_i64 (MSGPACK_OBJECT_POSITIVE_INTEGER w) = Some w"
| "via_i64 (MSGPACK_OBJECT_NEGATIVE_INTEGER w) = Some w"
| "via_i64 _ = None"

fun via_f64 :: "msgpack_object \<Rightarrow> int64 option" where
  "via_f64 (MSGPACK_OBJECT_FLOAT w) = Some w"
| "via_f64 _ = None"

fun via_str :: "msgpack_object \<Rightarrow> nat option" where
  "via_str (MSGPACK_OBJECT_STR p n) = Some p"
| "via_str _ = None"

fun via_bin :: "msgpack_object \<Rightarrow> (nat \<times> nat) option" where
  "via_bin (MSGPACK_OBJECT_BIN p n) = Some (p, n)"
| "via_bin _ = None"

section \<open>Typed fields\<close>

text \<open>
  \<open>int length = strlen(value) + 1\<close>: a string of 2 GiB or more makes the length negative, and the
  body is read far out of bounds.
\<close>

definition rbusMessage_SetString ::
    "msgpack \<Rightarrow> rbusMessage \<Rightarrow> string option \<Rightarrow> (rtError \<times> rbusMessage) option" where
  "rbusMessage_SetString mp m value =
     (let value = (case value of None \<Rightarrow> [] | Some s \<Rightarrow> s)
      in if 2 ^ 31 \<le> Suc (length value) then None
         else verify_pack_buffer (msgpack_pack_str mp) (msgpack_pack_str_body mp) m (cstr_bytes value))"

text \<open>The value is a pointer into the buffer; \<open>message_cstr\<close> reads the string it points to.\<close>

definition rbusMessage_GetString ::
    "msgpack \<Rightarrow> rbusMessage \<Rightarrow> rtError \<times> nat option \<times> rbusMessage" where
  "rbusMessage_GetString mp m = verify_unpack mp via_str m"

definition message_cstr :: "rbusMessage \<Rightarrow> nat \<Rightarrow> string option" where
  "message_cstr m p = cstr_read (sbuf m) p"

definition rbusMessage_SetBytes ::
    "msgpack \<Rightarrow> rbusMessage \<Rightarrow> byte list \<Rightarrow> (rtError \<times> rbusMessage) option" where
  "rbusMessage_SetBytes mp m bytes =
     verify_pack_buffer (msgpack_pack_bin mp) (msgpack_pack_bin_body mp) m bytes"

definition rbusMessage_GetBytes ::
    "msgpack \<Rightarrow> rbusMessage \<Rightarrow> rtError \<times> byte list option \<times> rbusMessage" where
  "rbusMessage_GetBytes mp m =
     (case verify_unpack mp via_bin m of (e, v, m') \<Rightarrow>
        (e, map_option (\<lambda>(p, n). take n (drop p (sbuf m'))) v, m'))"

definition rbusMessage_SetInt32 ::
    "msgpack \<Rightarrow> rbusMessage \<Rightarrow> int32 \<Rightarrow> (rtError \<times> rbusMessage) option" where
  "rbusMessage_SetInt32 mp m value = verify_pack (msgpack_pack_int32 mp) m value"

definition rbusMessage_GetInt32 ::
    "msgpack \<Rightarrow> rbusMessage \<Rightarrow> rtError \<times> int32 option \<times> rbusMessage" where
  "rbusMessage_GetInt32 mp m =
     (case verify_unpack mp via_i64 m of (e, v, m') \<Rightarrow> (e, map_option ucast v, m'))"

definition rbusMessage_SetInt64 ::
    "msgpack \<Rightarrow> rbusMessage \<Rightarrow> int64 \<Rightarrow> (rtError \<times> rbusMessage) option" where
  "rbusMessage_SetInt64 mp m value = verify_pack (msgpack_pack_int64 mp) m value"

definition rbusMessage_GetInt64 ::
    "msgpack \<Rightarrow> rbusMessage \<Rightarrow> rtError \<times> int64 option \<times> rbusMessage" where
  "rbusMessage_GetInt64 mp m = verify_unpack mp via_i64 m"

text \<open>A \<open>double\<close> is its 64 bits.\<close>

definition rbusMessage_SetDouble ::
    "msgpack \<Rightarrow> rbusMessage \<Rightarrow> int64 \<Rightarrow> (rtError \<times> rbusMessage) option" where
  "rbusMessage_SetDouble mp m value = verify_pack (msgpack_pack_double mp) m value"

definition rbusMessage_GetDouble ::
    "msgpack \<Rightarrow> rbusMessage \<Rightarrow> rtError \<times> int64 option \<times> rbusMessage" where
  "rbusMessage_GetDouble mp m = verify_unpack mp via_f64 m"

definition rbusMessage_SetMessage ::
    "msgpack \<Rightarrow> rbusMessage \<Rightarrow> rbusMessage \<Rightarrow> (rtError \<times> rbusMessage) option" where
  "rbusMessage_SetMessage mp m item =
     verify_pack_buffer (msgpack_pack_bin mp) (msgpack_pack_bin_body mp) m (sbuf item)"

definition rbusMessage_GetMessage ::
    "msgpack \<Rightarrow> rbusMessage \<Rightarrow> rtError \<times> rbusMessage option \<times> rbusMessage" where
  "rbusMessage_GetMessage mp m =
     (case verify_unpack mp via_bin m of (e, v, m') \<Rightarrow>
        (e, map_option (\<lambda>(p, n). rbusMessage_FromBytes mp (take n (drop p (sbuf m')))) v, m'))"

section \<open>The meta section\<close>

definition rbusMessage_BeginMetaSectionWrite :: "rbusMessage \<Rightarrow> rbusMessage" where
  "rbusMessage_BeginMetaSectionWrite m = m\<lparr>meta_offset := int32_of_size (length (sbuf m))\<rparr>"

text \<open>
  The return code of the packer is ignored.  Then the byte four places before the end of the
  buffer is masked; with fewer than four bytes that access is out of bounds.
\<close>

definition rbusMessage_EndMetaSectionWrite :: "msgpack \<Rightarrow> rbusMessage \<Rightarrow> rbusMessage option" where
  "rbusMessage_EndMetaSectionWrite mp m =
     (if \<not> pk m then None
      else let b = snd (msgpack_pack_int32 mp (sbuf m) (meta_offset m OR 0x80000000));
               i = length b - 4
        in if length b < 4 then None else Some (m\<lparr>sbuf := b[i := b ! i AND 0x7F]\<rparr>))"

definition rbusMessage_BeginMetaSectionRead :: "msgpack \<Rightarrow> rbusMessage \<Rightarrow> rbusMessage" where
  "rbusMessage_BeginMetaSectionRead mp m =
     (let m1 = m\<lparr>meta_offset := int32_of_size (read_offset m),
                  read_offset := size_sub (length (sbuf m)) 5\<rparr>
      in case rbusMessage_GetInt32 mp m1 of (_, v, m2) \<Rightarrow>
           m2\<lparr>read_offset := size_of_int32 (case v of None \<Rightarrow> 0 | Some w \<Rightarrow> w)\<rparr>)"

definition rbusMessage_EndMetaSectionRead :: "rbusMessage \<Rightarrow> rbusMessage" where
  "rbusMessage_EndMetaSectionRead m = m\<lparr>read_offset := size_of_int32 (meta_offset m)\<rparr>"

section \<open>Sequences of fields\<close>

text \<open>
  A field as an application writes and reads it, and the two loops an application runs: write
  the fields in order, read fields of the same types in order.  \<open>F_Message\<close> carries the bytes
  of the nested message.
\<close>

datatype field =
    F_Int32 int32
  | F_Int64 int64
  | F_Double int64
  | F_String string
  | F_Bytes "byte list"
  | F_Message "byte list"

fun field_ok :: "field \<Rightarrow> bool" where
  "field_ok (F_String s) \<longleftrightarrow> no_nul s \<and> Suc (length s) < 2 ^ 31"
| "field_ok (F_Bytes b) \<longleftrightarrow> length b < 2 ^ 32"
| "field_ok (F_Message b) \<longleftrightarrow> length b < 2 ^ 32"
| "field_ok _ \<longleftrightarrow> True"

fun put_field :: "msgpack \<Rightarrow> rbusMessage \<Rightarrow> field \<Rightarrow> (rtError \<times> rbusMessage) option" where
  "put_field mp m (F_Int32 v) = rbusMessage_SetInt32 mp m v"
| "put_field mp m (F_Int64 v) = rbusMessage_SetInt64 mp m v"
| "put_field mp m (F_Double v) = rbusMessage_SetDouble mp m v"
| "put_field mp m (F_String s) = rbusMessage_SetString mp m (Some s)"
| "put_field mp m (F_Bytes b) = rbusMessage_SetBytes mp m b"
| "put_field mp m (F_Message b) = rbusMessage_SetMessage mp m (rbusMessage_FromBytes mp b)"

fun put_fields :: "msgpack \<Rightarrow> rbusMessage \<Rightarrow> field list \<Rightarrow> rbusMessage option" where
  "put_fields mp m [] = Some m"
| "put_fields mp m (f # fs) =
     (case put_field mp m f of Some (RT_OK, m') \<Rightarrow> put_fields mp m' fs | _ \<Rightarrow> None)"

text \<open>A read returns the getter's code, the field when the getter stored a value, and the message.\<close>

fun get_field :: "msgpack \<Rightarrow> rbusMessage \<Rightarrow> field \<Rightarrow> rtError \<times> field option \<times> rbusMessage" where
  "get_field mp m (F_Int32 _) =
     (case rbusMessage_GetInt32 mp m of (e, v, m') \<Rightarrow> (e, map_option F_Int32 v, m'))"
| "get_field mp m (F_Int64 _) =
     (case rbusMessage_GetInt64 mp m of (e, v, m') \<Rightarrow> (e, map_option F_Int64 v, m'))"
| "get_field mp m (F_Double _) =
     (case rbusMessage_GetDouble mp m of (e, v, m') \<Rightarrow> (e, map_option F_Double v, m'))"
| "get_field mp m (F_String _) =
     (case rbusMessage_GetString mp m of (e, v, m') \<Rightarrow>
        (e, map_option F_String (Option.bind v (message_cstr m')), m'))"
| "get_field mp m (F_Bytes _) =
     (case rbusMessage_GetBytes mp m of (e, v, m') \<Rightarrow> (e, map_option F_Bytes v, m'))"
| "get_field mp m (F_Message _) =
     (case rbusMessage_GetMessage mp m of (e, v, m') \<Rightarrow> (e, map_option (F_Message \<circ> sbuf) v, m'))"

text \<open>All fields, each read with \<open>RT_OK\<close>.\<close>

fun get_fields :: "msgpack \<Rightarrow> rbusMessage \<Rightarrow> field list \<Rightarrow> field list option" where
  "get_fields mp m [] = Some []"
| "get_fields mp m (f # fs) =
     (case get_field mp m f of
        (RT_OK, Some v, m') \<Rightarrow> map_option ((#) v) (get_fields mp m' fs)
      | _ \<Rightarrow> None)"

fun enc_field :: "msgpack \<Rightarrow> field \<Rightarrow> byte list" where
  "enc_field mp (F_Int32 v) = enc_int32 mp v"
| "enc_field mp (F_Int64 v) = enc_int64 mp v"
| "enc_field mp (F_Double v) = enc_double mp v"
| "enc_field mp (F_String s) = enc_str mp (Suc (length s)) @ cstr_bytes s"
| "enc_field mp (F_Bytes b) = enc_bin mp (length b) @ b"
| "enc_field mp (F_Message b) = enc_bin mp (length b) @ b"

definition enc_fields :: "msgpack \<Rightarrow> field list \<Rightarrow> byte list" where
  "enc_fields mp fs = concat (map (enc_field mp) fs)"

text \<open>
  The writer's and the reader's side of a meta section of the given fields.  The reader's
  cursor returns to where it was.
\<close>

definition write_meta :: "msgpack \<Rightarrow> rbusMessage \<Rightarrow> field list \<Rightarrow> rbusMessage option" where
  "write_meta mp m fs =
     Option.bind (put_fields mp (rbusMessage_BeginMetaSectionWrite m) fs)
       (rbusMessage_EndMetaSectionWrite mp)"

definition read_meta :: "msgpack \<Rightarrow> rbusMessage \<Rightarrow> field list \<Rightarrow> field list option \<times> nat" where
  "read_meta mp m fs =
     (let m' = rbusMessage_BeginMetaSectionRead mp m
      in (get_fields mp m' fs, read_offset (rbusMessage_EndMetaSectionRead m')))"

text \<open>The trailer of a meta section that starts at offset \<open>n\<close>.\<close>

definition meta_trailer :: "nat \<Rightarrow> byte list" where
  "meta_trailer n = 0xd2 # be32 (int32_of_size n)"

section \<open>Facts that hold for every msgpack\<close>

lemma via_i64_int_object [simp]: "via_i64 (int_object w) = Some w"
  by (simp add: int_object_def)

lemma via_others_int_object [simp]:
  "via_f64 (int_object w) = None" "via_str (int_object w) = None" "via_bin (int_object w) = None"
  by (simp_all add: int_object_def)

lemma ucast_scast_int32 [simp]: "(ucast (scast (v :: int32) :: int64) :: int32) = v"
proof (rule bit_word_eqI)
  fix n assume "n < LENGTH(32)"
  then show "bit (ucast (scast v :: int64) :: int32) n = bit v n"
    by (cases "n = 31") (auto simp: bit_simps min_def)
qed

lemma sint_truncated: "sint (ucast (w :: int64) :: int32) = signed_take_bit 31 (sint w)"
  by (rule bit_eqI) (auto simp: bit_simps min_def)

lemma sint_extended: "sint (scast (v :: int32) :: int64) = sint v"
  by (rule bit_eqI) (auto simp: bit_simps min_def)

lemma message_bytes_small: "length (sbuf m) < 2 ^ 32 \<Longrightarrow> message_bytes m = sbuf m"
  by (simp add: message_bytes_def rbusMessage_ToBytes_def)

lemma length_be32 [simp]: "length (be32 v) = 4"
  by (simp add: be32_def)

lemma length_meta_trailer [simp]: "length (meta_trailer n) = 5"
  by (simp add: meta_trailer_def)

lemma be32_unmask:
  assumes "n < 2 ^ 31"
  shows "(be32 (int32_of_size n OR 0x80000000))
      [0 := be32 (int32_of_size n OR 0x80000000) ! 0 AND 0x7F] = be32 (int32_of_size n)"
proof -
  have nb: "\<not> bit (int32_of_size n) 31"
    using assms unfolding int32_of_size_def by (rule bit31_of_nat)
  show ?thesis
    by (simp only: be32_def low_bytes_unmasked [OF bit_int32_mask] nth_Cons_0 list_update.simps
        nat.case top_byte_cleared [OF bit_int32_mask bit_byte_mask nb])
qed

section \<open>Facts under the laws of msgpack\<close>

context msgpack_api
begin

lemmas set_defs = rbusMessage_SetInt32_def rbusMessage_SetInt64_def rbusMessage_SetDouble_def
  rbusMessage_SetString_def rbusMessage_SetBytes_def rbusMessage_SetMessage_def
  verify_pack_def verify_pack_buffer_def

lemmas get_defs = rbusMessage_GetInt32_def rbusMessage_GetInt64_def rbusMessage_GetDouble_def
  rbusMessage_GetString_def rbusMessage_GetBytes_def rbusMessage_GetMessage_def
  verify_unpack_def verify_unpack_next_item_def

lemma FromBytes_sbuf [simp]: "sbuf (rbusMessage_FromBytes mp b) = b"
  by (simp add: rbusMessage_FromBytes_def sbuffer_write)

lemma put_field_appends:
  assumes "pk m" and "field_ok f"
  shows "put_field mp m f = Some (RT_OK, m\<lparr>sbuf := sbuf m @ enc_field mp f\<rparr>)"
  using assms by (cases f) (simp_all add: set_defs pack_simps Let_def)

lemma get_field_reads:
  assumes "sbuf m = pre @ enc_field mp f @ post" and "read_offset m = length pre"
    and "field_ok f"
  shows "get_field mp m f = (RT_OK, Some f, m\<lparr>read_offset := length pre + length (enc_field mp f)\<rparr>)"
proof (cases f)
  case (F_String s)
  let ?h = "enc_str mp (length (cstr_bytes s))"
  have data: "sbuf m = pre @ ?h @ cstr_bytes s @ post" using assms(1) F_String by simp
  have "cstr_read ((pre @ ?h) @ cstr_bytes s @ post) (length (pre @ ?h)) = Some s"
    using assms(3) F_String by (intro cstr_read_written) simp
  moreover have "length (cstr_bytes s) < 2 ^ 32" using assms(3) F_String by simp
  ultimately show ?thesis
    using unpack_str [of "cstr_bytes s" pre post] F_String assms(2) data
    by (simp add: get_defs message_cstr_def)
next
  case (F_Bytes b)
  then show ?thesis using assms unpack_bin [of b pre post] by (simp add: get_defs)
next
  case (F_Message b)
  then show ?thesis using assms unpack_bin [of b pre post] by (simp add: get_defs)
qed (use assms in \<open>simp_all add: get_defs unpack_int32 unpack_int64 unpack_double\<close>)

lemma put_fields_appends:
  assumes "pk m" and "\<forall>f\<in>set fs. field_ok f"
  shows "put_fields mp m fs = Some (m\<lparr>sbuf := sbuf m @ enc_fields mp fs\<rparr>)"
  using assms
  by (induction fs arbitrary: m) (simp_all add: put_field_appends enc_fields_def)

lemma get_fields_reads:
  assumes "sbuf m = pre @ enc_fields mp fs @ post" and "read_offset m = length pre"
    and "\<forall>f\<in>set fs. field_ok f"
  shows "get_fields mp m fs = Some fs"
  using assms
proof (induction fs arbitrary: m pre)
  case (Cons f fs)
  let ?m' = "m\<lparr>read_offset := length pre + length (enc_field mp f)\<rparr>"
  have "get_field mp m f = (RT_OK, Some f, ?m')"
    using Cons.prems by (intro get_field_reads [where post = "enc_fields mp fs @ post"])
      (simp_all add: enc_fields_def)
  moreover have "get_fields mp ?m' fs = Some fs"
    using Cons.prems by (intro Cons.IH [where pre = "pre @ enc_field mp f"])
      (simp_all add: enc_fields_def)
  ultimately show ?case by simp
qed simp

text \<open>Writing the meta section: the name, then the trailer, whatever was there before.\<close>

lemma EndMetaSectionWrite_appends:
  assumes "pk m" and "meta_offset m = int32_of_size n" and "n < 2 ^ 31 - 2 ^ 15"
  shows "rbusMessage_EndMetaSectionWrite mp m = Some (m\<lparr>sbuf := sbuf m @ meta_trailer n\<rparr>)"
proof -
  let ?w = "int32_of_size n OR 0x80000000"
  have "sint ?w < - (2 ^ 15)" using assms(3) sint_masked [of n] by simp
  then have enc: "enc_int32 mp ?w = 0xd2 # be32 ?w" by (rule enc_int32_long)
  have len: "length (sbuf m @ 0xd2 # be32 ?w) - 4 = length (sbuf m @ [0xd2])" by simp
  have "(sbuf m @ 0xd2 # be32 ?w)[length (sbuf m @ [0xd2]) := be32 ?w ! 0 AND 0x7F] =
      (sbuf m @ [0xd2]) @ (be32 ?w)[0 := be32 ?w ! 0 AND 0x7F]"
    by (simp add: list_update_append)
  then show ?thesis
    using assms be32_unmask [of n] len
    by (simp add: rbusMessage_EndMetaSectionWrite_def pack_int32 enc Let_def nth_append
        meta_trailer_def)
qed

lemma write_meta_appends:
  assumes "pk m" and "\<forall>f\<in>set fs. field_ok f" and "length (sbuf m) < 2 ^ 31 - 2 ^ 15"
  shows "write_meta mp m fs = Some (m\<lparr>meta_offset := int32_of_size (length (sbuf m)),
    sbuf := sbuf m @ enc_fields mp fs @ meta_trailer (length (sbuf m))\<rparr>)"
proof -
  let ?m = "m\<lparr>meta_offset := int32_of_size (length (sbuf m)),
    sbuf := sbuf m @ enc_fields mp fs\<rparr>"
  have "put_fields mp (rbusMessage_BeginMetaSectionWrite m) fs = Some ?m"
    using assms(1,2) by (simp add: put_fields_appends rbusMessage_BeginMetaSectionWrite_def)
  then show ?thesis
    using EndMetaSectionWrite_appends [of ?m "length (sbuf m)"] assms(1,3)
    by (simp add: write_meta_def)
qed

text \<open>Reading the trailer moves the cursor to the offset it holds and keeps the old cursor.\<close>

lemma BeginMetaSectionRead_seeks:
  assumes "sbuf m = body @ meta_trailer n" and "n < 2 ^ 31" and "length (sbuf m) < 2 ^ 64"
  shows "rbusMessage_BeginMetaSectionRead mp m =
    m\<lparr>meta_offset := int32_of_size (read_offset m), read_offset := n\<rparr>"
proof -
  have "size_sub (length (sbuf m)) 5 = length body"
    using assms(1,3) by (subst size_sub_no_wrap) simp_all
  then show ?thesis
    using assms(1,2) unpack_d2 [of body "int32_of_size n" "[]"]
    by (simp add: rbusMessage_BeginMetaSectionRead_def get_defs meta_trailer_def
        size_of_int32_of_size)
qed

lemma read_meta_reads:
  assumes "sbuf m = body @ enc_fields mp fs @ meta_trailer (length body)"
    and "\<forall>f\<in>set fs. field_ok f" and "length body < 2 ^ 31" and "length (sbuf m) < 2 ^ 64"
    and "read_offset m < 2 ^ 31"
  shows "read_meta mp m fs = (Some fs, read_offset m)"
proof -
  have "rbusMessage_BeginMetaSectionRead mp m =
      m\<lparr>meta_offset := int32_of_size (read_offset m), read_offset := length body\<rparr>"
    using assms(1,3,4) by (intro BeginMetaSectionRead_seeks [where body = "body @ enc_fields mp fs"])
      simp_all
  then show ?thesis
    using assms(1,2,5)
      get_fields_reads [where pre = body and post = "meta_trailer (length body)"]
    by (simp add: read_meta_def rbusMessage_EndMetaSectionRead_def size_of_int32_of_size)
qed

end

section \<open>Types of fields\<close>

text \<open>Which getter accepts an item is decided by its msgpack type.\<close>

datatype field_kind = K_Integer | K_Float | K_Str | K_Bin

fun kind_of :: "field \<Rightarrow> field_kind" where
  "kind_of (F_Int32 _) = K_Integer"
| "kind_of (F_Int64 _) = K_Integer"
| "kind_of (F_Double _) = K_Float"
| "kind_of (F_String _) = K_Str"
| "kind_of (F_Bytes _) = K_Bin"
| "kind_of (F_Message _) = K_Bin"

context msgpack_api
begin

lemma get_field_mismatch:
  assumes "sbuf m = pre @ enc_field mp f @ post" and "read_offset m = length pre"
    and "field_ok f" and "kind_of g \<noteq> kind_of f"
  shows "get_field mp m g = (RT_FAIL, None, m\<lparr>read_offset := length pre + length (enc_field mp f)\<rparr>)"
proof (cases f)
  case (F_String s)
  then have "msgpack_unpack_next mp (sbuf m) (length pre) =
      (Some (MSGPACK_OBJECT_STR (length pre + length (enc_str mp (Suc (length s)))) (Suc (length s))),
       length pre + length (enc_field mp f))"
    using assms unpack_str [of "cstr_bytes s" pre post] by simp
  with F_String assms show ?thesis by (cases g) (simp_all add: get_defs)
next
  case (F_Bytes b)
  with assms show ?thesis using unpack_bin [of b pre post] by (cases g) (simp_all add: get_defs)
next
  case (F_Message b)
  with assms show ?thesis using unpack_bin [of b pre post] by (cases g) (simp_all add: get_defs)
qed (use assms in \<open>cases g; simp add: get_defs unpack_int32 unpack_int64 unpack_double\<close>)+

text \<open>A message with fields and a meta section, sent as bytes.\<close>

lemma message_with_meta:
  assumes ok: "\<forall>f\<in>set fs. field_ok f" "\<forall>f\<in>set ms. field_ok f"
    and len: "length (enc_fields mp fs) < 2 ^ 31 - 2 ^ 15"
    and total: "length (enc_fields mp fs @ enc_fields mp ms) + 5 < 2 ^ 32"
  obtains m where "Option.bind (put_fields mp rbusMessage_Init fs) (\<lambda>m. write_meta mp m ms) = Some m"
    and "message_bytes m = enc_fields mp fs @ enc_fields mp ms @ meta_trailer (length (enc_fields mp fs))"
proof -
  let ?m = "rbusMessage_Init\<lparr>sbuf := enc_fields mp fs\<rparr>"
  have "put_fields mp rbusMessage_Init fs = Some ?m"
    using put_fields_appends [of rbusMessage_Init fs] ok by (simp add: rbusMessage_Init_def)
  moreover have "write_meta mp ?m ms = Some (?m\<lparr>meta_offset := int32_of_size (length (sbuf ?m)),
      sbuf := sbuf ?m @ enc_fields mp ms @ meta_trailer (length (sbuf ?m))\<rparr>)"
    using ok len by (intro write_meta_appends) (simp_all add: rbusMessage_Init_def)
  ultimately show thesis
    using that total by (simp add: message_bytes_small)
qed

end

section \<open>Properties\<close>

text \<open>
  C1. Round trip of a message: any sequence of typed fields and any meta section, written with the
  setters, sent as bytes and taken in by \<open>rbusMessage_FromBytes\<close>, is read back by the getters
  exactly as it was written, the meta section first; reading the meta section puts the cursor
  back where it was, at the first field.  The fields start the message, so they are read from
  the offset 0.
\<close>

theorem message_roundtrip:
  assumes "msgpack_api mp"
    and "\<forall>f\<in>set fs. field_ok f" and "\<forall>f\<in>set ms. field_ok f"
    and "length (enc_fields mp fs) < 2 ^ 31 - 2 ^ 15"
    and "length (enc_fields mp fs @ enc_fields mp ms) + 5 < 2 ^ 32"
  shows "\<exists>m. Option.bind (put_fields mp rbusMessage_Init fs) (\<lambda>m. write_meta mp m ms) = Some m \<and>
    (let r = rbusMessage_FromBytes mp (message_bytes m)
     in read_meta mp r ms = (Some ms, 0) \<and> get_fields mp r fs = Some fs)"
proof -
  from assms(1) obtain m where
    "Option.bind (put_fields mp rbusMessage_Init fs) (\<lambda>m. write_meta mp m ms) = Some m"
    and bytes: "message_bytes m =
      enc_fields mp fs @ enc_fields mp ms @ meta_trailer (length (enc_fields mp fs))"
    using assms(2-5) by (rule msgpack_api.message_with_meta)
  moreover let ?r = "rbusMessage_FromBytes mp (message_bytes m)"
  have r: "sbuf ?r = message_bytes m" "read_offset ?r = 0"
    using msgpack_api.FromBytes_sbuf [OF assms(1)] by (simp_all add: rbusMessage_FromBytes_def)
  have "read_meta mp ?r ms = (Some ms, read_offset ?r)"
    using assms(2-5) r bytes
    by (intro msgpack_api.read_meta_reads [OF assms(1), where body = "enc_fields mp fs"]) simp_all
  moreover have "get_fields mp ?r fs = Some fs"
    using assms r bytes by (intro msgpack_api.get_fields_reads [OF assms(1), where pre = "[]"]) simp_all
  ultimately show ?thesis using r by auto
qed

theorem message_roundtrip_witness:
  "\<exists>m. Option.bind (put_fields messagepack rbusMessage_Init
        [F_Int32 (- 70000), F_String ''Device.Info'', F_Bytes [1, 2, 0]])
        (\<lambda>m. write_meta messagepack m [F_String ''METHOD_SETPARAMETERVALUES'']) = Some m \<and>
    (let r = rbusMessage_FromBytes messagepack (message_bytes m)
     in read_meta messagepack r [F_String ''METHOD_SETPARAMETERVALUES''] =
          (Some [F_String ''METHOD_SETPARAMETERVALUES''], 0) \<and>
        get_fields messagepack r [F_Int32 (- 70000), F_String ''Device.Info'', F_Bytes [1, 2, 0]] =
          Some [F_Int32 (- 70000), F_String ''Device.Info'', F_Bytes [1, 2, 0]])"
proof (rule message_roundtrip [OF messagepack.msgpack_api_axioms])
  show "length (enc_fields messagepack
      [F_Int32 (- 70000), F_String ''Device.Info'', F_Bytes [1, 2, 0]]) < 2 ^ 31 - 2 ^ 15"
    by (simp add: enc_fields_def mp_int_def mp_str_def mp_bin_def)
  show "length (enc_fields messagepack
      [F_Int32 (- 70000), F_String ''Device.Info'', F_Bytes [1, 2, 0]] @
      enc_fields messagepack [F_String ''METHOD_SETPARAMETERVALUES'']) + 5 < 2 ^ 32"
    by (simp add: enc_fields_def mp_int_def mp_str_def mp_bin_def)
qed (simp_all add: no_nul_def char_of_0)

text \<open>
  C30. A getter of the wrong type fails: it returns \<open>RT_FAIL\<close>, stores nothing and still consumes the item, with no
  other change to the message, so the next getter reads the item after it.
\<close>

theorem getter_type_mismatch:
  assumes "msgpack_api mp"
    and "sbuf m = pre @ enc_field mp f @ enc_field mp g @ post" and "read_offset m = length pre"
    and "field_ok f" and "field_ok g" and "kind_of g \<noteq> kind_of f"
  shows "get_field mp m g = (RT_FAIL, None, m\<lparr>read_offset := length pre + length (enc_field mp f)\<rparr>) \<and>
    get_field mp (m\<lparr>read_offset := length pre + length (enc_field mp f)\<rparr>) g =
      (RT_OK, Some g, m\<lparr>read_offset := length pre + length (enc_field mp f) + length (enc_field mp g)\<rparr>)"
proof
  show "get_field mp m g = (RT_FAIL, None, m\<lparr>read_offset := length pre + length (enc_field mp f)\<rparr>)"
    using assms by (intro msgpack_api.get_field_mismatch [OF assms(1)]) simp_all
  show "get_field mp (m\<lparr>read_offset := length pre + length (enc_field mp f)\<rparr>) g =
      (RT_OK, Some g, m\<lparr>read_offset := length pre + length (enc_field mp f) + length (enc_field mp g)\<rparr>)"
    using assms msgpack_api.get_field_reads [OF assms(1), of "m\<lparr>read_offset := length pre + length (enc_field mp f)\<rparr>"
        "pre @ enc_field mp f" g post] by simp
qed

theorem getter_type_mismatch_witness:
  "let m = rbusMessage_FromBytes messagepack
       (enc_field messagepack (F_Int32 5) @ enc_field messagepack (F_String ''ab''))
   in \<exists>m'. get_field messagepack m (F_String ''ab'') = (RT_FAIL, None, m') \<and>
      fst (get_field messagepack m' (F_String ''ab'')) = RT_OK"
proof -
  let ?m = "rbusMessage_FromBytes messagepack
       (enc_field messagepack (F_Int32 5) @ enc_field messagepack (F_String ''ab''))"
  have "sbuf ?m = [] @ enc_field messagepack (F_Int32 5) @ enc_field messagepack (F_String ''ab'') @ []"
    "read_offset ?m = length []" "field_ok (F_Int32 5)" "field_ok (F_String ''ab'')"
    "kind_of (F_String ''ab'') \<noteq> kind_of (F_Int32 5)"
    by (simp_all add: no_nul_def char_of_0 rbusMessage_FromBytes_def messagepack.sbuffer_write)
  from getter_type_mismatch [OF messagepack.msgpack_api_axioms this] show ?thesis
    unfolding Let_def by (intro exI conjI) (erule conjunct1, simp)
qed

text \<open>
  C31. Integers change width silently: an \<open>int64\<close> item read with \<open>rbusMessage_GetInt32\<close> is
  reduced modulo \<open>2 ^ 32\<close> and reported as \<open>RT_OK\<close>, so the value is the one written exactly
  when it fits; an \<open>int32\<close> item read with \<open>rbusMessage_GetInt64\<close> is always sign-extended to
  the value written.
\<close>

theorem integer_width:
  assumes "msgpack_api mp"
    and "sbuf m = pre @ enc_int64 mp w @ post" and "read_offset m = length pre"
    and "sbuf n = pre' @ enc_int32 mp v @ post'" and "read_offset n = length pre'"
  shows "(\<exists>m'. rbusMessage_GetInt32 mp m = (RT_OK, Some (ucast w), m')) \<and>
    (sint (ucast w :: int32) = sint w \<longleftrightarrow> - (2 ^ 31) \<le> sint w \<and> sint w < 2 ^ 31) \<and>
    (\<exists>n'. rbusMessage_GetInt64 mp n = (RT_OK, Some (scast v), n')) \<and>
    sint (scast v :: int64) = sint v"
proof (intro conjI)
  show "\<exists>m'. rbusMessage_GetInt32 mp m = (RT_OK, Some (ucast w), m')"
    using assms(2,3)
    by (simp add: msgpack_api.get_defs [OF assms(1)] msgpack_api.unpack_int64 [OF assms(1)])
  show "\<exists>n'. rbusMessage_GetInt64 mp n = (RT_OK, Some (scast v), n')"
    using assms(4,5)
    by (simp add: msgpack_api.get_defs [OF assms(1)] msgpack_api.unpack_int32 [OF assms(1)])
  show "sint (ucast w :: int32) = sint w \<longleftrightarrow> - (2 ^ 31) \<le> sint w \<and> sint w < 2 ^ 31"
    using sint_bounds_int32 [of "ucast w"] sint_truncated [of w]
    by (auto simp: signed_take_bit_int_eq_self)
  show "sint (scast v :: int64) = sint v" by (rule sint_extended)
qed

theorem integer_width_witness:
  "let m = rbusMessage_FromBytes messagepack (enc_int64 messagepack (2 ^ 32 + 7));
       n = rbusMessage_FromBytes messagepack (enc_int32 messagepack (- 7))
   in (\<exists>m'. rbusMessage_GetInt32 messagepack m = (RT_OK, Some 7, m')) \<and>
      (\<exists>n'. rbusMessage_GetInt64 messagepack n = (RT_OK, Some (- 7), n'))"
  using integer_width [OF messagepack.msgpack_api_axioms, where pre = "[]" and post = "[]"
      and pre' = "[]" and post' = "[]" and w = "2 ^ 32 + 7" and v = "- 7"
      and m = "rbusMessage_FromBytes messagepack (enc_int64 messagepack (2 ^ 32 + 7))"
      and n = "rbusMessage_FromBytes messagepack (enc_int32 messagepack (- 7))"]
  by (auto simp: rbusMessage_FromBytes_def messagepack.sbuffer_write)

end
