(* ===== verification/Rbus_State.thy ===== *)
theory Rbus_State
  imports Rbus_Message
begin

text \<open>
  The state of one process that links rbuscore: the global variables of
  \<open>rbus-core/lib/rbus_core.c\<close>, the heap objects they point to, and the runtime the process
  runs on.

  \<^item> \<open>rbus_error_t\<close> is the enum of \<open>rbus_types.h\<close>.  C stores any \<open>int\<close> in it (the result
    of an RPC is cast to it), so values outside the enum are kept.
  \<^item> The server's objects and the messages live in a heap, a partial map from pointers;
    \<open>None\<close> is free memory and using it is undefined behaviour.  Methods, events and
    subscriptions are reached through one owner only and are stored in it by value.
  \<^item> A function of rbuscore is a function of the state.  A result type \<open>_ option\<close> is used
    where the C code can run into undefined behaviour (a freed object, a buffer overrun), which
    is the value \<open>None\<close>.
  \<^item> The runtime \<open>E\<close> holds everything outside the repository: the vectors, msgpack and
    reference counts of \<open>Rt_Interface\<close>, the connection to the router and the application's
    callbacks.  The latter two are oracles: every call is appended to the trace \<open>io\<close>, and
    its result is an arbitrary function of the trace so far.  \<open>app_response\<close> is the contents
    of the response an RPC callback creates (\<open>None\<close>: it creates none), \<open>rt_nested\<close> the
    requests the connection delivers while the callback runs; callbacks enter rbuscore in no
    other way.  The files the sources look at are the contents of \<open>/etc/rbus_client.conf\<close>
    and the existence of \<open>/nvram/rbus_disable\<close>.
  \<^item> The mutex is of type \<open>PTHREAD_MUTEX_ERRORCHECK\<close>; the state says whether the calling
    thread holds it.  Locking it again or unlocking it when it is not held fails and changes
    nothing, and the sources ignore the result of both.
\<close>

section \<open>Error codes and constants\<close>

datatype rbus_error_t =
    RTMESSAGE_BUS_SUCCESS
  | RTMESSAGE_BUS_ERROR_GENERAL
  | RTMESSAGE_BUS_ERROR_INVALID_PARAM
  | RTMESSAGE_BUS_ERROR_INSUFFICIENT_MEMORY
  | RTMESSAGE_BUS_ERROR_INVALID_STATE
  | RTMESSAGE_BUS_ERROR_REMOTE_END_DECLINED_TO_RESPOND
  | RTMESSAGE_BUS_ERROR_REMOTE_END_FAILED_TO_RESPOND
  | RTMESSAGE_BUS_ERROR_REMOTE_TIMED_OUT
  | RTMESSAGE_BUS_ERROR_MALFORMED_RESPONSE
  | RTMESSAGE_BUS_ERROR_UNSUPPORTED_METHOD
  | RTMESSAGE_BUS_ERROR_UNSUPPORTED_EVENT
  | RTMESSAGE_BUS_ERROR_OUT_OF_RESOURCES
  | RTMESSAGE_BUS_ERROR_DESTINATION_UNREACHABLE
  | RTMESSAGE_BUS_SUCCESS_ASYNC
  | RTMESSAGE_BUS_SUBSCRIBE_NOT_HANDLED
  | RTMESSAGE_BUS_EVENT_NOT_HANDLED
  | RTMESSAGE_BUS_ERROR_DUPLICATE_ENTRY
  | RTMESSAGE_BUS_OTHER int

definition rbus_error_enum :: "rbus_error_t list" where
  "rbus_error_enum =
     [RTMESSAGE_BUS_SUCCESS, RTMESSAGE_BUS_ERROR_GENERAL, RTMESSAGE_BUS_ERROR_INVALID_PARAM,
      RTMESSAGE_BUS_ERROR_INSUFFICIENT_MEMORY, RTMESSAGE_BUS_ERROR_INVALID_STATE,
      RTMESSAGE_BUS_ERROR_REMOTE_END_DECLINED_TO_RESPOND,
      RTMESSAGE_BUS_ERROR_REMOTE_END_FAILED_TO_RESPOND, RTMESSAGE_BUS_ERROR_REMOTE_TIMED_OUT,
      RTMESSAGE_BUS_ERROR_MALFORMED_RESPONSE, RTMESSAGE_BUS_ERROR_UNSUPPORTED_METHOD,
      RTMESSAGE_BUS_ERROR_UNSUPPORTED_EVENT, RTMESSAGE_BUS_ERROR_OUT_OF_RESOURCES,
      RTMESSAGE_BUS_ERROR_DESTINATION_UNREACHABLE, RTMESSAGE_BUS_SUCCESS_ASYNC,
      RTMESSAGE_BUS_SUBSCRIBE_NOT_HANDLED, RTMESSAGE_BUS_EVENT_NOT_HANDLED,
      RTMESSAGE_BUS_ERROR_DUPLICATE_ENTRY]"

fun rbus_error_code :: "rbus_error_t \<Rightarrow> int" where
  "rbus_error_code RTMESSAGE_BUS_SUCCESS = 0"
| "rbus_error_code RTMESSAGE_BUS_ERROR_GENERAL = 1"
| "rbus_error_code RTMESSAGE_BUS_ERROR_INVALID_PARAM = 2"
| "rbus_error_code RTMESSAGE_BUS_ERROR_INSUFFICIENT_MEMORY = 3"
| "rbus_error_code RTMESSAGE_BUS_ERROR_INVALID_STATE = 4"
| "rbus_error_code RTMESSAGE_BUS_ERROR_REMOTE_END_DECLINED_TO_RESPOND = 5"
| "rbus_error_code RTMESSAGE_BUS_ERROR_REMOTE_END_FAILED_TO_RESPOND = 6"
| "rbus_error_code RTMESSAGE_BUS_ERROR_REMOTE_TIMED_OUT = 7"
| "rbus_error_code RTMESSAGE_BUS_ERROR_MALFORMED_RESPONSE = 8"
| "rbus_error_code RTMESSAGE_BUS_ERROR_UNSUPPORTED_METHOD = 9"
| "rbus_error_code RTMESSAGE_BUS_ERROR_UNSUPPORTED_EVENT = 10"
| "rbus_error_code RTMESSAGE_BUS_ERROR_OUT_OF_RESOURCES = 11"
| "rbus_error_code RTMESSAGE_BUS_ERROR_DESTINATION_UNREACHABLE = 12"
| "rbus_error_code RTMESSAGE_BUS_SUCCESS_ASYNC = 13"
| "rbus_error_code RTMESSAGE_BUS_SUBSCRIBE_NOT_HANDLED = 14"
| "rbus_error_code RTMESSAGE_BUS_EVENT_NOT_HANDLED = 15"
| "rbus_error_code RTMESSAGE_BUS_ERROR_DUPLICATE_ENTRY = 16"
| "rbus_error_code (RTMESSAGE_BUS_OTHER n) = n"

text \<open>The cast \<open>(rbus_error_t)n\<close>.\<close>

definition rbus_error_of_int :: "int \<Rightarrow> rbus_error_t" where
  "rbus_error_of_int n =
     (if 0 \<le> n \<and> n < int (length rbus_error_enum) then rbus_error_enum ! nat n
      else RTMESSAGE_BUS_OTHER n)"

text \<open>A code as the \<open>int32_t\<close> that \<open>rbusMessage_SetInt32\<close> writes, and the way back.\<close>

definition error_int32 :: "rbus_error_t \<Rightarrow> int32" where
  "error_int32 e = of_int (rbus_error_code e)"

definition int32_error :: "int32 \<Rightarrow> rbus_error_t" where
  "int32_error w = rbus_error_of_int (sint w)"

definition MAX_METHOD_NAME_LENGTH :: nat where "MAX_METHOD_NAME_LENGTH = 64"
definition MAX_SUPPORTED_METHODS :: nat where "MAX_SUPPORTED_METHODS = 32"
definition TIMEOUT_VALUE_FIRE_AND_FORGET :: int where "TIMEOUT_VALUE_FIRE_AND_FORGET = 1000"
definition DEFAULT_EVENT :: string where "DEFAULT_EVENT = ''''"
definition METHOD_ADD_EVENT_SUBSCRIPTION :: string where
  "METHOD_ADD_EVENT_SUBSCRIPTION = ''_subscribe''"
definition METHOD_REMOVE_EVENT_SUBSCRIPTION :: string where
  "METHOD_REMOVE_EVENT_SUBSCRIPTION = ''_unsubscribe''"
definition METHOD_SETPARAMETERVALUES :: string where
  "METHOD_SETPARAMETERVALUES = ''METHOD_SETPARAMETERVALUES''"
definition METHOD_GETPARAMETERVALUES :: string where
  "METHOD_GETPARAMETERVALUES = ''METHOD_GETPARAMETERVALUES''"
definition METHOD_RESPONSE :: string where "METHOD_RESPONSE = ''METHOD_RESPONSE''"

section \<open>Structures\<close>

text \<open>
  A function pointer of the application is a number; \<open>subscription_handler\<close> is the one
  callback rbuscore installs itself.  User data is \<open>NULL\<close>, an application pointer, or the
  object that \<open>install_subscription_handlers\<close> passes.
\<close>

type_synonym fnptr = nat

datatype rbus_callback_t = App_Callback fnptr | Subscription_Handler

datatype user_data = UD_NULL | UD_App nat | UD_Object ptr

record server_method =
  sm_name :: string
  sm_callback :: rbus_callback_t
  sm_data :: user_data

record server_event =
  se_name :: string
  se_object :: ptr
  listeners :: "string rtVector"
  sub_callback :: "fnptr option"
  sub_data :: user_data

record server_object =
  so_name :: string
  so_data :: user_data
  so_callback :: rbus_callback_t
  process_event_subscriptions :: bool
  methods :: "server_method rtVector"
  subscriptions :: "server_event rtVector"
  subscribe_handler_override :: "fnptr option"
  subscribe_handler_data :: user_data

record client_event =
  ce_name :: string
  ce_callback :: fnptr
  ce_data :: user_data

record client_subscription =
  cs_object :: string
  events :: "client_event rtVector"

text \<open>The fields of the rtMessage header the sources read.\<close>

record rtMessageHeader =
  topic :: string
  reply_topic :: string
  flags :: nat

record queued_request =
  qr_hdr :: rtMessageHeader
  qr_msg :: ptr
  qr_obj :: ptr

section \<open>The trace\<close>

datatype rt_callback = On_Message ptr | Advisory_Callback | Master_Event_Callback

datatype io_call =
    Rt_Create string string
  | Rt_Destroy nat
  | Rt_AddListener string rt_callback
  | Rt_AddDefaultListener rt_callback
  | Rt_RemoveListener string
  | Rt_AddAlias string string
  | Rt_RemoveAlias string string
  | Rt_SendBinaryRequest "byte list" string int
  | Rt_SendBinaryDirect "byte list" string string
  | Rt_SendBinaryResponse rtMessageHeader "byte list" int
  | Rt_SendRequest "byte list" string int
  | App_Rpc fnptr string "string option" rbusMessage user_data rtMessageHeader
  | App_Subscribe fnptr string string string bool "rbusMessage option" user_data
  | App_Event fnptr string "string option" rbusMessage user_data
  | App_Disconnect fnptr string

section \<open>The runtime\<close>

record runtime =
  mp :: msgpack
  rc :: rt_retain
  objs_v :: "ptr rtVector_ops"
  meths_v :: "server_method rtVector_ops"
  evts_v :: "server_event rtVector_ops"
  lsnrs_v :: "string rtVector_ops"
  csubs_v :: "client_subscription rtVector_ops"
  cevts_v :: "client_event rtVector_ops"
  reqs_v :: "queued_request rtVector_ops"
  rtVector_Compare_String :: "string \<Rightarrow> string \<Rightarrow> int"
  RTMSG_HEADER_MAX_TOPIC_LENGTH :: nat
  rtMessageHeader_IsRequest :: "rtMessageHeader \<Rightarrow> bool"
  rtConnection_GetReturnAddress :: "nat option \<Rightarrow> string option"
  rt_result :: "io_call list \<Rightarrow> io_call \<Rightarrow> rtError"
  rt_reply :: "io_call list \<Rightarrow> io_call \<Rightarrow> byte list"
  rt_handle :: "io_call list \<Rightarrow> io_call \<Rightarrow> nat"
  app_result :: "io_call list \<Rightarrow> io_call \<Rightarrow> int"
  app_response :: "io_call list \<Rightarrow> io_call \<Rightarrow> byte list option"
  rbus_client_conf :: "string option"
  nvram_rbus_disable :: bool
  rbuscore_checkBusStatus_address :: nat
  rt_nested :: "io_call list \<Rightarrow> io_call \<Rightarrow> (rtMessageHeader \<times> byte list \<times> ptr) list"

abbreviation MAX_OBJECT_NAME_LENGTH :: "runtime \<Rightarrow> nat" where
  "MAX_OBJECT_NAME_LENGTH E \<equiv> RTMSG_HEADER_MAX_TOPIC_LENGTH E"

abbreviation MAX_EVENT_NAME_LENGTH :: "runtime \<Rightarrow> nat" where
  "MAX_EVENT_NAME_LENGTH E \<equiv> RTMSG_HEADER_MAX_TOPIC_LENGTH E"

abbreviation MAX_SUBSCRIBER_NAME_LENGTH :: "runtime \<Rightarrow> nat" where
  "MAX_SUBSCRIBER_NAME_LENGTH E \<equiv> RTMSG_HEADER_MAX_TOPIC_LENGTH E"

section \<open>The process\<close>

text \<open>
  A global vector variable: what it points to, or \<open>Freed\<close> after \<open>rtVector_Destroy\<close>, which
  leaves the old pointer in the variable.
\<close>

datatype 'a vslot = Live "'a rtVector" | Freed

record rbus_state =
  msgs :: "ptr \<rightharpoonup> rbusMessage"
  objs :: "ptr \<rightharpoonup> server_object"
  next_ptr :: ptr
  io :: "io_call list"
  g_daemon_address :: string
  g_connection :: "nat option"
  g_server_objects :: "ptr vslot"
  g_mutex :: bool
  g_mutex_init :: bool
  g_run_event_client_dispatch :: bool
  g_event_subscriptions_for_client :: "client_subscription vslot"
  g_queued_requests :: "queued_request vslot"
  g_advisory_listener_installed :: bool
  g_client_disconnect_callback :: "fnptr option"
  g_master_event_callback :: "fnptr option"
  g_master_event_user_data :: user_data
  stack_counter :: int

definition initial_state :: rbus_state where
  "initial_state =
     \<lparr>msgs = Map.empty, objs = Map.empty, next_ptr = 1, io = [],
      g_daemon_address = ''unix:///tmp/rtrouted'', g_connection = None,
      g_server_objects = Live None, g_mutex = False, g_mutex_init = False,
      g_run_event_client_dispatch = False, g_event_subscriptions_for_client = Live None,
      g_queued_requests = Live None, g_advisory_listener_installed = False,
      g_client_disconnect_callback = None, g_master_event_callback = None,
      g_master_event_user_data = UD_NULL, stack_counter = 0\<rparr>"

primrec vderef :: "'a vslot \<Rightarrow> 'a rtVector option" where
  "vderef (Live v) = Some v"
| "vderef Freed = None"

definition lock :: "rbus_state \<Rightarrow> rbus_state" where
  "lock s = s\<lparr>g_mutex := True\<rparr>"

definition unlock :: "rbus_state \<Rightarrow> rbus_state" where
  "unlock s = s\<lparr>g_mutex := False\<rparr>"

section \<open>Calls to the router and to the application\<close>

definition rt_do :: "runtime \<Rightarrow> io_call \<Rightarrow> rbus_state \<Rightarrow> rtError \<times> rbus_state" where
  "rt_do E c s = (rt_result E (io s) c, s\<lparr>io := io s @ [c]\<rparr>)"

definition app_do :: "runtime \<Rightarrow> io_call \<Rightarrow> rbus_state \<Rightarrow> int \<times> rbus_state" where
  "app_do E c s = (app_result E (io s) c, s\<lparr>io := io s @ [c]\<rparr>)"

section \<open>Messages on the heap\<close>

definition msg_alloc :: "rbusMessage \<Rightarrow> rbus_state \<Rightarrow> ptr \<times> rbus_state" where
  "msg_alloc m s =
     (next_ptr s, s\<lparr>msgs := (msgs s)(next_ptr s \<mapsto> m), next_ptr := Suc (next_ptr s)\<rparr>)"

definition msg_put :: "ptr \<Rightarrow> rbusMessage \<Rightarrow> rbus_state \<Rightarrow> rbus_state" where
  "msg_put p m s = s\<lparr>msgs := (msgs s)(p \<mapsto> m)\<rparr>"

text \<open>Running a writer of \<open>Rbus_Message\<close> on the message a pointer refers to.\<close>

definition msg_write ::
    "(rbusMessage \<Rightarrow> (rtError \<times> rbusMessage) option) \<Rightarrow> ptr \<Rightarrow> rbus_state \<Rightarrow>
     (rtError \<times> rbus_state) option" where
  "msg_write f p s = do {
     m \<leftarrow> msgs s p;
     (e, m') \<leftarrow> f m;
     Some (e, msg_put p m' s)
   }"

text \<open>Running a reader.\<close>

definition msg_read ::
    "(rbusMessage \<Rightarrow> rtError \<times> 'a option \<times> rbusMessage) \<Rightarrow> ptr \<Rightarrow> rbus_state \<Rightarrow>
     (rtError \<times> 'a option \<times> rbus_state) option" where
  "msg_read f p s = do {
     m \<leftarrow> msgs s p;
     case f m of (e, v, m') \<Rightarrow> Some (e, v, msg_put p m' s)
   }"

definition rbusMessage_Destroy :: "ptr \<Rightarrow> rbus_state \<Rightarrow> rbus_state" where
  "rbusMessage_Destroy p s = s\<lparr>msgs := (msgs s)(p := None)\<rparr>"

definition rbusMessage_Retain :: "runtime \<Rightarrow> ptr \<Rightarrow> rbus_state \<Rightarrow> rbus_state option" where
  "rbusMessage_Retain E p s = do {
     m \<leftarrow> msgs s p;
     Some (msg_put p (m\<lparr>refCount := rtRetainable_retain (rc E) (refCount m)\<rparr>) s)
   }"

definition rbusMessage_Release :: "runtime \<Rightarrow> ptr \<Rightarrow> rbus_state \<Rightarrow> rbus_state option" where
  "rbusMessage_Release E p s = do {
     m \<leftarrow> msgs s p;
     case rtRetainable_release (rc E) (refCount m) of (n, destroyed) \<Rightarrow>
       Some (if destroyed then rbusMessage_Destroy p s
             else msg_put p (m\<lparr>refCount := n\<rparr>) s)
   }"

text \<open>
  A string read from a message: the pointer \<open>rbusMessage_GetString\<close> stores is read as a C
  string at once; a string that is not terminated inside the buffer is undefined behaviour.
\<close>

definition msg_read_string ::
    "runtime \<Rightarrow> ptr \<Rightarrow> rbus_state \<Rightarrow> (rtError \<times> string option \<times> rbus_state) option" where
  "msg_read_string E p s = do {
     (e, v, s') \<leftarrow> msg_read (rbusMessage_GetString (mp E)) p s;
     m \<leftarrow> msgs s' p;
     case v of
       None \<Rightarrow> Some (e, None, s')
     | Some q \<Rightarrow> do { str \<leftarrow> message_cstr m q; Some (e, Some str, s') }
   }"

section \<open>The contract of the runtime\<close>

text \<open>
  What the sources rely on: the laws of the libraries for each of the seven kinds of vector.
  Nothing is assumed of the router or of the application.
\<close>

locale rbus_runtime =
  objs: rtvector "objs_v E" + meths: rtvector "meths_v E" + evts: rtvector "evts_v E" +
  lsnrs: rtvector "lsnrs_v E" + csubs: rtvector "csubs_v E" + cevts: rtvector "cevts_v E" +
  reqs: rtvector "reqs_v E" + msgpack_api "mp E" + retainable "rc E"
  for E :: runtime +
  assumes compare_string: "rtVector_Compare_String E a b = 0 \<longleftrightarrow> a = b"

section \<open>Facts\<close>

lemma rbus_error_roundtrip:
  "(\<forall>n. e = RTMESSAGE_BUS_OTHER n \<longrightarrow> \<not> (0 \<le> n \<and> n < 17)) \<Longrightarrow>
   rbus_error_of_int (rbus_error_code e) = e"
  by (cases e) (auto simp: rbus_error_of_int_def rbus_error_enum_def)

lemma rbus_error_enum_codes: "map rbus_error_code rbus_error_enum = map int [0..<17]"
  by code_simp

lemma rbus_error_code_of_int [simp]: "rbus_error_code (rbus_error_of_int n) = n"
proof (cases "0 \<le> n \<and> n < 17")
  case True
  then have k: "nat n < 17" "int (nat n) = n" by auto
  then have "rbus_error_code (rbus_error_enum ! nat n) = map int [0..<17] ! nat n"
    using rbus_error_enum_codes nth_map [of "nat n" rbus_error_enum rbus_error_code]
    by (simp add: rbus_error_enum_def)
  with True k show ?thesis by (simp add: rbus_error_of_int_def rbus_error_enum_def)
next
  case False
  then show ?thesis by (auto simp: rbus_error_of_int_def rbus_error_enum_def)
qed

text \<open>A code of the enum survives the wire.\<close>

lemma int32_error_roundtrip:
  assumes "e \<in> set rbus_error_enum"
  shows "int32_error (error_int32 e) = e"
  using assms
  by (auto simp: rbus_error_enum_def int32_error_def error_int32_def rbus_error_of_int_def)

lemma lock_simps [simp]:
  "g_mutex (lock s)" "\<not> g_mutex (unlock s)"
  "unlock (lock s) = unlock s" "lock (lock s) = lock s" "unlock (unlock s) = unlock s"
  by (simp_all add: lock_def unlock_def)

text \<open>What the primitive steps leave alone.\<close>

lemma lock_frame [simp]:
  "msgs (lock s) = msgs s" "objs (lock s) = objs s" "next_ptr (lock s) = next_ptr s"
  "io (lock s) = io s" "g_daemon_address (lock s) = g_daemon_address s"
  "g_connection (lock s) = g_connection s" "g_server_objects (lock s) = g_server_objects s"
  "g_mutex_init (lock s) = g_mutex_init s"
  "g_run_event_client_dispatch (lock s) = g_run_event_client_dispatch s"
  "g_event_subscriptions_for_client (lock s) = g_event_subscriptions_for_client s"
  "g_queued_requests (lock s) = g_queued_requests s"
  "g_advisory_listener_installed (lock s) = g_advisory_listener_installed s"
  "g_client_disconnect_callback (lock s) = g_client_disconnect_callback s"
  "g_master_event_callback (lock s) = g_master_event_callback s"
  "g_master_event_user_data (lock s) = g_master_event_user_data s"
  "stack_counter (lock s) = stack_counter s"
  by (simp_all add: lock_def)

lemma unlock_frame [simp]:
  "msgs (unlock s) = msgs s" "objs (unlock s) = objs s" "next_ptr (unlock s) = next_ptr s"
  "io (unlock s) = io s" "g_daemon_address (unlock s) = g_daemon_address s"
  "g_connection (unlock s) = g_connection s" "g_server_objects (unlock s) = g_server_objects s"
  "g_mutex_init (unlock s) = g_mutex_init s"
  "g_run_event_client_dispatch (unlock s) = g_run_event_client_dispatch s"
  "g_event_subscriptions_for_client (unlock s) = g_event_subscriptions_for_client s"
  "g_queued_requests (unlock s) = g_queued_requests s"
  "g_advisory_listener_installed (unlock s) = g_advisory_listener_installed s"
  "g_client_disconnect_callback (unlock s) = g_client_disconnect_callback s"
  "g_master_event_callback (unlock s) = g_master_event_callback s"
  "g_master_event_user_data (unlock s) = g_master_event_user_data s"
  "stack_counter (unlock s) = stack_counter s"
  by (simp_all add: unlock_def)

lemma msg_put_frame [simp]:
  "objs (msg_put p m s) = objs s" "next_ptr (msg_put p m s) = next_ptr s"
  "io (msg_put p m s) = io s" "g_daemon_address (msg_put p m s) = g_daemon_address s"
  "g_connection (msg_put p m s) = g_connection s"
  "g_server_objects (msg_put p m s) = g_server_objects s"
  "g_mutex_init (msg_put p m s) = g_mutex_init s"
  "g_run_event_client_dispatch (msg_put p m s) = g_run_event_client_dispatch s"
  "g_event_subscriptions_for_client (msg_put p m s) = g_event_subscriptions_for_client s"
  "g_queued_requests (msg_put p m s) = g_queued_requests s"
  "g_advisory_listener_installed (msg_put p m s) = g_advisory_listener_installed s"
  "g_client_disconnect_callback (msg_put p m s) = g_client_disconnect_callback s"
  "g_master_event_callback (msg_put p m s) = g_master_event_callback s"
  "g_master_event_user_data (msg_put p m s) = g_master_event_user_data s"
  "stack_counter (msg_put p m s) = stack_counter s" "g_mutex (msg_put p m s) = g_mutex s"
  by (simp_all add: msg_put_def)

lemma Destroy_frame [simp]:
  "objs (rbusMessage_Destroy p s) = objs s" "next_ptr (rbusMessage_Destroy p s) = next_ptr s"
  "io (rbusMessage_Destroy p s) = io s"
  "g_daemon_address (rbusMessage_Destroy p s) = g_daemon_address s"
  "g_connection (rbusMessage_Destroy p s) = g_connection s"
  "g_server_objects (rbusMessage_Destroy p s) = g_server_objects s"
  "g_mutex_init (rbusMessage_Destroy p s) = g_mutex_init s"
  "g_run_event_client_dispatch (rbusMessage_Destroy p s) = g_run_event_client_dispatch s"
  "g_event_subscriptions_for_client (rbusMessage_Destroy p s) = g_event_subscriptions_for_client s"
  "g_queued_requests (rbusMessage_Destroy p s) = g_queued_requests s"
  "g_advisory_listener_installed (rbusMessage_Destroy p s) = g_advisory_listener_installed s"
  "g_client_disconnect_callback (rbusMessage_Destroy p s) = g_client_disconnect_callback s"
  "g_master_event_callback (rbusMessage_Destroy p s) = g_master_event_callback s"
  "g_master_event_user_data (rbusMessage_Destroy p s) = g_master_event_user_data s"
  "stack_counter (rbusMessage_Destroy p s) = stack_counter s"
  "g_mutex (rbusMessage_Destroy p s) = g_mutex s"
  by (simp_all add: rbusMessage_Destroy_def)

lemma msgs_changed [simp]:
  "msgs (msg_put p m s) = (msgs s)(p \<mapsto> m)"
  "msgs (rbusMessage_Destroy p s) = (msgs s)(p := None)"
  by (simp_all add: msg_put_def rbusMessage_Destroy_def)

end
