(* ===== verification/Reference_Runtime.thy ===== *)
theory Reference_Runtime
  imports Rbus_State
begin

text \<open>
  A runtime that keeps the contract: the instances of \<open>Reference_Libraries\<close> for vectors,
  msgpack and reference counts, equality for \<open>rtVector_Compare_String\<close>, and a router and an
  application given by a \<open>world\<close>.  It models no code of the repository; concrete runs of the
  development are evaluated on it.
\<close>

record world =
  w_result :: "io_call list \<Rightarrow> io_call \<Rightarrow> rtError"
  w_reply :: "io_call list \<Rightarrow> io_call \<Rightarrow> byte list"
  w_app :: "io_call list \<Rightarrow> io_call \<Rightarrow> int"
  w_response :: "io_call list \<Rightarrow> io_call \<Rightarrow> byte list option"
  w_nested :: "io_call list \<Rightarrow> io_call \<Rightarrow> (rtMessageHeader \<times> byte list \<times> ptr) list"
  w_conf :: "string option"
  w_disabled :: bool

text \<open>A router that accepts everything and an application that returns 0.\<close>

definition calm_world :: world where
  "calm_world =
     \<lparr>w_result = (\<lambda>_ _. RT_OK), w_reply = (\<lambda>_ _. []), w_app = (\<lambda>_ _. 0), w_response = (\<lambda>_ _. None),
      w_nested = (\<lambda>_ _. []), w_conf = None, w_disabled = False\<rparr>"

definition std_runtime :: "world \<Rightarrow> runtime" where
  "std_runtime w =
     \<lparr>mp = messagepack, rc = plain_retain, objs_v = list_vector, meths_v = list_vector,
      evts_v = list_vector, lsnrs_v = list_vector, csubs_v = list_vector, cevts_v = list_vector,
      reqs_v = list_vector, rtVector_Compare_String = (\<lambda>a b. if a = b then 0 else 1),
      RTMSG_HEADER_MAX_TOPIC_LENGTH = 128, rtMessageHeader_IsRequest = (\<lambda>hdr. flags hdr = 1),
      rtConnection_GetReturnAddress = (\<lambda>c. map_option (\<lambda>_. ''inbox'') c),
      rt_result = w_result w, rt_reply = w_reply w, rt_handle = (\<lambda>_ _. 1),
      app_result = w_app w, app_response = w_response w, rbus_client_conf = w_conf w,
      nvram_rbus_disable = w_disabled w, rbuscore_checkBusStatus_address = 4096,
      rt_nested = w_nested w\<rparr>"

lemma std_libraries [simp]:
  "mp (std_runtime w) = messagepack" "rc (std_runtime w) = plain_retain"
  "objs_v (std_runtime w) = list_vector" "meths_v (std_runtime w) = list_vector"
  "evts_v (std_runtime w) = list_vector" "lsnrs_v (std_runtime w) = list_vector"
  "csubs_v (std_runtime w) = list_vector" "cevts_v (std_runtime w) = list_vector"
  "reqs_v (std_runtime w) = list_vector" "RTMSG_HEADER_MAX_TOPIC_LENGTH (std_runtime w) = 128"
  by (simp_all add: std_runtime_def)

interpretation std: rbus_runtime "std_runtime w" for w
  by (intro rbus_runtime.intro rbus_runtime_axioms.intro)
    (simp_all add: list_vector.rtvector_axioms messagepack.msgpack_api_axioms
      plain_retain.retainable_axioms, simp add: std_runtime_def)

lemmas std_rbus_runtime = std.rbus_runtime_axioms

end
