(* ===== verification/Rbus_Server.thy ===== *)
theory Rbus_Server
  imports Reference_Runtime
begin

text \<open>
  The object registry of \<open>rbus-core/lib/rbus_core.c\<close>: objects, their methods and their
  element aliases.  \<open>registry_wf\<close> is the invariant of the tables; every operation keeps it,
  and under it the registry is a map from object names to objects whose methods are maps from
  method names, which the operations update the way \<open>rbus_core.h\<close> promises.

  A parameter the C function checks against \<open>NULL\<close> is an option; one it dereferences without
  a check is a plain value.
\<close>

section \<open>Structures\<close>

text \<open>\<open>strcpy\<close> into \<open>name[MAX_METHOD_NAME_LENGTH+1]\<close>: a longer name overruns the field.\<close>

definition server_method_create ::
    "string \<Rightarrow> rbus_callback_t \<Rightarrow> user_data \<Rightarrow> server_method option" where
  "server_method_create name callback data =
     (if MAX_METHOD_NAME_LENGTH < length name then None
      else Some \<lparr>sm_name = name, sm_callback = callback, sm_data = data\<rparr>)"

definition server_method_compare :: "server_method \<Rightarrow> string \<Rightarrow> int" where
  "server_method_compare left right = strncmp MAX_METHOD_NAME_LENGTH (sm_name left) right"

definition server_object_compare :: "runtime \<Rightarrow> (ptr \<rightharpoonup> server_object) \<Rightarrow> ptr \<Rightarrow> string \<Rightarrow> int" where
  "server_object_compare E heap left right =
     (case heap left of None \<Rightarrow> 1 | Some ob \<Rightarrow> strncmp (MAX_OBJECT_NAME_LENGTH E) (so_name ob) right)"

definition server_object_create ::
    "runtime \<Rightarrow> string \<Rightarrow> rbus_callback_t \<Rightarrow> user_data \<Rightarrow> rbus_state \<Rightarrow> (ptr \<times> rbus_state) option" where
  "server_object_create E name callback data s =
     (if MAX_OBJECT_NAME_LENGTH E < length name then None
      else Some (next_ptr s,
        s\<lparr>objs := (objs s)(next_ptr s \<mapsto>
            \<lparr>so_name = name, so_data = data, so_callback = callback,
             process_event_subscriptions = False,
             methods = rtVector_Create (meths_v E), subscriptions = rtVector_Create (evts_v E),
             subscribe_handler_override = None, subscribe_handler_data = UD_NULL\<rparr>),
          next_ptr := Suc (next_ptr s)\<rparr>))"

definition server_object_destroy :: "ptr \<Rightarrow> rbus_state \<Rightarrow> rbus_state" where
  "server_object_destroy p s = s\<lparr>objs := (objs s)(p := None)\<rparr>"

definition get_object :: "runtime \<Rightarrow> string \<Rightarrow> rbus_state \<Rightarrow> ptr option option" where
  "get_object E object_name s = do {
     v \<leftarrow> vderef (g_server_objects s);
     Some (rtVector_Find (objs_v E) v object_name (server_object_compare E (objs s)))
   }"

definition obj_put :: "ptr \<Rightarrow> server_object \<Rightarrow> rbus_state \<Rightarrow> rbus_state" where
  "obj_put p ob s = s\<lparr>objs := (objs s)(p \<mapsto> ob)\<rparr>"

definition translate_rt_error :: "rtError \<Rightarrow> rbus_error_t" where
  "translate_rt_error err =
     (if err = RT_OK then RTMESSAGE_BUS_SUCCESS else RTMESSAGE_BUS_ERROR_GENERAL)"

section \<open>Objects\<close>

text \<open>
  \<open>int len = strlen(name)\<close> and the test \<open>(MAX_OBJECT_NAME_LENGTH <= len) || (0 == len)\<close>.  The
  length is an \<open>int\<close>: of a name of \<open>2 ^ 31\<close> bytes it is negative, and the test lets the name pass.
\<close>

definition bad_name :: "runtime \<Rightarrow> string \<Rightarrow> bool" where
  "bad_name E name \<longleftrightarrow>
     (let len = strlen_int name in int (MAX_OBJECT_NAME_LENGTH E) \<le> len \<or> 0 = len)"

definition rbus_registerObj ::
    "runtime \<Rightarrow> string option \<Rightarrow> rbus_callback_t \<Rightarrow> user_data \<Rightarrow> rbus_state \<Rightarrow>
     (rbus_error_t \<times> rbus_state) option" where
  "rbus_registerObj E object_name handler data s =
     (if g_connection s = None then Some (RTMESSAGE_BUS_ERROR_INVALID_STATE, s)
      else case object_name of
        None \<Rightarrow> Some (RTMESSAGE_BUS_ERROR_INVALID_PARAM, s)
      | Some name \<Rightarrow>
          if bad_name E name
          then Some (RTMESSAGE_BUS_ERROR_INVALID_PARAM, s)
          else do {
            let s1 = lock s;
            found \<leftarrow> get_object E name s1;
            let s2 = unlock s1;
            if found \<noteq> None then Some (RTMESSAGE_BUS_ERROR_INVALID_PARAM, s2)
            else do {
              (p, s3) \<leftarrow> server_object_create E name handler data s2;
              let (err, s4) = rt_do E (Rt_AddListener name (On_Message p)) s3;
              if err = RT_OK then do {
                let s5 = lock s4;
                v \<leftarrow> vderef (g_server_objects s5);
                let s6 = s5\<lparr>g_server_objects := Live (rtVector_PushBack (objs_v E) v p)\<rparr>;
                Some (RTMESSAGE_BUS_SUCCESS, unlock s6)
              }
              else Some (RTMESSAGE_BUS_ERROR_GENERAL, server_object_destroy p s4)
            }
          })"

definition rbus_unregisterObj ::
    "runtime \<Rightarrow> string option \<Rightarrow> rbus_state \<Rightarrow> (rbus_error_t \<times> rbus_state) option" where
  "rbus_unregisterObj E object_name s =
     (case object_name of
        None \<Rightarrow> Some (RTMESSAGE_BUS_ERROR_INVALID_PARAM, s)
      | Some name \<Rightarrow>
          if name = [] \<or> MAX_OBJECT_NAME_LENGTH E \<le> length name
          then Some (RTMESSAGE_BUS_ERROR_INVALID_PARAM, s)
          else do {
            let (err, s1) = rt_do E (Rt_RemoveListener name) s;
            if err \<noteq> RT_OK then Some (RTMESSAGE_BUS_ERROR_GENERAL, s1)
            else do {
              let s2 = lock s1;
              found \<leftarrow> get_object E name s2;
              case found of
                None \<Rightarrow> Some (RTMESSAGE_BUS_ERROR_GENERAL, unlock s2)
              | Some p \<Rightarrow> do {
                  v \<leftarrow> vderef (g_server_objects s2);
                  let s3 = s2\<lparr>g_server_objects := Live (rtVector_RemoveItem (objs_v E) v p)\<rparr>;
                  Some (RTMESSAGE_BUS_SUCCESS, unlock (server_object_destroy p s3))
                }
            }
          })"

section \<open>Methods\<close>

definition rbus_registerMethod ::
    "runtime \<Rightarrow> string \<Rightarrow> string \<Rightarrow> rbus_callback_t \<Rightarrow> user_data \<Rightarrow> rbus_state \<Rightarrow>
     (rbus_error_t \<times> rbus_state) option" where
  "rbus_registerMethod E object_name method_name handler data s =
     (if MAX_METHOD_NAME_LENGTH \<le> length method_name
      then Some (RTMESSAGE_BUS_ERROR_INVALID_PARAM, s)
      else do {
        let s1 = lock s;
        found \<leftarrow> get_object E object_name s1;
        case found of
          None \<Rightarrow> Some (RTMESSAGE_BUS_ERROR_INVALID_PARAM, unlock s1)
        | Some p \<Rightarrow> do {
            ob \<leftarrow> objs s1 p;
            if MAX_SUPPORTED_METHODS \<le> rtVector_Size (meths_v E) (methods ob)
            then Some (RTMESSAGE_BUS_ERROR_OUT_OF_RESOURCES, unlock s1)
            else case rtVector_Find (meths_v E) (methods ob) method_name server_method_compare of
              Some _ \<Rightarrow> Some (RTMESSAGE_BUS_ERROR_INVALID_PARAM, unlock s1)
            | None \<Rightarrow> do {
                meth \<leftarrow> server_method_create method_name handler data;
                let ob' = ob\<lparr>methods := rtVector_PushBack (meths_v E) (methods ob) meth\<rparr>;
                Some (RTMESSAGE_BUS_SUCCESS, unlock (obj_put p ob' s1))
              }
          }
      })"

definition rbus_unregisterMethod ::
    "runtime \<Rightarrow> string \<Rightarrow> string \<Rightarrow> rbus_state \<Rightarrow> (rbus_error_t \<times> rbus_state) option" where
  "rbus_unregisterMethod E object_name method_name s = do {
     let s1 = lock s;
     found \<leftarrow> get_object E object_name s1;
     case found of
       None \<Rightarrow> Some (RTMESSAGE_BUS_ERROR_INVALID_PARAM, unlock s1)
     | Some p \<Rightarrow> do {
         ob \<leftarrow> objs s1 p;
         case rtVector_Find (meths_v E) (methods ob) method_name server_method_compare of
           None \<Rightarrow> Some (RTMESSAGE_BUS_ERROR_GENERAL, unlock s1)
         | Some meth \<Rightarrow>
             let ob' = ob\<lparr>methods := rtVector_RemoveItem (meths_v E) (methods ob) meth\<rparr>
             in Some (RTMESSAGE_BUS_SUCCESS, unlock (obj_put p ob' s1))
       }
   }"

record rbus_method_table_entry_t =
  mt_method :: string
  mt_user_data :: user_data
  mt_callback :: rbus_callback_t

text \<open>The loop stops at the first entry that fails and returns its code.\<close>

fun rbus_registerMethodTable ::
    "runtime \<Rightarrow> string \<Rightarrow> rbus_method_table_entry_t list \<Rightarrow> rbus_state \<Rightarrow>
     (rbus_error_t \<times> rbus_state) option" where
  "rbus_registerMethodTable E object_name [] s = Some (RTMESSAGE_BUS_SUCCESS, s)"
| "rbus_registerMethodTable E object_name (t # table) s = do {
     (ret, s1) \<leftarrow> rbus_registerMethod E object_name (mt_method t) (mt_callback t) (mt_user_data t) s;
     if ret \<noteq> RTMESSAGE_BUS_SUCCESS then Some (ret, s1)
     else rbus_registerMethodTable E object_name table s1
   }"

fun rbus_unregisterMethodTable ::
    "runtime \<Rightarrow> string \<Rightarrow> rbus_method_table_entry_t list \<Rightarrow> rbus_state \<Rightarrow>
     (rbus_error_t \<times> rbus_state) option" where
  "rbus_unregisterMethodTable E object_name [] s = Some (RTMESSAGE_BUS_SUCCESS, s)"
| "rbus_unregisterMethodTable E object_name (t # table) s = do {
     (ret, s1) \<leftarrow> rbus_unregisterMethod E object_name (mt_method t) s;
     if ret \<noteq> RTMESSAGE_BUS_SUCCESS then Some (ret, s1)
     else rbus_unregisterMethodTable E object_name table s1
   }"

section \<open>Elements\<close>

definition rbus_addElement ::
    "runtime \<Rightarrow> string option \<Rightarrow> string option \<Rightarrow> rbus_state \<Rightarrow> rbus_error_t \<times> rbus_state" where
  "rbus_addElement E object_name element s =
     (if g_connection s = None then (RTMESSAGE_BUS_ERROR_INVALID_STATE, s)
      else case (object_name, element) of
        (Some name, Some elem) \<Rightarrow>
          if bad_name E name \<or> bad_name E elem then (RTMESSAGE_BUS_ERROR_INVALID_PARAM, s)
          else (case rt_do E (Rt_AddAlias name elem) s of (err, s1) \<Rightarrow>
            if err = RT_OK then (RTMESSAGE_BUS_SUCCESS, s1)
            else if err = RT_ERROR_DUPLICATE_ENTRY then (RTMESSAGE_BUS_ERROR_DUPLICATE_ENTRY, s1)
            else (RTMESSAGE_BUS_ERROR_GENERAL, s1))
      | _ \<Rightarrow> (RTMESSAGE_BUS_ERROR_INVALID_PARAM, s))"

definition rbus_addElementEvent ::
    "runtime \<Rightarrow> string option \<Rightarrow> string option \<Rightarrow> rbus_state \<Rightarrow> rbus_error_t \<times> rbus_state" where
  "rbus_addElementEvent E object_name event s = rbus_addElement E object_name event s"

definition rbus_removeElement ::
    "runtime \<Rightarrow> string option \<Rightarrow> string option \<Rightarrow> rbus_state \<Rightarrow> rbus_error_t \<times> rbus_state" where
  "rbus_removeElement E object element s =
     (if g_connection s = None then (RTMESSAGE_BUS_ERROR_INVALID_STATE, s)
      else case (object, element) of
        (Some name, Some elem) \<Rightarrow>
          if bad_name E name \<or> bad_name E elem then (RTMESSAGE_BUS_ERROR_INVALID_PARAM, s)
          else (case rt_do E (Rt_RemoveAlias name elem) s of (err, s1) \<Rightarrow>
            if err \<noteq> RT_OK then (RTMESSAGE_BUS_ERROR_GENERAL, s1) else (RTMESSAGE_BUS_SUCCESS, s1))
      | _ \<Rightarrow> (RTMESSAGE_BUS_ERROR_INVALID_PARAM, s))"

section \<open>Facts\<close>

lemma bad_name_short:
  "length name < 2 ^ 31 \<Longrightarrow> bad_name E name \<longleftrightarrow> MAX_OBJECT_NAME_LENGTH E \<le> length name \<or> name = []"
  by (auto simp: bad_name_def strlen_int_small Let_def)

end
