(* ===== verification/Rbus_Events.thy ===== *)
theory Rbus_Events
  imports Rbus_Server
begin

text \<open>
  The event side of the server in \<open>rbus-core/lib/rbus_core.c\<close>: events of an object, their
  listeners, the RPC handler that adds and removes listeners, and publication.  The facts on the
  registration of events are in \<open>Rbus_Registry\<close>, those on listeners and publication in \<open>Rbus_Listeners\<close>.
\<close>

section \<open>Structures\<close>

definition server_event_compare :: "runtime \<Rightarrow> server_event \<Rightarrow> string \<Rightarrow> int" where
  "server_event_compare E left right = strncmp (MAX_EVENT_NAME_LENGTH E) (se_name left) right"

definition server_event_create ::
    "runtime \<Rightarrow> string \<Rightarrow> ptr \<Rightarrow> fnptr option \<Rightarrow> user_data \<Rightarrow> server_event option" where
  "server_event_create E event_name obj callback data =
     (if MAX_EVENT_NAME_LENGTH E < length event_name then None
      else Some \<lparr>se_name = event_name, se_object = obj,
                 listeners = rtVector_Create (lsnrs_v E),
                 sub_callback = callback, sub_data = data\<rparr>)"

text \<open>
  \<open>event->sub_callback(event->object->name, event->name, listener, added, NULL, sub_data)\<close>,
  if there is a callback.
\<close>

definition notify_subscription ::
    "runtime \<Rightarrow> server_event \<Rightarrow> string \<Rightarrow> bool \<Rightarrow> rbus_state \<Rightarrow> rbus_state option" where
  "notify_subscription E ev listener added s =
     (case sub_callback ev of
        None \<Rightarrow> Some s
      | Some f \<Rightarrow> do {
          ob \<leftarrow> objs s (se_object ev);
          Some (snd (app_do E
            (App_Subscribe f (so_name ob) (se_name ev) listener added None (sub_data ev)) s))
        })"

definition server_event_addListener ::
    "runtime \<Rightarrow> server_event \<Rightarrow> string option \<Rightarrow> rbus_state \<Rightarrow> (server_event \<times> rbus_state) option" where
  "server_event_addListener E ev listener s =
     (case listener of
        None \<Rightarrow> Some (ev, s)
      | Some l \<Rightarrow>
          if \<not> rtVector_HasItem (lsnrs_v E) (listeners ev) l (rtVector_Compare_String E)
          then do {
            let ev' = ev\<lparr>listeners := rtVector_PushBack (lsnrs_v E) (listeners ev) l\<rparr>;
            s' \<leftarrow> notify_subscription E ev' l True s;
            Some (ev', s')
          }
          else Some (ev, s))"

definition server_event_removeListener ::
    "runtime \<Rightarrow> server_event \<Rightarrow> string option \<Rightarrow> rbus_state \<Rightarrow> (server_event \<times> rbus_state) option" where
  "server_event_removeListener E ev listener s =
     (case listener of
        None \<Rightarrow> Some (ev, s)
      | Some l \<Rightarrow>
          if rtVector_HasItem (lsnrs_v E) (listeners ev) l (rtVector_Compare_String E)
          then do {
            let ev' = ev\<lparr>listeners := rtVector_RemoveItemByCompare (lsnrs_v E) (listeners ev) l
                                        (rtVector_Compare_String E)\<rparr>;
            s' \<leftarrow> notify_subscription E ev' l False s;
            Some (ev', s')
          }
          else Some (ev, s))"

text \<open>Writing an event back into the object that holds it.\<close>

definition set_event :: "server_event \<Rightarrow> server_object \<Rightarrow> server_object" where
  "set_event ev ob =
     ob\<lparr>subscriptions := map_option (table_upd se_name (se_name ev) (\<lambda>_. ev)) (subscriptions ob)\<rparr>"

section \<open>Subscription requests\<close>

definition server_object_subscription_handler ::
    "runtime \<Rightarrow> ptr \<Rightarrow> string option \<Rightarrow> string option \<Rightarrow> bool \<Rightarrow> ptr option \<Rightarrow> rbus_state \<Rightarrow>
     (rbus_error_t \<times> rbus_state) option" where
  "server_object_subscription_handler E p event subscriber added payload s =
     (case (event, subscriber) of
        (Some ev, Some sub) \<Rightarrow>
          if MAX_SUBSCRIBER_NAME_LENGTH E \<le> length sub \<or> MAX_EVENT_NAME_LENGTH E \<le> length ev
          then Some (RTMESSAGE_BUS_ERROR_INVALID_PARAM, s)
          else do {
            ob \<leftarrow> objs s p;
            let (handled, ret, s1) =
              (case subscribe_handler_override ob of
                 None \<Rightarrow> (False, RTMESSAGE_BUS_SUCCESS, s)
               | Some f \<Rightarrow>
                   (case app_do E (App_Subscribe f (so_name ob) ev sub added
                             (Option.bind payload (msgs s)) (subscribe_handler_data ob)) s of
                      (code, s') \<Rightarrow>
                        (rbus_error_of_int code \<noteq> RTMESSAGE_BUS_SUBSCRIBE_NOT_HANDLED,
                         rbus_error_of_int code, s')));
            if handled then Some (ret, s1)
            else case rtVector_Find (evts_v E) (subscriptions ob) ev (server_event_compare E) of
              None \<Rightarrow> Some (RTMESSAGE_BUS_ERROR_UNSUPPORTED_EVENT, s1)
            | Some server_event \<Rightarrow> do {
                (ev', s2) \<leftarrow> (if added then server_event_addListener E server_event (Some sub) s1
                             else server_event_removeListener E server_event (Some sub) s1);
                Some (RTMESSAGE_BUS_SUCCESS, obj_put p (set_event ev' ob) s2)
              }
          }
      | _ \<Rightarrow> Some (RTMESSAGE_BUS_ERROR_INVALID_PARAM, s))"

text \<open>
  The RPC handler: it reads the event name, the sender, the payload flag and the payload from
  the request and answers with the result code, or with an empty message when one of the two
  names is missing.  The result is the callback's return value and the response.
\<close>

definition subscription_handler ::
    "runtime \<Rightarrow> string \<Rightarrow> ptr \<Rightarrow> user_data \<Rightarrow> rbus_state \<Rightarrow> (int \<times> ptr option \<times> rbus_state) option" where
  "subscription_handler E method_name req user_data s =
     (case user_data of
        UD_Object obj \<Rightarrow> do {
          let (out, s1) = msg_alloc rbusMessage_Init s;
          (e1, event_name, s2) \<leftarrow> msg_read_string E req s1;
          if e1 \<noteq> RT_OK then Some (0, Some out, s2)
          else do {
            (e2, sender, s3) \<leftarrow> msg_read_string E req s2;
            if e2 \<noteq> RT_OK then Some (0, Some out, s3)
            else if sender = None \<or> event_name = None then do {
              (_, s4) \<leftarrow> msg_write (\<lambda>m. rbusMessage_SetInt32 (mp E) m
                            (error_int32 RTMESSAGE_BUS_ERROR_INVALID_PARAM)) out s3;
              Some (0, Some out, s4)
            }
            else do {
              (_, flag, s4) \<leftarrow> msg_read (rbusMessage_GetInt32 (mp E)) req s3;
              (payload, s5) \<leftarrow>
                (if flag = None \<or> flag = Some 0 then Some (None, s4)
                 else do {
                   (_, pm, s') \<leftarrow> msg_read (rbusMessage_GetMessage (mp E)) req s4;
                   case pm of
                     None \<Rightarrow> Some (None, s')
                   | Some m \<Rightarrow> (case msg_alloc m s' of (q, s'') \<Rightarrow> Some (Some q, s''))
                 });
              let added = (strncmp MAX_METHOD_NAME_LENGTH method_name METHOD_ADD_EVENT_SUBSCRIPTION = 0);
              (ret, s6) \<leftarrow> server_object_subscription_handler E obj event_name sender added payload s5;
              s7 \<leftarrow> (case payload of None \<Rightarrow> Some s6 | Some q \<Rightarrow> rbusMessage_Release E q s6);
              (_, s8) \<leftarrow> msg_write (\<lambda>m. rbusMessage_SetInt32 (mp E) m (error_int32 ret)) out s7;
              Some (0, Some out, s8)
            }
          }
        }
      | _ \<Rightarrow> None)"

section \<open>Registration of events\<close>

text \<open>
  It is called with the mutex held and calls \<open>rbus_registerMethod\<close>, which locks and unlocks
  it: the caller's critical section ends there.
\<close>

definition install_subscription_handlers ::
    "runtime \<Rightarrow> ptr \<Rightarrow> rbus_state \<Rightarrow> (rbus_error_t \<times> rbus_state) option" where
  "install_subscription_handlers E p s = do {
     ob \<leftarrow> objs s p;
     case rtVector_Find (meths_v E) (methods ob) METHOD_ADD_EVENT_SUBSCRIPTION server_method_compare of
       Some _ \<Rightarrow> Some (RTMESSAGE_BUS_SUCCESS, s)
     | None \<Rightarrow> do {
         (ret, s1) \<leftarrow> rbus_registerMethod E (so_name ob) METHOD_ADD_EVENT_SUBSCRIPTION
                       Subscription_Handler (UD_Object p) s;
         if ret \<noteq> RTMESSAGE_BUS_SUCCESS then Some (ret, s1)
         else do {
           (ret2, s2) \<leftarrow> rbus_registerMethod E (so_name ob) METHOD_REMOVE_EVENT_SUBSCRIPTION
                          Subscription_Handler (UD_Object p) s1;
           if ret2 \<noteq> RTMESSAGE_BUS_SUCCESS then Some (ret2, s2)
           else do {
             ob2 \<leftarrow> objs s2 p;
             Some (ret2, obj_put p (ob2\<lparr>process_event_subscriptions := True\<rparr>) s2)
           }
         }
       }
   }"

definition ensure_subscription_handlers ::
    "runtime \<Rightarrow> ptr \<Rightarrow> rbus_state \<Rightarrow> (rbus_error_t \<times> rbus_state) option" where
  "ensure_subscription_handlers E p s = do {
     ob \<leftarrow> objs s p;
     if process_event_subscriptions ob then Some (RTMESSAGE_BUS_SUCCESS, s)
     else install_subscription_handlers E p s
   }"

definition rbus_registerEvent ::
    "runtime \<Rightarrow> string option \<Rightarrow> string option \<Rightarrow> fnptr option \<Rightarrow> user_data \<Rightarrow> rbus_state \<Rightarrow>
     (rbus_error_t \<times> rbus_state) option" where
  "rbus_registerEvent E object_name event_name callback data s =
     (if g_connection s = None then Some (RTMESSAGE_BUS_ERROR_INVALID_STATE, s)
      else let ev = (case event_name of None \<Rightarrow> DEFAULT_EVENT | Some n \<Rightarrow> n)
      in case object_name of
        None \<Rightarrow> Some (RTMESSAGE_BUS_ERROR_INVALID_PARAM, s)
      | Some name \<Rightarrow>
          if MAX_EVENT_NAME_LENGTH E \<le> strnlen ev (MAX_EVENT_NAME_LENGTH E)
          then Some (RTMESSAGE_BUS_ERROR_INVALID_PARAM, s)
          else do {
            let s1 = lock s;
            found \<leftarrow> get_object E name s1;
            case found of
              None \<Rightarrow> Some (RTMESSAGE_BUS_ERROR_INVALID_PARAM, unlock s1)
            | Some p \<Rightarrow> do {
                ob \<leftarrow> objs s1 p;
                s2 \<leftarrow> (case rtVector_Find (evts_v E) (subscriptions ob) ev (server_event_compare E) of
                  Some _ \<Rightarrow> Some s1
                | None \<Rightarrow> do {
                    evt \<leftarrow> server_event_create E ev p callback data;
                    Some (obj_put p (ob\<lparr>subscriptions :=
                      rtVector_PushBack (evts_v E) (subscriptions ob) evt\<rparr>) s1)
                  });
                (ret, s3) \<leftarrow> ensure_subscription_handlers E p s2;
                Some (ret, unlock s3)
              }
          })"

definition rbus_unregisterEvent ::
    "runtime \<Rightarrow> string \<Rightarrow> string option \<Rightarrow> rbus_state \<Rightarrow> (rbus_error_t \<times> rbus_state) option" where
  "rbus_unregisterEvent E object_name event_name s = do {
     let ev = (case event_name of None \<Rightarrow> DEFAULT_EVENT | Some n \<Rightarrow> n);
     let s1 = lock s;
     found \<leftarrow> get_object E object_name s1;
     case found of
       None \<Rightarrow> Some (RTMESSAGE_BUS_ERROR_INVALID_PARAM, unlock s1)
     | Some p \<Rightarrow> do {
         ob \<leftarrow> objs s1 p;
         case rtVector_Find (evts_v E) (subscriptions ob) ev (server_event_compare E) of
           None \<Rightarrow> Some (RTMESSAGE_BUS_ERROR_INVALID_PARAM, unlock s1)
         | Some evt \<Rightarrow>
             let ob' = ob\<lparr>subscriptions := rtVector_RemoveItem (evts_v E) (subscriptions ob) evt\<rparr>
             in Some (RTMESSAGE_BUS_SUCCESS, unlock (obj_put p ob' s1))
       }
   }"

definition rbus_registerSubscribeHandler ::
    "runtime \<Rightarrow> string option \<Rightarrow> fnptr option \<Rightarrow> user_data \<Rightarrow> rbus_state \<Rightarrow>
     (rbus_error_t \<times> rbus_state) option" where
  "rbus_registerSubscribeHandler E object_name callback data s =
     (case (object_name, callback) of
        (Some name, Some f) \<Rightarrow> do {
          let s1 = lock s;
          found \<leftarrow> get_object E name s1;
          case found of
            None \<Rightarrow> Some (RTMESSAGE_BUS_ERROR_INVALID_PARAM, unlock s1)
          | Some p \<Rightarrow> do {
              ob \<leftarrow> objs s1 p;
              let s2 = obj_put p (ob\<lparr>subscribe_handler_override := Some f,
                                    subscribe_handler_data := data\<rparr>) s1;
              (ret, s3) \<leftarrow> ensure_subscription_handlers E p s2;
              Some (ret, unlock s3)
            }
        }
      | _ \<Rightarrow> Some (RTMESSAGE_BUS_ERROR_INVALID_PARAM, s))"

section \<open>Publication\<close>

definition rbus_sendMessage ::
    "runtime \<Rightarrow> ptr \<Rightarrow> string \<Rightarrow> string \<Rightarrow> rbus_state \<Rightarrow> (rbus_error_t \<times> rbus_state) option" where
  "rbus_sendMessage E msg destination sender s =
     (if g_connection s = None then Some (RTMESSAGE_BUS_ERROR_INVALID_STATE, s)
      else do {
        m \<leftarrow> msgs s msg;
        let (err, s') = rt_do E (Rt_SendBinaryDirect (message_bytes m) destination sender) s;
        Some (translate_rt_error err, s')
      })"

text \<open>The meta section of an event: its name, the object, and 1 for an rbus 2.0 event.\<close>

definition write_event_meta ::
    "runtime \<Rightarrow> ptr \<Rightarrow> string \<Rightarrow> string \<Rightarrow> int32 \<Rightarrow> rbus_state \<Rightarrow> rbus_state option" where
  "write_event_meta E out event_name object_name is_rbus s = do {
     m \<leftarrow> msgs s out;
     (_, m1) \<leftarrow> rbusMessage_SetString (mp E) (rbusMessage_BeginMetaSectionWrite m) (Some event_name);
     (_, m2) \<leftarrow> rbusMessage_SetString (mp E) m1 (Some object_name);
     (_, m3) \<leftarrow> rbusMessage_SetInt32 (mp E) m2 is_rbus;
     m4 \<leftarrow> rbusMessage_EndMetaSectionWrite (mp E) m3;
     Some (msg_put out m4 s)
   }"

fun publish_loop ::
    "runtime \<Rightarrow> ptr \<Rightarrow> string \<Rightarrow> string rtVector \<Rightarrow> nat list \<Rightarrow> rbus_state \<Rightarrow> rbus_state option" where
  "publish_loop E out object_name v [] s = Some s"
| "publish_loop E out object_name v (i # is) s = do {
     listener \<leftarrow> rtVector_At (lsnrs_v E) v i;
     (_, s') \<leftarrow> rbus_sendMessage E out listener object_name s;
     publish_loop E out object_name v is s'
   }"

definition rbus_publishEvent ::
    "runtime \<Rightarrow> string \<Rightarrow> string option \<Rightarrow> ptr \<Rightarrow> rbus_state \<Rightarrow> (rbus_error_t \<times> rbus_state) option" where
  "rbus_publishEvent E object_name event_name out s =
     (if g_connection s = None then Some (RTMESSAGE_BUS_ERROR_INVALID_STATE, s)
      else let ev = (case event_name of None \<Rightarrow> DEFAULT_EVENT | Some n \<Rightarrow> n)
      in if MAX_OBJECT_NAME_LENGTH E \<le> strnlen object_name (MAX_OBJECT_NAME_LENGTH E)
      then Some (RTMESSAGE_BUS_ERROR_INVALID_PARAM, s)
      else do {
        s0 \<leftarrow> write_event_meta E out ev object_name 0 s;
        let s1 = lock s0;
        found \<leftarrow> get_object E object_name s1;
        case found of
          None \<Rightarrow> Some (RTMESSAGE_BUS_ERROR_INVALID_PARAM, unlock s1)
        | Some p \<Rightarrow> do {
            ob \<leftarrow> objs s1 p;
            case rtVector_Find (evts_v E) (subscriptions ob) ev (server_event_compare E) of
              None \<Rightarrow> Some (RTMESSAGE_BUS_ERROR_INVALID_PARAM, unlock s1)
            | Some evt \<Rightarrow> do {
                let n = rtVector_Size (lsnrs_v E) (listeners evt);
                s2 \<leftarrow> publish_loop E out object_name (listeners evt) [0..<n] s1;
                Some (RTMESSAGE_BUS_SUCCESS, unlock s2)
              }
          }
      })"

text \<open>The message is sent even when the object does not exist.\<close>

definition rbus_publishSubscriberEvent ::
    "runtime \<Rightarrow> string \<Rightarrow> string option \<Rightarrow> string \<Rightarrow> ptr \<Rightarrow> rbus_state \<Rightarrow>
     (rbus_error_t \<times> rbus_state) option" where
  "rbus_publishSubscriberEvent E object_name event_name listener out s =
     (let ev = (case event_name of None \<Rightarrow> DEFAULT_EVENT | Some n \<Rightarrow> n)
      in if MAX_OBJECT_NAME_LENGTH E \<le> strnlen object_name (MAX_OBJECT_NAME_LENGTH E)
      then Some (RTMESSAGE_BUS_ERROR_INVALID_PARAM, s)
      else do {
        s0 \<leftarrow> write_event_meta E out ev object_name 1 s;
        let s1 = lock s0;
        found \<leftarrow> get_object E object_name s1;
        let ret = (if found = None then RTMESSAGE_BUS_ERROR_INVALID_PARAM else RTMESSAGE_BUS_SUCCESS);
        (_, s2) \<leftarrow> rbus_sendMessage E out listener object_name s1;
        Some (ret, unlock s2)
      })"

end
