(* ===== verification/Rbus_Registry.thy ===== *)
theory Rbus_Registry
  imports Rbus_Events
begin

text \<open>
  The object registry as a data structure.  \<open>registry_wf\<close> is the invariant of the tables of
  \<open>Rbus_Server\<close> and \<open>Rbus_Events\<close>.  Under it the registry is a map from names to objects,
  whose methods and events are maps from names (\<open>abs_reg\<close>), and every operation of the API
  refines a function on that map, on the trace of the router and on the next free address
  (\<open>server_step\<close>), which uses the router's answer to the very request the operation makes.  The locale \<open>refinement\<close> lifts the
  simulation of one operation to every sequence of operations.
\<close>

section \<open>Tables\<close>

sublocale rbus_runtime \<subseteq> meth: named_table "meths_v E" sm_name server_method_compare
    MAX_METHOD_NAME_LENGTH "\<lambda>_. True"
  by unfold_locales (simp add: server_method_compare_def)

sublocale rbus_runtime \<subseteq> evt: named_table "evts_v E" se_name "server_event_compare E"
    "MAX_EVENT_NAME_LENGTH E" "\<lambda>_. True"
  by unfold_locales (simp add: server_event_compare_def)

definition obj_name :: "(ptr \<rightharpoonup> server_object) \<Rightarrow> ptr \<Rightarrow> string" where
  "obj_name h p = (case h p of None \<Rightarrow> [] | Some ob \<Rightarrow> so_name ob)"

section \<open>The invariant\<close>

definition methods_wf :: "ptr \<Rightarrow> server_method list \<Rightarrow> bool" where
  "methods_wf p ms \<longleftrightarrow>
     table_wf sm_name MAX_METHOD_NAME_LENGTH ms \<and> length ms \<le> MAX_SUPPORTED_METHODS \<and>
     (\<forall>m\<in>set ms. sm_callback m = Subscription_Handler \<longrightarrow> sm_data m = UD_Object p)"

definition events_wf :: "runtime \<Rightarrow> ptr \<Rightarrow> server_event list \<Rightarrow> bool" where
  "events_wf E p es \<longleftrightarrow>
     table_wf se_name (MAX_EVENT_NAME_LENGTH E) es \<and>
     (\<forall>e\<in>set es. se_object e = p \<and> (\<exists>ls. listeners e = Some ls \<and> distinct ls))"

definition object_wf :: "runtime \<Rightarrow> ptr \<Rightarrow> server_object \<Rightarrow> bool" where
  "object_wf E p ob \<longleftrightarrow>
     so_name ob \<noteq> [] \<and> length (so_name ob) < MAX_OBJECT_NAME_LENGTH E \<and>
     so_callback ob \<noteq> Subscription_Handler \<and>
     (\<exists>ms. methods ob = Some ms \<and> methods_wf p ms) \<and>
     (\<exists>es. subscriptions ob = Some es \<and> events_wf E p es)"

definition registry_wf :: "runtime \<Rightarrow> rbus_state \<Rightarrow> bool" where
  "registry_wf E s \<longleftrightarrow>
     (\<exists>ps. g_server_objects s = Live (Some ps) \<and>
        table_wf (obj_name (objs s)) (MAX_OBJECT_NAME_LENGTH E) ps \<and>
        (\<forall>p\<in>set ps. \<exists>ob. objs s p = Some ob \<and> object_wf E p ob)) \<and>
     (\<forall>p. next_ptr s \<le> p \<longrightarrow> objs s p = None)"

definition objects_of :: "rbus_state \<Rightarrow> ptr list" where
  "objects_of s = (case g_server_objects s of Live (Some ps) \<Rightarrow> ps | _ \<Rightarrow> [])"

definition reg_find :: "rbus_state \<Rightarrow> string \<Rightarrow> ptr option" where
  "reg_find s n = table_map (obj_name (objs s)) (objects_of s) n"

section \<open>The registry as a map\<close>

text \<open>
  The abstract registry: a map from object names to objects, whose methods and events are maps
  from names.  Pointers are gone; a method is one of the application's or the subscription
  handler.
\<close>

datatype abs_method = AM_App fnptr user_data | AM_Subscription

record abs_event =
  ae_listeners :: "string list"
  ae_callback :: "fnptr option"
  ae_data :: user_data

record abs_object =
  ao_callback :: abs_method
  ao_methods :: "string \<rightharpoonup> abs_method"
  ao_events :: "string \<rightharpoonup> abs_event"
  ao_override :: "(fnptr \<times> user_data) option"
  ao_processing :: bool

fun abs_callback :: "rbus_callback_t \<Rightarrow> user_data \<Rightarrow> abs_method" where
  "abs_callback (App_Callback f) data = AM_App f data"
| "abs_callback Subscription_Handler data = AM_Subscription"

definition abs_methods :: "server_method list \<Rightarrow> (string \<rightharpoonup> abs_method)" where
  "abs_methods ms n = map_option (\<lambda>m. abs_callback (sm_callback m) (sm_data m)) (table_map sm_name ms n)"

definition abs_server_event :: "server_event \<Rightarrow> abs_event" where
  "abs_server_event e =
     \<lparr>ae_listeners = the (listeners e), ae_callback = sub_callback e, ae_data = sub_data e\<rparr>"

definition abs_events :: "server_event list \<Rightarrow> (string \<rightharpoonup> abs_event)" where
  "abs_events es n = map_option abs_server_event (table_map se_name es n)"

definition abs_object :: "server_object \<Rightarrow> abs_object" where
  "abs_object ob =
     \<lparr>ao_callback = abs_callback (so_callback ob) (so_data ob),
      ao_methods = abs_methods (the (methods ob)),
      ao_events = abs_events (the (subscriptions ob)),
      ao_override = map_option (\<lambda>f. (f, subscribe_handler_data ob)) (subscribe_handler_override ob),
      ao_processing = process_event_subscriptions ob\<rparr>"

type_synonym abs_registry = "string \<rightharpoonup> abs_object"

definition abs_reg :: "rbus_state \<Rightarrow> abs_registry" where
  "abs_reg s n = map_option (\<lambda>p. abs_object (the (objs s p))) (reg_find s n)"

section \<open>Facts\<close>

lemma registry_wfE:
  assumes "registry_wf E s"
  obtains ps where "g_server_objects s = Live (Some ps)"
    and "table_wf (obj_name (objs s)) (MAX_OBJECT_NAME_LENGTH E) ps"
    and "\<forall>p\<in>set ps. \<exists>ob. objs s p = Some ob \<and> object_wf E p ob"
    and "\<forall>p. next_ptr s \<le> p \<longrightarrow> objs s p = None"
  using assms by (auto simp: registry_wf_def)

lemma reg_find_SomeD:
  assumes "registry_wf E s" and "reg_find s n = Some p"
  obtains ob where "objs s p = Some ob" and "object_wf E p ob" and "so_name ob = n"
proof -
  from assms(1) obtain ps where ps: "g_server_objects s = Live (Some ps)"
    and live: "\<forall>p\<in>set ps. \<exists>ob. objs s p = Some ob \<and> object_wf E p ob"
    by (rule registry_wfE)
  from assms(2) ps have p: "p \<in> set ps" "obj_name (objs s) p = n"
    by (auto simp: reg_find_def objects_of_def dest: table_map_SomeD)
  with live obtain ob where "objs s p = Some ob" "object_wf E p ob" by blast
  with p(2) that show thesis by (simp add: obj_name_def)
qed

text \<open>The registry depends on the vector and on the objects only.\<close>

lemma registry_cong:
  assumes "g_server_objects t = g_server_objects s" and "objs t = objs s"
    and "next_ptr s \<le> next_ptr t"
  shows "registry_wf E s \<Longrightarrow> registry_wf E t" and "reg_find t = reg_find s" and "abs_reg t = abs_reg s"
  using assms
  by (simp_all add: registry_wf_def reg_find_def [abs_def] abs_reg_def [abs_def] objects_of_def)

lemma registry_frame [simp]:
  "registry_wf E (lock s) = registry_wf E s" "registry_wf E (unlock s) = registry_wf E s"
  "reg_find (lock s) = reg_find s" "reg_find (unlock s) = reg_find s"
  "abs_reg (lock s) = abs_reg s" "abs_reg (unlock s) = abs_reg s"
  "registry_wf E (s\<lparr>io := t\<rparr>) = registry_wf E s" "reg_find (s\<lparr>io := t\<rparr>) = reg_find s"
  "abs_reg (s\<lparr>io := t\<rparr>) = abs_reg s"
  by (simp_all add: registry_wf_def reg_find_def [abs_def] abs_reg_def [abs_def] objects_of_def
      lock_def unlock_def)

text \<open>Replacing an object by one of the same name.\<close>

lemma obj_name_put:
  "so_name ob' = obj_name h p \<Longrightarrow> obj_name (h(p \<mapsto> ob')) = obj_name h"
  by (auto simp: obj_name_def fun_eq_iff)

lemma reg_update:
  assumes wf: "registry_wf E s" and f: "reg_find s n = Some p"
    and wf': "object_wf E p ob'" and n': "so_name ob' = n"
  shows "registry_wf E (obj_put p ob' s)"
    and "reg_find (obj_put p ob' s) = reg_find s"
    and "abs_reg (obj_put p ob' s) = (abs_reg s)(n \<mapsto> abs_object ob')"
proof -
  from wf obtain ps where ps: "g_server_objects s = Live (Some ps)"
    and tab: "table_wf (obj_name (objs s)) (MAX_OBJECT_NAME_LENGTH E) ps"
    and live: "\<forall>p\<in>set ps. \<exists>ob. objs s p = Some ob \<and> object_wf E p ob"
    and fresh: "\<forall>p. next_ptr s \<le> p \<longrightarrow> objs s p = None"
    by (rule registry_wfE)
  from wf f obtain ob where ob: "objs s p = Some ob" "so_name ob = n"
    by (rule reg_find_SomeD)
  have nm: "obj_name ((objs s)(p \<mapsto> ob')) = obj_name (objs s)"
    using ob n' by (intro obj_name_put) (simp add: obj_name_def)
  show "registry_wf E (obj_put p ob' s)"
    using ps tab live fresh ob wf' nm unfolding registry_wf_def obj_put_def by auto
  show eq: "reg_find (obj_put p ob' s) = reg_find s"
    using ps nm by (simp add: reg_find_def [abs_def] objects_of_def obj_put_def)
  have o': "objs (obj_put p ob' s) = (objs s)(p \<mapsto> ob')" by (simp add: obj_put_def)
  have "abs_reg (obj_put p ob' s) k = ((abs_reg s)(n \<mapsto> abs_object ob')) k" for k
  proof (cases "k = n")
    case True
    then show ?thesis by (simp add: abs_reg_def eq f o')
  next
    case False
    then have "reg_find s k \<noteq> Some p"
      using reg_find_SomeD [OF wf] ob by (metis option.inject)
    with False show ?thesis by (cases "reg_find s k") (simp_all add: abs_reg_def eq o')
  qed
  then show "abs_reg (obj_put p ob' s) = (abs_reg s)(n \<mapsto> abs_object ob')" by (rule ext)
qed

lemma table_wf_cong:
  "(\<And>x. x \<in> set xs \<Longrightarrow> f x = g x) \<Longrightarrow> table_wf f lim xs = table_wf g lim xs"
  by (auto simp: table_wf_def cong: map_cong)

lemma table_map_cong:
  "(\<And>x. x \<in> set xs \<Longrightarrow> f x = g x) \<Longrightarrow> table_map f xs = table_map g xs"
  unfolding table_map_def by (metis (mono_tags, lifting) map_eq_conv)

text \<open>A new object at a fresh address, and an object that leaves.\<close>

lemma reg_insert:
  assumes wf: "registry_wf E s" and ps: "g_server_objects s = Live (Some ps)"
    and f: "reg_find s n = None" and p: "p = next_ptr s"
    and wf': "object_wf E p ob" and n: "so_name ob = n"
  defines "t \<equiv> s\<lparr>objs := (objs s)(p \<mapsto> ob), next_ptr := Suc p,
      g_server_objects := Live (Some (ps @ [p]))\<rparr>"
  shows "registry_wf E t" and "abs_reg t = (abs_reg s)(n \<mapsto> abs_object ob)"
    and "reg_find t k = (if k = n then Some p else reg_find s k)"
proof -
  from wf ps have tab: "table_wf (obj_name (objs s)) (MAX_OBJECT_NAME_LENGTH E) ps"
    and live: "\<forall>p\<in>set ps. \<exists>ob. objs s p = Some ob \<and> object_wf E p ob"
    and fresh: "\<forall>p. next_ptr s \<le> p \<longrightarrow> objs s p = None"
    by (auto elim: registry_wfE)
  from live fresh p have out: "p \<notin> set ps" by fastforce
  let ?nm = "obj_name ((objs s)(p \<mapsto> ob))"
  have same: "?nm q = obj_name (objs s) q" if "q \<in> set ps" for q
    using that out by (auto simp: obj_name_def)
  have nmp: "?nm p = n" using n by (simp add: obj_name_def)
  have map0: "table_map ?nm ps = table_map (obj_name (objs s)) ps"
    using same by (rule table_map_cong)
  have none: "table_map ?nm ps (?nm p) = None"
    using f ps map0 nmp by (simp add: reg_find_def objects_of_def)
  have "table_wf ?nm (MAX_OBJECT_NAME_LENGTH E) ps"
    using tab same table_wf_cong [of ps ?nm] by simp
  then have "table_wf ?nm (MAX_OBJECT_NAME_LENGTH E) (ps @ [p])"
    using none wf' n nmp by (intro table_wf_snoc) (auto simp: object_wf_def)
  then show "registry_wf E t"
    using live fresh wf' out p by (auto simp: registry_wf_def t_def)
  show find: "reg_find t k = (if k = n then Some p else reg_find s k)" for k
    using table_map_snoc [OF none] map0 nmp ps by (simp add: reg_find_def objects_of_def t_def)
  have "reg_find s k \<noteq> Some p" for k
    using out ps by (auto simp: reg_find_def objects_of_def dest: table_map_SomeD)
  with find have "abs_reg t k = ((abs_reg s)(n \<mapsto> abs_object ob)) k" for k
    by (cases "reg_find s k") (auto simp: abs_reg_def t_def)
  then show "abs_reg t = (abs_reg s)(n \<mapsto> abs_object ob)" by (rule ext)
qed

lemma reg_delete:
  assumes wf: "registry_wf E s" and ps: "g_server_objects s = Live (Some ps)"
    and f: "reg_find s n = Some p"
  defines "t \<equiv> s\<lparr>g_server_objects := Live (Some (remove1 p ps)), objs := (objs s)(p := None)\<rparr>"
  shows "registry_wf E t" and "abs_reg t = (abs_reg s)(n := None)"
    and "reg_find t k = (if k = n then None else reg_find s k)"
proof -
  from wf ps have tab: "table_wf (obj_name (objs s)) (MAX_OBJECT_NAME_LENGTH E) ps"
    and live: "\<forall>p\<in>set ps. \<exists>ob. objs s p = Some ob \<and> object_wf E p ob"
    and fresh: "\<forall>p. next_ptr s \<le> p \<longrightarrow> objs s p = None"
    by (auto elim: registry_wfE)
  from f ps have p: "p \<in> set ps" "obj_name (objs s) p = n"
    by (auto simp: reg_find_def objects_of_def dest: table_map_SomeD)
  have d: "distinct ps" using tab by (rule table_wf_distinct)
  let ?nm = "obj_name ((objs s)(p := None))"
  have same: "?nm q = obj_name (objs s) q" if "q \<in> set (remove1 p ps)" for q
    using that d by (auto simp: obj_name_def)
  have "table_wf ?nm (MAX_OBJECT_NAME_LENGTH E) (remove1 p ps)"
    using table_wf_remove1 [OF tab, of p] same table_wf_cong [of "remove1 p ps" ?nm] by simp
  then show "registry_wf E t"
    using live fresh d by (auto simp: registry_wf_def t_def)
  show find: "reg_find t k = (if k = n then None else reg_find s k)" for k
    using table_map_cong [of "remove1 p ps" ?nm, OF same] table_map_remove1 [OF tab p(1)] p(2) ps
    by (simp add: reg_find_def objects_of_def t_def)
  have "abs_reg t k = ((abs_reg s)(n := None)) k" for k
  proof (cases "k = n")
    case False
    then have "reg_find s k \<noteq> Some p"
      using p(2) ps by (auto simp: reg_find_def objects_of_def dest: table_map_SomeD)
    with False find show ?thesis by (cases "reg_find s k") (auto simp: abs_reg_def t_def)
  qed (simp add: abs_reg_def find)
  then show "abs_reg t = (abs_reg s)(n := None)" by (rule ext)
qed

lemma abs_reg_None: "abs_reg s n = None \<longleftrightarrow> reg_find s n = None"
  by (simp add: abs_reg_def)

lemma abs_methods_dom: "dom (abs_methods ms) = sm_name ` set ms"
  by (auto simp: abs_methods_def dom_def table_map_None_iff dest: table_map_SomeD)

lemma card_abs_methods:
  "methods_wf p ms \<Longrightarrow> card (dom (abs_methods ms)) = length ms"
  by (metis abs_methods_dom distinct_card length_map methods_wf_def set_map table_wf_def)

lemma reg_find_abs:
  assumes "registry_wf E s" and "reg_find s n = Some p"
  obtains ob ms es where "objs s p = Some ob" and "object_wf E p ob" and "so_name ob = n"
    and "abs_reg s n = Some (abs_object ob)"
    and "methods ob = Some ms" and "methods_wf p ms"
    and "subscriptions ob = Some es" and "events_wf E p es"
proof -
  from assms obtain ob where ob: "objs s p = Some ob" "object_wf E p ob" "so_name ob = n"
    by (rule reg_find_SomeD)
  moreover from ob(1) assms(2) have "abs_reg s n = Some (abs_object ob)" by (simp add: abs_reg_def)
  ultimately show thesis using that by (auto simp: object_wf_def)
qed

subsection \<open>Objects: methods and events in place\<close>

lemma abs_methods_snoc:
  "abs_methods ms (sm_name m) = None \<Longrightarrow>
   abs_methods (ms @ [m]) = (abs_methods ms)(sm_name m \<mapsto> abs_callback (sm_callback m) (sm_data m))"
  by (rule ext) (simp add: abs_methods_def table_map_snoc)

lemma abs_methods_remove1:
  "methods_wf p ms \<Longrightarrow> table_map sm_name ms n = Some m \<Longrightarrow>
   abs_methods (remove1 m ms) = (abs_methods ms)(n := None)"
  by (rule ext) (auto simp: abs_methods_def methods_wf_def table_map_remove1 dest: table_map_SomeD)

lemma abs_events_snoc:
  "abs_events es (se_name e) = None \<Longrightarrow>
   abs_events (es @ [e]) = (abs_events es)(se_name e \<mapsto> abs_server_event e)"
  by (rule ext) (simp add: abs_events_def table_map_snoc)

lemma abs_events_remove1:
  "events_wf E p es \<Longrightarrow> table_map se_name es n = Some e \<Longrightarrow>
   abs_events (remove1 e es) = (abs_events es)(n := None)"
  by (rule ext) (auto simp: abs_events_def events_wf_def table_map_remove1 dest: table_map_SomeD)

lemma object_methods:
  assumes "object_wf E p ob" and "methods_wf p ms'"
  shows "object_wf E p (ob\<lparr>methods := Some ms'\<rparr>)"
    and "abs_object (ob\<lparr>methods := Some ms'\<rparr>) = (abs_object ob)\<lparr>ao_methods := abs_methods ms'\<rparr>"
  using assms by (simp_all add: object_wf_def abs_object_def)

lemma object_events:
  assumes "object_wf E p ob" and "events_wf E p es'"
  shows "object_wf E p (ob\<lparr>subscriptions := Some es'\<rparr>)"
    and "abs_object (ob\<lparr>subscriptions := Some es'\<rparr>) = (abs_object ob)\<lparr>ao_events := abs_events es'\<rparr>"
  using assms by (simp_all add: object_wf_def abs_object_def)

lemma methods_wf_snoc:
  assumes "methods_wf p ms" and "abs_methods ms (sm_name m) = None"
    and "length (sm_name m) < MAX_METHOD_NAME_LENGTH" and "length ms < MAX_SUPPORTED_METHODS"
    and "sm_callback m = Subscription_Handler \<Longrightarrow> sm_data m = UD_Object p"
  shows "methods_wf p (ms @ [m])"
  using assms by (auto simp: methods_wf_def abs_methods_def intro!: table_wf_snoc)

lemma methods_wf_remove1: "methods_wf p ms \<Longrightarrow> methods_wf p (remove1 m ms)"
  by (auto simp: methods_wf_def table_wf_remove1 length_remove1 dest: notin_set_remove1)

lemma events_wf_snoc:
  assumes "events_wf E p es" and "abs_events es (se_name e) = None"
    and "length (se_name e) < MAX_EVENT_NAME_LENGTH E"
    and "se_object e = p" and "listeners e = Some ls" and "distinct ls"
  shows "events_wf E p (es @ [e])"
  using assms by (auto simp: events_wf_def abs_events_def intro!: table_wf_snoc)

lemma events_wf_remove1: "events_wf E p es \<Longrightarrow> events_wf E p (remove1 e es)"
  by (auto simp: events_wf_def table_wf_remove1 dest: notin_set_remove1)

context rbus_runtime
begin

lemma obj_table: "named_table (objs_v E) (obj_name h) (server_object_compare E h)
    (MAX_OBJECT_NAME_LENGTH E) (\<lambda>p. h p \<noteq> None)"
  by unfold_locales (auto simp: server_object_compare_def obj_name_def)

lemma get_object_reg_find:
  assumes "registry_wf E s"
  shows "get_object E n s = Some (reg_find s n)"
proof -
  from assms obtain ps where "g_server_objects s = Live (Some ps)"
    and "table_wf (obj_name (objs s)) (MAX_OBJECT_NAME_LENGTH E) ps"
    and "\<forall>p\<in>set ps. objs s p \<noteq> None"
    by (rule registry_wfE) auto
  then show ?thesis
    using named_table.find_table_map [OF obj_table [of "objs s"]]
    by (simp add: get_object_def reg_find_def objects_of_def)
qed

text \<open>Finding a method or an event in a well-formed object.\<close>

lemma find_method:
  "methods_wf p ms \<Longrightarrow>
   rtVector_Find (meths_v E) (Some ms) n server_method_compare = table_map sm_name ms n"
  by (auto simp: methods_wf_def intro: meth.find_table_map)

lemma find_event:
  "events_wf E p es \<Longrightarrow>
   rtVector_Find (evts_v E) (Some es) n (server_event_compare E) = table_map se_name es n"
  by (auto simp: events_wf_def intro: evt.find_table_map)

end

section \<open>The specification of the operations\<close>

text \<open>
  What \<open>rbus_core.h\<close> promises of each operation, as a function on the abstract registry: the
  code it returns and the registry after it.
\<close>

definition spec_add_method :: "string \<Rightarrow> abs_method \<Rightarrow> abs_object \<Rightarrow> rbus_error_t \<times> abs_object" where
  "spec_add_method m am ob =
     (if MAX_SUPPORTED_METHODS \<le> card (dom (ao_methods ob)) then (RTMESSAGE_BUS_ERROR_OUT_OF_RESOURCES, ob)
      else if ao_methods ob m \<noteq> None then (RTMESSAGE_BUS_ERROR_INVALID_PARAM, ob)
      else (RTMESSAGE_BUS_SUCCESS, ob\<lparr>ao_methods := (ao_methods ob)(m \<mapsto> am)\<rparr>))"

definition on_object ::
    "string \<Rightarrow> (abs_object \<Rightarrow> rbus_error_t \<times> abs_object) \<Rightarrow> abs_registry \<Rightarrow> rbus_error_t \<times> abs_registry" where
  "on_object n f A =
     (case A n of None \<Rightarrow> (RTMESSAGE_BUS_ERROR_INVALID_PARAM, A)
      | Some ob \<Rightarrow> (fst (f ob), A(n \<mapsto> snd (f ob))))"

text \<open>One step on an object, and if it succeeds the next.\<close>

definition obj_then ::
    "(abs_object \<Rightarrow> rbus_error_t \<times> abs_object) \<Rightarrow> (abs_object \<Rightarrow> rbus_error_t \<times> abs_object) \<Rightarrow>
     abs_object \<Rightarrow> rbus_error_t \<times> abs_object" where
  "obj_then f g ob =
     (case f ob of (c, ob1) \<Rightarrow> if c \<noteq> RTMESSAGE_BUS_SUCCESS then (c, ob1) else g ob1)"

definition spec_registerMethod ::
    "string \<Rightarrow> string \<Rightarrow> abs_method \<Rightarrow> abs_registry \<Rightarrow> rbus_error_t \<times> abs_registry" where
  "spec_registerMethod n m am A =
     (if MAX_METHOD_NAME_LENGTH \<le> length m then (RTMESSAGE_BUS_ERROR_INVALID_PARAM, A)
      else on_object n (spec_add_method m am) A)"

definition spec_unregisterMethod ::
    "string \<Rightarrow> string \<Rightarrow> abs_registry \<Rightarrow> rbus_error_t \<times> abs_registry" where
  "spec_unregisterMethod n m =
     on_object n (\<lambda>ob. if ao_methods ob m = None then (RTMESSAGE_BUS_ERROR_GENERAL, ob)
       else (RTMESSAGE_BUS_SUCCESS, ob\<lparr>ao_methods := (ao_methods ob)(m := None)\<rparr>))"

definition new_object :: "abs_method \<Rightarrow> abs_object" where
  "new_object am =
     \<lparr>ao_callback = am, ao_methods = Map.empty, ao_events = Map.empty, ao_override = None,
      ao_processing = False\<rparr>"

text \<open>\<open>answer\<close> is what the router answers to the listener or alias request.\<close>

definition spec_registerObj ::
    "nat \<Rightarrow> bool \<Rightarrow> rtError \<Rightarrow> string option \<Rightarrow> abs_method \<Rightarrow> abs_registry \<Rightarrow> rbus_error_t \<times> abs_registry" where
  "spec_registerObj lim connected answer name am A =
     (if \<not> connected then (RTMESSAGE_BUS_ERROR_INVALID_STATE, A)
      else case name of
        None \<Rightarrow> (RTMESSAGE_BUS_ERROR_INVALID_PARAM, A)
      | Some n \<Rightarrow>
          if n = [] \<or> lim \<le> length n \<or> A n \<noteq> None then (RTMESSAGE_BUS_ERROR_INVALID_PARAM, A)
          else if answer \<noteq> RT_OK then (RTMESSAGE_BUS_ERROR_GENERAL, A)
          else (RTMESSAGE_BUS_SUCCESS, A(n \<mapsto> new_object am)))"

definition spec_unregisterObj ::
    "nat \<Rightarrow> rtError \<Rightarrow> string option \<Rightarrow> abs_registry \<Rightarrow> rbus_error_t \<times> abs_registry" where
  "spec_unregisterObj lim answer name A =
     (case name of
        None \<Rightarrow> (RTMESSAGE_BUS_ERROR_INVALID_PARAM, A)
      | Some n \<Rightarrow>
          if n = [] \<or> lim \<le> length n then (RTMESSAGE_BUS_ERROR_INVALID_PARAM, A)
          else if answer \<noteq> RT_OK \<or> A n = None then (RTMESSAGE_BUS_ERROR_GENERAL, A)
          else (RTMESSAGE_BUS_SUCCESS, A(n := None)))"

definition spec_ensure_handlers :: "abs_object \<Rightarrow> rbus_error_t \<times> abs_object" where
  "spec_ensure_handlers ob =
     (if ao_processing ob \<or> ao_methods ob METHOD_ADD_EVENT_SUBSCRIPTION \<noteq> None
      then (RTMESSAGE_BUS_SUCCESS, ob)
      else obj_then (spec_add_method METHOD_ADD_EVENT_SUBSCRIPTION AM_Subscription)
             (obj_then (spec_add_method METHOD_REMOVE_EVENT_SUBSCRIPTION AM_Subscription)
               (\<lambda>ob'. (RTMESSAGE_BUS_SUCCESS, ob'\<lparr>ao_processing := True\<rparr>))) ob)"

definition spec_registerEvent ::
    "nat \<Rightarrow> bool \<Rightarrow> string option \<Rightarrow> string option \<Rightarrow> fnptr option \<Rightarrow> user_data \<Rightarrow> abs_registry \<Rightarrow>
     rbus_error_t \<times> abs_registry" where
  "spec_registerEvent lim connected name event f data A =
     (let ev = (case event of None \<Rightarrow> DEFAULT_EVENT | Some n \<Rightarrow> n)
      in if \<not> connected then (RTMESSAGE_BUS_ERROR_INVALID_STATE, A)
      else case name of
        None \<Rightarrow> (RTMESSAGE_BUS_ERROR_INVALID_PARAM, A)
      | Some n \<Rightarrow>
          if lim \<le> length ev then (RTMESSAGE_BUS_ERROR_INVALID_PARAM, A)
          else on_object n (\<lambda>ob. spec_ensure_handlers
            (if ao_events ob ev \<noteq> None then ob
             else ob\<lparr>ao_events := (ao_events ob)(ev \<mapsto>
                \<lparr>ae_listeners = [], ae_callback = f, ae_data = data\<rparr>)\<rparr>)) A)"

definition spec_unregisterEvent ::
    "string \<Rightarrow> string option \<Rightarrow> abs_registry \<Rightarrow> rbus_error_t \<times> abs_registry" where
  "spec_unregisterEvent n event =
     (let ev = (case event of None \<Rightarrow> DEFAULT_EVENT | Some e \<Rightarrow> e)
      in on_object n (\<lambda>ob. if ao_events ob ev = None then (RTMESSAGE_BUS_ERROR_INVALID_PARAM, ob)
           else (RTMESSAGE_BUS_SUCCESS, ob\<lparr>ao_events := (ao_events ob)(ev := None)\<rparr>)))"

definition spec_registerSubscribeHandler ::
    "string option \<Rightarrow> fnptr option \<Rightarrow> user_data \<Rightarrow> abs_registry \<Rightarrow> rbus_error_t \<times> abs_registry" where
  "spec_registerSubscribeHandler name callback data A =
     (case (name, callback) of
        (Some n, Some f) \<Rightarrow>
          on_object n (\<lambda>ob. spec_ensure_handlers (ob\<lparr>ao_override := Some (f, data)\<rparr>)) A
      | _ \<Rightarrow> (RTMESSAGE_BUS_ERROR_INVALID_PARAM, A))"

section \<open>Refinement of one operation\<close>

text \<open>The part of the state the registry operations do not touch.\<close>

definition server_core :: "rbus_state \<Rightarrow> rbus_state" where
  "server_core s =
     s\<lparr>objs := Map.empty, next_ptr := 0, g_server_objects := Freed, io := [], g_mutex := False\<rparr>"

text \<open>
  The run returns (no undefined behaviour) with the code of the specification, in a state whose
  registry is well-formed and is the specified one; objects that stay registered stay at their
  address, the mutex is not left held, addresses are allocated upwards, the rest of the state is unchanged.
\<close>

definition reg_step ::
    "runtime \<Rightarrow> rbus_state \<Rightarrow> (rbus_error_t \<times> rbus_state) option \<Rightarrow> rbus_error_t \<times> abs_registry \<Rightarrow> bool" where
  "reg_step E s r sp \<longleftrightarrow>
     (\<exists>s'. r = Some (fst sp, s') \<and> registry_wf E s' \<and> abs_reg s' = snd sp \<and>
        (\<forall>k p. reg_find s k = Some p \<longrightarrow> snd sp k \<noteq> None \<longrightarrow> reg_find s' k = Some p) \<and>
        (g_mutex s' \<longrightarrow> g_mutex s) \<and> next_ptr s \<le> next_ptr s' \<and> server_core s' = server_core s)"

lemma server_core_simps [simp]:
  "server_core (lock s) = server_core s" "server_core (unlock s) = server_core s"
  "server_core (obj_put p ob s) = server_core s" "server_core (s\<lparr>io := t\<rparr>) = server_core s"
  "server_core (s\<lparr>g_server_objects := v\<rparr>) = server_core s"
  "server_core (server_object_destroy p s) = server_core s"
  "server_core (s\<lparr>objs := h\<rparr>) = server_core s" "server_core (s\<lparr>next_ptr := n\<rparr>) = server_core s"
  by (simp_all add: server_core_def lock_def unlock_def obj_put_def server_object_destroy_def)

lemma server_core_fields:
  "g_event_subscriptions_for_client (server_core s) = g_event_subscriptions_for_client s" "msgs (server_core s) = msgs s"
  "stack_counter (server_core s) = stack_counter s" "g_queued_requests (server_core s) = g_queued_requests s"
  "g_connection (server_core s) = g_connection s" "g_master_event_callback (server_core s) = g_master_event_callback s"
  by (simp_all add: server_core_def)

lemma same_server_core:
  assumes "server_core s' = server_core s"
  shows "g_event_subscriptions_for_client s' = g_event_subscriptions_for_client s" "msgs s' = msgs s"
    "stack_counter s' = stack_counter s" "g_queued_requests s' = g_queued_requests s"
    "g_connection s' = g_connection s" "g_master_event_callback s' = g_master_event_callback s"
  using assms server_core_fields by metis+

lemma reg_stepI:
  "registry_wf E s' \<Longrightarrow> abs_reg s' = A \<Longrightarrow>
   (\<And>k p. reg_find s k = Some p \<Longrightarrow> A k \<noteq> None \<Longrightarrow> reg_find s' k = Some p) \<Longrightarrow>
   (g_mutex s' \<Longrightarrow> g_mutex s) \<Longrightarrow> next_ptr s \<le> next_ptr s' \<Longrightarrow>
   server_core s' = server_core s \<Longrightarrow> reg_step E s (Some (c, s')) (c, A)"
  by (simp add: reg_step_def)

lemma reg_step_same:
  assumes "registry_wf E s"
  shows "reg_step E s (Some (c, s)) (c, abs_reg s)"
    and "reg_step E s (Some (c, unlock s)) (c, abs_reg s)"
    and "reg_step E s (Some (c, s\<lparr>io := t\<rparr>)) (c, abs_reg s)"
    and "reg_step E s (Some (c, unlock (s\<lparr>io := t\<rparr>))) (c, abs_reg s)"
  using assms by (auto intro!: reg_stepI)

lemma on_object_missing:
  "reg_find s n = None \<Longrightarrow> on_object n f (abs_reg s) = (RTMESSAGE_BUS_ERROR_INVALID_PARAM, abs_reg s)"
  by (simp add: on_object_def abs_reg_def)

lemma on_object_found:
  "abs_reg s n = Some a \<Longrightarrow> on_object n f (abs_reg s) = (fst (f a), (abs_reg s)(n \<mapsto> snd (f a)))"
  by (simp add: on_object_def)

text \<open>An operation that changes one object, which the table keeps.\<close>

lemma reg_step_put:
  assumes wf: "registry_wf E s" and f: "reg_find s n = Some p"
    and ob: "object_wf E p ob'" "so_name ob' = n"
  shows "reg_step E s (Some (c, unlock (obj_put p ob' (lock s)))) (c, (abs_reg s)(n \<mapsto> abs_object ob'))"
proof -
  have "registry_wf E (lock s)" "reg_find (lock s) n = Some p" using wf f by simp_all
  from reg_update [OF this ob] show ?thesis by (intro reg_stepI) (simp_all add: obj_put_def)
qed

context rbus_runtime
begin

lemma registerMethod_step:
  assumes wf: "registry_wf E s"
    and cb: "\<And>p. callback = Subscription_Handler \<Longrightarrow> reg_find s n = Some p \<Longrightarrow> data = UD_Object p"
  shows "reg_step E s (rbus_registerMethod E n m callback data s)
    (spec_registerMethod n m (abs_callback callback data) (abs_reg s))"
proof (cases "reg_find s n")
  case None
  then show ?thesis using wf
    by (simp add: rbus_registerMethod_def spec_registerMethod_def get_object_reg_find
        reg_step_same on_object_missing)
next
  case (Some p)
  with wf obtain ob ms es where ob: "objs s p = Some ob" "object_wf E p ob" "so_name ob = n"
    "abs_reg s n = Some (abs_object ob)" and ms: "methods ob = Some ms" "methods_wf p ms"
    by (rule reg_find_abs)
  have ao: "ao_methods (abs_object ob) = abs_methods ms" using ms by (simp add: abs_object_def)
  let ?m = "\<lparr>sm_name = m, sm_callback = callback, sm_data = data\<rparr>"
  show ?thesis
  proof (cases "length m < MAX_METHOD_NAME_LENGTH \<and> length ms < MAX_SUPPORTED_METHODS \<and>
      abs_methods ms m = None")
    case True
    then have new: "methods_wf p (ms @ [?m])"
      using ms(2) cb Some by (intro methods_wf_snoc) auto
    have run: "rbus_registerMethod E n m callback data s =
        Some (RTMESSAGE_BUS_SUCCESS, unlock (obj_put p (ob\<lparr>methods := Some (ms @ [?m])\<rparr>) (lock s)))"
      using True wf Some ob ms
      by (simp add: rbus_registerMethod_def get_object_reg_find meths.size meths.push
          find_method abs_methods_def server_method_create_def)
    have spec: "spec_registerMethod n m (abs_callback callback data) (abs_reg s) =
        (RTMESSAGE_BUS_SUCCESS,
         (abs_reg s)(n \<mapsto> abs_object (ob\<lparr>methods := Some (ms @ [?m])\<rparr>)))"
      using True ob ms card_abs_methods [OF ms(2)] object_methods(2) [OF ob(2) new]
        abs_methods_snoc [of ms ?m]
      by (simp add: spec_registerMethod_def on_object_def spec_add_method_def ao)
    show ?thesis
      unfolding run spec using wf Some object_methods(1) [OF ob(2) new] ob(3)
      by (intro reg_step_put) simp_all
  next
    case False
    have "(abs_reg s)(n \<mapsto> abs_object ob) = abs_reg s" using ob(4) by (rule map_upd_triv)
    with False wf Some ob ms card_abs_methods [OF ms(2)] show ?thesis
      by (auto simp: rbus_registerMethod_def get_object_reg_find Let_def meths.size
          find_method spec_registerMethod_def on_object_def spec_add_method_def ao abs_methods_def
          reg_step_def)
  qed
qed

lemma unregisterMethod_step:
  assumes wf: "registry_wf E s"
  shows "reg_step E s (rbus_unregisterMethod E n m s) (spec_unregisterMethod n m (abs_reg s))"
proof (cases "reg_find s n")
  case None
  then show ?thesis using wf
    by (simp add: rbus_unregisterMethod_def spec_unregisterMethod_def get_object_reg_find Let_def
        reg_step_same on_object_missing)
next
  case (Some p)
  with wf obtain ob ms es where ob: "objs s p = Some ob" "object_wf E p ob" "so_name ob = n"
    "abs_reg s n = Some (abs_object ob)" and ms: "methods ob = Some ms" "methods_wf p ms"
    by (rule reg_find_abs)
  have ao: "ao_methods (abs_object ob) = abs_methods ms" using ms by (simp add: abs_object_def)
  show ?thesis
  proof (cases "table_map sm_name ms m")
    case None
    have "(abs_reg s)(n \<mapsto> abs_object ob) = abs_reg s" using ob(4) by (rule map_upd_triv)
    with None wf Some ob ms show ?thesis
      by (simp add: rbus_unregisterMethod_def spec_unregisterMethod_def get_object_reg_find Let_def
          on_object_found find_method ao abs_methods_def reg_step_def)
  next
    case found: (Some meth)
    let ?ob = "ob\<lparr>methods := Some (remove1 meth ms)\<rparr>"
    have rem: "rtVector_RemoveItem (meths_v E) (Some ms) meth = Some (remove1 meth ms)"
      using ms(2) found by (auto simp: methods_wf_def intro: meth.remove_found)
    have run: "rbus_unregisterMethod E n m s =
        Some (RTMESSAGE_BUS_SUCCESS, unlock (obj_put p ?ob (lock s)))"
      using wf Some ob ms found rem
      by (simp add: rbus_unregisterMethod_def get_object_reg_find Let_def find_method)
    have spec: "spec_unregisterMethod n m (abs_reg s) =
        (RTMESSAGE_BUS_SUCCESS, (abs_reg s)(n \<mapsto> abs_object ?ob))"
      using ob found object_methods(2) [OF ob(2) methods_wf_remove1 [OF ms(2)]]
        abs_methods_remove1 [OF ms(2) found]
      by (simp add: spec_unregisterMethod_def on_object_found ao) (simp add: abs_methods_def)
    show ?thesis
      unfolding run spec using wf Some object_methods(1) [OF ob(2) methods_wf_remove1 [OF ms(2)]] ob(3)
      by (intro reg_step_put) simp_all
  qed
qed

lemma unregisterEvent_step:
  assumes wf: "registry_wf E s"
  shows "reg_step E s (rbus_unregisterEvent E n event s) (spec_unregisterEvent n event (abs_reg s))"
proof (cases "reg_find s n")
  case None
  then show ?thesis using wf
    by (simp add: rbus_unregisterEvent_def spec_unregisterEvent_def get_object_reg_find Let_def
        reg_step_same on_object_missing)
next
  case (Some p)
  let ?ev = "case event of None \<Rightarrow> DEFAULT_EVENT | Some e \<Rightarrow> e"
  from wf Some obtain ob ms es where ob: "objs s p = Some ob" "object_wf E p ob" "so_name ob = n"
    "abs_reg s n = Some (abs_object ob)" and es: "subscriptions ob = Some es" "events_wf E p es"
    by (rule reg_find_abs)
  have ao: "ao_events (abs_object ob) = abs_events es" using es by (simp add: abs_object_def)
  show ?thesis
  proof (cases "table_map se_name es ?ev")
    case None
    have "(abs_reg s)(n \<mapsto> abs_object ob) = abs_reg s" using ob(4) by (rule map_upd_triv)
    with None wf Some ob es show ?thesis
      by (simp add: rbus_unregisterEvent_def spec_unregisterEvent_def get_object_reg_find Let_def
          on_object_found find_event ao abs_events_def reg_step_def)
  next
    case found: (Some evt)
    let ?ob = "ob\<lparr>subscriptions := Some (remove1 evt es)\<rparr>"
    have rem: "rtVector_RemoveItem (evts_v E) (Some es) evt = Some (remove1 evt es)"
      using es(2) found by (auto simp: events_wf_def intro: evt.remove_found)
    have run: "rbus_unregisterEvent E n event s =
        Some (RTMESSAGE_BUS_SUCCESS, unlock (obj_put p ?ob (lock s)))"
      using wf Some ob es found rem
      by (simp add: rbus_unregisterEvent_def get_object_reg_find Let_def find_event)
    have spec: "spec_unregisterEvent n event (abs_reg s) =
        (RTMESSAGE_BUS_SUCCESS, (abs_reg s)(n \<mapsto> abs_object ?ob))"
      using ob found object_events(2) [OF ob(2) events_wf_remove1 [OF es(2)]]
        abs_events_remove1 [OF es(2) found]
      by (simp add: spec_unregisterEvent_def on_object_found ao Let_def) (simp add: abs_events_def)
    show ?thesis
      unfolding run spec using wf Some object_events(1) [OF ob(2) events_wf_remove1 [OF es(2)]] ob(3)
      by (intro reg_step_put) simp_all
  qed
qed

lemma registerObj_answer:
  assumes wf: "registry_wf E s" and short: "\<forall>n. name = Some n \<longrightarrow> length n < 2 ^ 31"
    and answer: "answer = rt_result E (io s) (Rt_AddListener (the name) (On_Message (next_ptr s)))"
  shows "reg_step E s (rbus_registerObj E name (App_Callback f) data s)
    (spec_registerObj (MAX_OBJECT_NAME_LENGTH E) (g_connection s \<noteq> None) answer name (AM_App f data)
       (abs_reg s))"
proof (cases "\<exists>n. name = Some n \<and> g_connection s \<noteq> None \<and> n \<noteq> [] \<and>
    length n < MAX_OBJECT_NAME_LENGTH E \<and> reg_find s n = None")
  case False
  then show ?thesis using wf short
    by (auto simp: rbus_registerObj_def spec_registerObj_def get_object_reg_find reg_step_same
        abs_reg_def not_le bad_name_short split: option.split)
next
  case True
  then obtain n where n: "name = Some n" "g_connection s \<noteq> None" "n \<noteq> []"
      "length n < MAX_OBJECT_NAME_LENGTH E" "reg_find s n = None" by blast
  from wf obtain ps where ps: "g_server_objects s = Live (Some ps)"
    and fresh: "objs s (next_ptr s) = None" by (auto elim!: registry_wfE)
  let ?p = "next_ptr s" and ?c = "Rt_AddListener n (On_Message (next_ptr s))"
  let ?ob = "\<lparr>so_name = n, so_data = data, so_callback = App_Callback f,
    process_event_subscriptions = False, methods = Some [], subscriptions = Some [],
    subscribe_handler_override = None, subscribe_handler_data = UD_NULL\<rparr>"
  have ob: "object_wf E ?p ?ob"
    using n by (simp add: object_wf_def methods_wf_def events_wf_def)
  have ab: "abs_object ?ob = new_object (AM_App f data)"
    by (auto simp: abs_object_def new_object_def abs_methods_def abs_events_def)
  have none: "abs_reg s n = None" using n by (simp add: abs_reg_def)
  have len: "\<not> MAX_OBJECT_NAME_LENGTH E < length n" "\<not> bad_name E n"
    using n short bad_name_short [of n E] by auto
  show ?thesis
  proof (cases "rt_result E (io s) ?c = RT_OK")
    case True
    let ?t = "s\<lparr>objs := (objs s)(?p \<mapsto> ?ob), next_ptr := Suc ?p, g_server_objects := Live (Some (ps @ [?p]))\<rparr>"
    have "rbus_registerObj E name (App_Callback f) data s =
        Some (RTMESSAGE_BUS_SUCCESS, unlock (?t\<lparr>io := io s @ [?c]\<rparr>))"
      using True n wf ps len
      by (simp add: rbus_registerObj_def get_object_reg_find server_object_create_def rt_do_def
          meths.create evts.create objs.push)
    moreover have "reg_step E s (Some (RTMESSAGE_BUS_SUCCESS, unlock (?t\<lparr>io := io s @ [?c]\<rparr>)))
        (RTMESSAGE_BUS_SUCCESS, (abs_reg s)(n \<mapsto> new_object (AM_App f data)))"
      using reg_insert [OF wf ps n(5) refl ob] ab n(5)
      by (intro reg_stepI) (auto split: if_splits)
    ultimately show ?thesis using n none True by (auto simp: spec_registerObj_def answer)
  next
    case False
    let ?t = "s\<lparr>next_ptr := Suc ?p\<rparr>"
    have "rbus_registerObj E name (App_Callback f) data s =
        Some (RTMESSAGE_BUS_ERROR_GENERAL, unlock (?t\<lparr>io := io s @ [?c]\<rparr>))"
      using False n wf ps fresh len
      by (simp add: rbus_registerObj_def get_object_reg_find server_object_create_def rt_do_def
          server_object_destroy_def) (simp add: lock_def unlock_def fun_upd_idem)
    moreover have "registry_wf E ?t" "abs_reg ?t = abs_reg s"
      "reg_find ?t = reg_find s"
      using registry_cong [of ?t s] wf by simp_all
    then have "reg_step E s (Some (RTMESSAGE_BUS_ERROR_GENERAL, unlock (?t\<lparr>io := io s @ [?c]\<rparr>)))
        (RTMESSAGE_BUS_ERROR_GENERAL, abs_reg s)"
      by (intro reg_stepI) simp_all
    ultimately show ?thesis using n none False by (auto simp: spec_registerObj_def answer)
  qed
qed

text \<open>The router is asked, and an address is used, only when the name is acceptable and new.\<close>

lemma registerObj_trace:
  assumes wf: "registry_wf E s" and short: "\<forall>n. name = Some n \<longrightarrow> length n < 2 ^ 31"
    and run: "rbus_registerObj E name callback data s = Some (c, s')"
  defines "asks \<equiv> \<exists>n. name = Some n \<and> g_connection s \<noteq> None \<and> n \<noteq> [] \<and>
      length n < MAX_OBJECT_NAME_LENGTH E \<and> abs_reg s n = None"
  shows "io s' = io s @ (if asks then [Rt_AddListener (the name) (On_Message (next_ptr s))] else [])"
    and "next_ptr s' = next_ptr s + (if asks then 1 else 0)"
  using run wf short unfolding asks_def
  by (auto simp: rbus_registerObj_def get_object_reg_find abs_reg_def bad_name_short not_le rt_do_def
      server_object_create_def server_object_destroy_def Let_def
      split: if_splits option.splits Option.bind_splits)

lemma unregisterObj_step:
  assumes wf: "registry_wf E s"
  shows "reg_step E s (rbus_unregisterObj E name s)
    (spec_unregisterObj (MAX_OBJECT_NAME_LENGTH E) (rt_result E (io s) (Rt_RemoveListener (the name)))
       name (abs_reg s))"
proof (cases "\<exists>n p. name = Some n \<and> n \<noteq> [] \<and> length n < MAX_OBJECT_NAME_LENGTH E \<and>
    rt_result E (io s) (Rt_RemoveListener n) = RT_OK \<and> reg_find s n = Some p")
  case False
  then show ?thesis using wf
    by (auto simp: rbus_unregisterObj_def spec_unregisterObj_def get_object_reg_find reg_step_same
        abs_reg_def not_le rt_do_def split: option.split)
next
  case True
  then obtain n p where n: "name = Some n" "n \<noteq> []" "length n < MAX_OBJECT_NAME_LENGTH E"
      "rt_result E (io s) (Rt_RemoveListener n) = RT_OK" "reg_find s n = Some p" by blast
  from wf obtain ps where ps: "g_server_objects s = Live (Some ps)"
    and tab: "table_wf (obj_name (objs s)) (MAX_OBJECT_NAME_LENGTH E) ps"
    by (auto elim!: registry_wfE)
  have rem: "rtVector_RemoveItem (objs_v E) (Some ps) p = Some (remove1 p ps)"
    using tab n(5) ps named_table.remove_found [OF obj_table]
    by (simp add: reg_find_def objects_of_def)
  let ?t = "s\<lparr>g_server_objects := Live (Some (remove1 p ps)), objs := (objs s)(p := None)\<rparr>"
  have "rbus_unregisterObj E name s =
      Some (RTMESSAGE_BUS_SUCCESS, unlock (?t\<lparr>io := io s @ [Rt_RemoveListener n]\<rparr>))"
    using n wf ps rem
    by (simp add: rbus_unregisterObj_def get_object_reg_find rt_do_def server_object_destroy_def)
  moreover have "reg_step E s
      (Some (RTMESSAGE_BUS_SUCCESS, unlock (?t\<lparr>io := io s @ [Rt_RemoveListener n]\<rparr>)))
      (RTMESSAGE_BUS_SUCCESS, (abs_reg s)(n := None))"
    using reg_delete [OF wf ps n(5)]
    by (intro reg_stepI) (auto split: if_splits)
  ultimately show ?thesis using n by (auto simp: spec_unregisterObj_def abs_reg_def)
qed

lemma unregisterObj_trace:
  assumes "registry_wf E s" and "rbus_unregisterObj E name s = Some (c, s')"
  shows "io s' = io s @ (if \<exists>n. name = Some n \<and> n \<noteq> [] \<and> length n < MAX_OBJECT_NAME_LENGTH E
      then [Rt_RemoveListener (the name)] else [])"
    and "next_ptr s' = next_ptr s"
  using assms
  by (auto simp: rbus_unregisterObj_def get_object_reg_find not_le rt_do_def server_object_destroy_def
      Let_def split: if_splits option.splits Option.bind_splits)

lemma method_names_short:
  "length METHOD_ADD_EVENT_SUBSCRIPTION < MAX_METHOD_NAME_LENGTH"
  "length METHOD_REMOVE_EVENT_SUBSCRIPTION < MAX_METHOD_NAME_LENGTH"
  by (simp_all add: METHOD_ADD_EVENT_SUBSCRIPTION_def METHOD_REMOVE_EVENT_SUBSCRIPTION_def
      MAX_METHOD_NAME_LENGTH_def)

text \<open>Two steps on the same object, one after the other.\<close>

lemma reg_step_objectE:
  assumes "abs_reg s n = Some a" and "reg_step E s r (on_object n h (abs_reg s))"
  obtains s1 where "r = Some (fst (h a), s1)" and "registry_wf E s1"
    and "abs_reg s1 = (abs_reg s)(n \<mapsto> snd (h a))"
    and "\<forall>k q. reg_find s k = Some q \<longrightarrow> reg_find s1 k = Some q"
    and "g_mutex s1 \<longrightarrow> g_mutex s" and "server_core s1 = server_core s" and "next_ptr s \<le> next_ptr s1"
proof -
  from assms obtain s1 where s1: "r = Some (fst (h a), s1)" "registry_wf E s1"
      "abs_reg s1 = (abs_reg s)(n \<mapsto> snd (h a))" "g_mutex s1 \<longrightarrow> g_mutex s"
      "server_core s1 = server_core s" "next_ptr s \<le> next_ptr s1"
    and keep: "\<forall>k q. reg_find s k = Some q \<longrightarrow> abs_reg s1 k \<noteq> None \<longrightarrow> reg_find s1 k = Some q"
    by (auto simp: reg_step_def on_object_found)
  have "reg_find s1 k = Some q" if "reg_find s k = Some q" for k q
    using that keep s1(3) by (auto simp: abs_reg_def split: if_splits)
  with s1 that show thesis by blast
qed

lemma reg_step_then:
  assumes f: "reg_find s n = Some p"
    and r: "reg_step E s r (on_object n h (abs_reg s))"
    and k: "\<And>s1. registry_wf E s1 \<Longrightarrow> reg_find s1 n = Some p \<Longrightarrow>
      reg_step E s1 (k s1) (on_object n g (abs_reg s1))"
  shows "reg_step E s (do { (c, s1) \<leftarrow> r; if c \<noteq> RTMESSAGE_BUS_SUCCESS then Some (c, s1) else k s1 })
    (on_object n (obj_then h g) (abs_reg s))"
proof -
  from f obtain a where a: "abs_reg s n = Some a" by (auto simp: abs_reg_def)
  from a r obtain s1 where s1: "r = Some (fst (h a), s1)" "registry_wf E s1"
      "abs_reg s1 = (abs_reg s)(n \<mapsto> snd (h a))"
      "\<forall>k q. reg_find s k = Some q \<longrightarrow> reg_find s1 k = Some q"
      "g_mutex s1 \<longrightarrow> g_mutex s" "server_core s1 = server_core s" "next_ptr s \<le> next_ptr s1"
    by (rule reg_step_objectE)
  show ?thesis
  proof (cases "fst (h a) = RTMESSAGE_BUS_SUCCESS")
    case False
    then show ?thesis using s1 a
      by (auto simp: on_object_found obj_then_def case_prod_beta intro!: reg_stepI)
  next
    case True
    have f1: "reg_find s1 n = Some p" and a1: "abs_reg s1 n = Some (snd (h a))"
      using s1(3,4) f by simp_all
    from a1 k [OF s1(2) f1] obtain s2 where "k s1 = Some (fst (g (snd (h a))), s2)"
      "registry_wf E s2" "abs_reg s2 = (abs_reg s1)(n \<mapsto> snd (g (snd (h a))))"
      "\<forall>k q. reg_find s1 k = Some q \<longrightarrow> reg_find s2 k = Some q"
      "g_mutex s2 \<longrightarrow> g_mutex s1" "server_core s2 = server_core s1" "next_ptr s1 \<le> next_ptr s2"
      by (rule reg_step_objectE)
    then show ?thesis using True s1 a
      by (auto simp: on_object_found obj_then_def case_prod_beta intro!: reg_stepI)
  qed
qed

text \<open>The three steps of \<open>install_subscription_handlers\<close>.\<close>

lemma register_handler_step:
  assumes "registry_wf E s" and "reg_find s n = Some p" and "length m < MAX_METHOD_NAME_LENGTH"
  shows "reg_step E s (rbus_registerMethod E n m Subscription_Handler (UD_Object p) s)
    (on_object n (spec_add_method m AM_Subscription) (abs_reg s))"
  using registerMethod_step [OF assms(1), where n = n and callback = Subscription_Handler
      and data = "UD_Object p" and m = m] assms
  by (simp add: spec_registerMethod_def)

lemma put_object_step:
  assumes wf: "registry_wf E s" and f: "reg_find s n = Some p"
    and g: "\<And>ob. object_wf E p ob \<Longrightarrow> object_wf E p (g ob) \<and> so_name (g ob) = so_name ob \<and>
      abs_object (g ob) = h (abs_object ob)"
  shows "reg_step E s (do { ob \<leftarrow> objs s p; Some (c, obj_put p (g ob) s) })
    (on_object n (\<lambda>a. (c, h a)) (abs_reg s))"
proof -
  from wf f obtain ob where ob: "objs s p = Some ob" "object_wf E p ob" "so_name ob = n"
    and ab: "abs_reg s n = Some (abs_object ob)"
    by (rule reg_find_abs)
  from g ob have "object_wf E p (g ob)" "so_name (g ob) = n" by simp_all
  from reg_update [OF wf f this] show ?thesis
    using ob ab g by (auto simp: on_object_found obj_put_def intro!: reg_stepI)
qed

lemma ensure_handlers_step:
  assumes wf: "registry_wf E s" and f: "reg_find s n = Some p"
  shows "reg_step E s (ensure_subscription_handlers E p s)
    (on_object n spec_ensure_handlers (abs_reg s))"
proof -
  from wf f obtain ob ms where ob: "objs s p = Some ob" "so_name ob = n"
    and ab: "abs_reg s n = Some (abs_object ob)" and ms: "methods ob = Some ms" "methods_wf p ms"
    by (rule reg_find_abs)
  let ?a = "abs_object ob"
  have a: "ao_processing ?a = process_event_subscriptions ob" "ao_methods ?a = abs_methods ms"
    using ms by (simp_all add: abs_object_def)
  show ?thesis
  proof (cases "process_event_subscriptions ob \<or> abs_methods ms METHOD_ADD_EVENT_SUBSCRIPTION \<noteq> None")
    case True
    then have "ensure_subscription_handlers E p s = Some (RTMESSAGE_BUS_SUCCESS, s)"
      using ob ms by (auto simp: ensure_subscription_handlers_def install_subscription_handlers_def
          find_method abs_methods_def)
    moreover have "(abs_reg s)(n \<mapsto> ?a) = abs_reg s" using ab by (rule map_upd_triv)
    ultimately show ?thesis
      using True ab wf by (auto simp: on_object_found spec_ensure_handlers_def a reg_step_same)
  next
    case False
    let ?reg = "\<lambda>m. rbus_registerMethod E n m Subscription_Handler (UD_Object p)"
    let ?set = "\<lambda>s. do { ob2 \<leftarrow> objs s p;
        Some (RTMESSAGE_BUS_SUCCESS, obj_put p (ob2\<lparr>process_event_subscriptions := True\<rparr>) s) }"
    have set_ok: "reg_step E t (?set t) (on_object n
        (\<lambda>ob. (RTMESSAGE_BUS_SUCCESS, ob\<lparr>ao_processing := True\<rparr>)) (abs_reg t))"
      if "registry_wf E t" "reg_find t n = Some p" for t
      using that by (rule put_object_step) (auto simp: object_wf_def abs_object_def)
    have "ensure_subscription_handlers E p s =
        do { (c, s1) \<leftarrow> ?reg METHOD_ADD_EVENT_SUBSCRIPTION s;
             if c \<noteq> RTMESSAGE_BUS_SUCCESS then Some (c, s1)
             else do { (c, s2) \<leftarrow> ?reg METHOD_REMOVE_EVENT_SUBSCRIPTION s1;
                       if c \<noteq> RTMESSAGE_BUS_SUCCESS then Some (c, s2) else ?set s2 } }"
      using False ob(1) ms unfolding ob(2) [symmetric]
      by (auto simp: ensure_subscription_handlers_def install_subscription_handlers_def find_method
          abs_methods_def intro!: Option.bind_cong split: prod.split)
    moreover have "on_object n spec_ensure_handlers (abs_reg s) = on_object n
        (obj_then (spec_add_method METHOD_ADD_EVENT_SUBSCRIPTION AM_Subscription)
          (obj_then (spec_add_method METHOD_REMOVE_EVENT_SUBSCRIPTION AM_Subscription)
            (\<lambda>ob. (RTMESSAGE_BUS_SUCCESS, ob\<lparr>ao_processing := True\<rparr>)))) (abs_reg s)"
      using False ab by (simp add: on_object_found spec_ensure_handlers_def a)
    ultimately show ?thesis
      using set_ok wf f method_names_short
      by (simp only:) (intro reg_step_then register_handler_step; assumption)
  qed
qed

lemma put_ensure_step:
  assumes wf: "registry_wf E s" and f: "reg_find s n = Some p"
    and g: "\<And>ob. object_wf E p ob \<Longrightarrow> object_wf E p (g ob) \<and> so_name (g ob) = so_name ob \<and>
      abs_object (g ob) = h (abs_object ob)"
  shows "reg_step E s (do { ob \<leftarrow> objs s p; ensure_subscription_handlers E p (obj_put p (g ob) s) })
    (on_object n (\<lambda>a. spec_ensure_handlers (h a)) (abs_reg s))"
proof -
  let ?put = "do { ob \<leftarrow> objs s p; Some (RTMESSAGE_BUS_SUCCESS, obj_put p (g ob) s) }"
  have "reg_step E s ?put (on_object n (\<lambda>a. (RTMESSAGE_BUS_SUCCESS, h a)) (abs_reg s))"
    using wf f g by (rule put_object_step)
  from reg_step_then [OF f this, where k = "ensure_subscription_handlers E p", OF ensure_handlers_step]
  show ?thesis by (cases "objs s p") (simp_all add: obj_then_def [abs_def])
qed

text \<open>A critical section: the steps run with the mutex held, then it is released.\<close>

lemma reg_step_section:
  assumes "reg_step E (lock s) r sp"
  shows "reg_step E s (do { (c, s') \<leftarrow> r; Some (c, unlock s') }) sp"
  using assms by (auto simp: reg_step_def)

lemma obj_put_same: "objs s p = Some ob \<Longrightarrow> obj_put p ob s = s"
  by (simp add: obj_put_def map_upd_triv)

definition add_event :: "string \<Rightarrow> ptr \<Rightarrow> fnptr option \<Rightarrow> user_data \<Rightarrow> server_object \<Rightarrow> server_object" where
  "add_event ev p f data ob =
     (if ev \<in> se_name ` set (the (subscriptions ob)) then ob
      else ob\<lparr>subscriptions := Some (the (subscriptions ob) @
        [\<lparr>se_name = ev, se_object = p, listeners = Some [], sub_callback = f, sub_data = data\<rparr>])\<rparr>)"

lemma add_event_object:
  assumes ob: "object_wf E p ob" and len: "length ev < MAX_EVENT_NAME_LENGTH E"
  shows "object_wf E p (add_event ev p f data ob) \<and> so_name (add_event ev p f data ob) = so_name ob \<and>
    abs_object (add_event ev p f data ob) =
      (if ao_events (abs_object ob) ev \<noteq> None then abs_object ob
       else (abs_object ob)\<lparr>ao_events := (ao_events (abs_object ob))(ev \<mapsto>
         \<lparr>ae_listeners = [], ae_callback = f, ae_data = data\<rparr>)\<rparr>)"
proof -
  from ob obtain es where es: "subscriptions ob = Some es" "events_wf E p es"
    by (auto simp: object_wf_def)
  let ?e = "\<lparr>se_name = ev, se_object = p, listeners = Some [], sub_callback = f, sub_data = data\<rparr>"
  have dom: "ev \<in> se_name ` set es \<longleftrightarrow> ao_events (abs_object ob) ev \<noteq> None"
    using es by (simp add: abs_object_def abs_events_def table_map_None_iff)
  show ?thesis
  proof (cases "ev \<in> se_name ` set es")
    case False
    then have none: "abs_events es (se_name ?e) = None"
      by (simp add: abs_events_def table_map_None_iff)
    then have "events_wf E p (es @ [?e])" using es len by (intro events_wf_snoc [where ls = "[]"]) simp_all
    from object_events [OF ob this] show ?thesis
      using False es dom abs_events_snoc [OF none]
      by (simp add: add_event_def) (simp add: abs_object_def abs_server_event_def)
  qed (use es dom ob in \<open>simp add: add_event_def\<close>)
qed

lemma registerEvent_step:
  assumes wf: "registry_wf E s"
  shows "reg_step E s (rbus_registerEvent E name event f data s)
    (spec_registerEvent (MAX_EVENT_NAME_LENGTH E) (g_connection s \<noteq> None) name event f data (abs_reg s))"
proof (cases "\<exists>n p. g_connection s \<noteq> None \<and> name = Some n \<and> reg_find s n = Some p \<and>
    length (case event of None \<Rightarrow> DEFAULT_EVENT | Some e \<Rightarrow> e) < MAX_EVENT_NAME_LENGTH E")
  case False
  then show ?thesis using wf
    by (auto simp: rbus_registerEvent_def spec_registerEvent_def get_object_reg_find reg_step_same
        on_object_missing strnlen_ge_iff Let_def not_le split: option.split)
next
  case True
  let ?ev = "case event of None \<Rightarrow> DEFAULT_EVENT | Some e \<Rightarrow> e"
  from True obtain n p where n: "g_connection s \<noteq> None" "name = Some n"
    and f: "reg_find (lock s) n = Some p" and len: "length ?ev < MAX_EVENT_NAME_LENGTH E" by auto
  have wf1: "registry_wf E (lock s)" using wf by simp
  from wf1 f obtain ob es where ob: "objs s p = Some ob"
    and es: "subscriptions ob = Some es" "events_wf E p es" by (rule reg_find_abs) simp
  have "rbus_registerEvent E name event f data s =
      do { (c, s') \<leftarrow> do { ob \<leftarrow> objs (lock s) p;
             ensure_subscription_handlers E p (obj_put p (add_event ?ev p f data ob) (lock s)) };
           Some (c, unlock s') }"
    using n f len wf wf1 ob es table_map_None_iff [of se_name es ?ev]
    by (cases "table_map se_name es ?ev")
      (simp_all add: rbus_registerEvent_def get_object_reg_find strnlen_ge_iff Let_def not_le find_event
        add_event_def obj_put_same server_event_create_def lsnrs.create evts.push
        del: not_None_eq)
  moreover have "reg_step E (lock s) (do { ob \<leftarrow> objs (lock s) p;
             ensure_subscription_handlers E p (obj_put p (add_event ?ev p f data ob) (lock s)) })
      (spec_registerEvent (MAX_EVENT_NAME_LENGTH E) (g_connection s \<noteq> None) name event f data (abs_reg s))"
    using put_ensure_step [OF wf1 f add_event_object [OF _ len]] n len
    by (simp add: spec_registerEvent_def Let_def)
  ultimately show ?thesis by (simp only: reg_step_section)
qed

lemma registerSubscribeHandler_step:
  assumes wf: "registry_wf E s"
  shows "reg_step E s (rbus_registerSubscribeHandler E name callback data s)
    (spec_registerSubscribeHandler name callback data (abs_reg s))"
proof (cases "\<exists>n f p. name = Some n \<and> callback = Some f \<and> reg_find s n = Some p")
  case False
  then show ?thesis using wf
    by (auto simp: rbus_registerSubscribeHandler_def spec_registerSubscribeHandler_def
        get_object_reg_find reg_step_same on_object_missing split: option.split)
next
  case True
  then obtain n g p where n: "name = Some n" "callback = Some g"
    and f: "reg_find (lock s) n = Some p" by auto
  let ?put = "\<lambda>ob. ob\<lparr>subscribe_handler_override := Some g, subscribe_handler_data := data\<rparr>"
  have wf1: "registry_wf E (lock s)" using wf by simp
  have put: "object_wf E p ob \<Longrightarrow> object_wf E p (?put ob) \<and> so_name (?put ob) = so_name ob \<and>
      abs_object (?put ob) = (abs_object ob)\<lparr>ao_override := Some (g, data)\<rparr>" for ob
    by (simp add: object_wf_def abs_object_def)
  have "rbus_registerSubscribeHandler E name callback data s =
      do { (c, s') \<leftarrow> do { ob \<leftarrow> objs (lock s) p;
             ensure_subscription_handlers E p (obj_put p (?put ob) (lock s)) };
           Some (c, unlock s') }"
    using n f wf wf1
    by (cases "objs s p") (auto simp: rbus_registerSubscribeHandler_def get_object_reg_find)
  moreover have "reg_step E (lock s) (do { ob \<leftarrow> objs (lock s) p;
             ensure_subscription_handlers E p (obj_put p (?put ob) (lock s)) })
      (spec_registerSubscribeHandler name callback data (abs_reg s))"
    using put_ensure_step [OF wf1 f put] n
    by (simp add: spec_registerSubscribeHandler_def)
  ultimately show ?thesis by (simp only: reg_step_section)
qed

text \<open>The other operations ask the router nothing and create no object.\<close>

lemma registerMethod_quiet:
  "rbus_registerMethod E n m callback data s = Some (c, s') \<Longrightarrow> io s' = io s \<and> next_ptr s' = next_ptr s"
  by (auto simp: rbus_registerMethod_def obj_put_def Let_def
      split: if_splits option.splits Option.bind_splits)

lemma unregisterMethod_quiet:
  "rbus_unregisterMethod E n m s = Some (c, s') \<Longrightarrow> io s' = io s \<and> next_ptr s' = next_ptr s"
  by (auto simp: rbus_unregisterMethod_def obj_put_def Let_def
      split: if_splits option.splits Option.bind_splits)

lemma unregisterEvent_quiet:
  "rbus_unregisterEvent E n ev s = Some (c, s') \<Longrightarrow> io s' = io s \<and> next_ptr s' = next_ptr s"
  by (auto simp: rbus_unregisterEvent_def obj_put_def Let_def
      split: if_splits option.splits Option.bind_splits)

lemma ensure_handlers_quiet:
  "ensure_subscription_handlers E p s = Some (c, s') \<Longrightarrow> io s' = io s \<and> next_ptr s' = next_ptr s"
  by (auto simp: ensure_subscription_handlers_def install_subscription_handlers_def obj_put_def
      dest!: registerMethod_quiet split: if_splits option.splits Option.bind_splits)

lemma registerEvent_quiet:
  "rbus_registerEvent E n ev f data s = Some (c, s') \<Longrightarrow> io s' = io s \<and> next_ptr s' = next_ptr s"
  by (auto simp: rbus_registerEvent_def obj_put_def Let_def
      dest!: ensure_handlers_quiet split: if_splits option.splits Option.bind_splits)

lemma registerSubscribeHandler_quiet:
  "rbus_registerSubscribeHandler E n f data s = Some (c, s') \<Longrightarrow> io s' = io s \<and> next_ptr s' = next_ptr s"
  by (auto simp: rbus_registerSubscribeHandler_def obj_put_def Let_def
      dest!: ensure_handlers_quiet split: if_splits option.splits Option.bind_splits)

end

section \<open>Sequences of operations\<close>

text \<open>
  A generic interface: a component whose operations return a code and a new state, the operations
  that are in its contract, an invariant, an abstraction, and a specification, a function from the
  abstract state to the code and the abstract state after the operation.  Its law is the simulation of one
  operation; the lemma is the simulation of every sequence.
\<close>

fun run_ops ::
    "('op \<Rightarrow> 's \<Rightarrow> ('c \<times> 's) option) \<Rightarrow> 'op list \<Rightarrow> 's \<Rightarrow> ('c list \<times> 's) option" where
  "run_ops run [] s = Some ([], s)"
| "run_ops run (x # xs) s = do {
     (c, s1) \<leftarrow> run x s;
     (cs, s2) \<leftarrow> run_ops run xs s1;
     Some (c # cs, s2)
   }"

fun spec_ops :: "('op \<Rightarrow> 'a \<Rightarrow> 'c \<times> 'a) \<Rightarrow> 'op list \<Rightarrow> 'a \<Rightarrow> 'c list \<times> 'a" where
  "spec_ops spec [] A = ([], A)"
| "spec_ops spec (x # xs) A =
     (case spec x A of (c, A1) \<Rightarrow> (case spec_ops spec xs A1 of (cs, A2) \<Rightarrow> (c # cs, A2)))"

locale refinement =
  fixes run :: "'op \<Rightarrow> 's \<Rightarrow> ('c \<times> 's) option"
    and ok :: "'op \<Rightarrow> bool"
    and inv :: "'s \<Rightarrow> bool"
    and abs :: "'s \<Rightarrow> 'a"
    and spec :: "'op \<Rightarrow> 'a \<Rightarrow> 'c \<times> 'a"
  assumes simulates: "inv s \<Longrightarrow> ok x \<Longrightarrow> \<exists>c s'. run x s = Some (c, s') \<and> inv s' \<and> spec x (abs s) = (c, abs s')"
begin

lemma run_ops_refines:
  "inv s \<Longrightarrow> \<forall>x\<in>set xs. ok x \<Longrightarrow>
   \<exists>cs s'. run_ops run xs s = Some (cs, s') \<and> inv s' \<and> spec_ops spec xs (abs s) = (cs, abs s')"
proof (induction xs arbitrary: s)
  case (Cons x xs)
  from Cons.prems(2) simulates [OF Cons.prems(1), of x] obtain c s1
    where "run x s = Some (c, s1)" "inv s1" "spec x (abs s) = (c, abs s1)" by auto
  moreover from Cons.IH [OF \<open>inv s1\<close>] Cons.prems(2) obtain cs s'
    where "run_ops run xs s1 = Some (cs, s')" "inv s'" "spec_ops spec xs (abs s1) = (cs, abs s')" by auto
  ultimately show ?case by simp
qed simp

end

section \<open>The server's interface\<close>

text \<open>The calls an application makes on the registry.\<close>

datatype server_op =
    Register_Obj "string option" fnptr user_data
  | Unregister_Obj "string option"
  | Register_Method string string fnptr user_data
  | Unregister_Method string string
  | Register_Event "string option" "string option" "fnptr option" user_data
  | Unregister_Event string "string option"
  | Register_Subscribe_Handler "string option" "fnptr option" user_data

fun server_call :: "runtime \<Rightarrow> server_op \<Rightarrow> rbus_state \<Rightarrow> (rbus_error_t \<times> rbus_state) option" where
  "server_call E (Register_Obj n f d) s = rbus_registerObj E n (App_Callback f) d s"
| "server_call E (Unregister_Obj n) s = rbus_unregisterObj E n s"
| "server_call E (Register_Method n m f d) s = rbus_registerMethod E n m (App_Callback f) d s"
| "server_call E (Unregister_Method n m) s = rbus_unregisterMethod E n m s"
| "server_call E (Register_Event n e f d) s = rbus_registerEvent E n e f d s"
| "server_call E (Unregister_Event n e) s = rbus_unregisterEvent E n e s"
| "server_call E (Register_Subscribe_Handler n f d) s = rbus_registerSubscribeHandler E n f d s"

text \<open>
  The names the calls may have: \<open>rbus_registerObj\<close> converts the length of the name to \<open>int\<close>, so it
  checks names of less than \<open>2 ^ 31\<close> bytes only.
\<close>

fun server_op_ok :: "server_op \<Rightarrow> bool" where
  "server_op_ok (Register_Obj (Some n) f d) \<longleftrightarrow> length n < 2 ^ 31"
| "server_op_ok _ \<longleftrightarrow> True"

text \<open>
  The specification of a call: the request it makes to the router, if any, and the code and the registry
  for the router's answer.  \<open>lim\<close> is the limit of names, \<open>p\<close> the address of a new object.
\<close>

fun router_call :: "nat \<Rightarrow> bool \<Rightarrow> server_op \<Rightarrow> abs_registry \<Rightarrow> ptr \<Rightarrow> io_call option" where
  "router_call lim conn (Register_Obj (Some n) f d) A p =
     (if conn \<and> n \<noteq> [] \<and> length n < lim \<and> A n = None then Some (Rt_AddListener n (On_Message p)) else None)"
| "router_call lim conn (Unregister_Obj (Some n)) A p =
     (if n \<noteq> [] \<and> length n < lim then Some (Rt_RemoveListener n) else None)"
| "router_call lim conn _ A p = None"

fun server_spec :: "nat \<Rightarrow> bool \<Rightarrow> rtError \<Rightarrow> server_op \<Rightarrow> abs_registry \<Rightarrow> rbus_error_t \<times> abs_registry" where
  "server_spec lim conn ans (Register_Obj n f d) A = spec_registerObj lim conn ans n (AM_App f d) A"
| "server_spec lim conn ans (Unregister_Obj n) A = spec_unregisterObj lim ans n A"
| "server_spec lim conn ans (Register_Method n m f d) A = spec_registerMethod n m (AM_App f d) A"
| "server_spec lim conn ans (Unregister_Method n m) A = spec_unregisterMethod n m A"
| "server_spec lim conn ans (Register_Event n e f d) A = spec_registerEvent lim conn n e f d A"
| "server_spec lim conn ans (Unregister_Event n e) A = spec_unregisterEvent n e A"
| "server_spec lim conn ans (Register_Subscribe_Handler n f d) A =
     spec_registerSubscribeHandler n f d A"

text \<open>
  Put together: a function on the registry, the trace of the router and the next free address.  The answer
  is the router's answer to the request that the call appends to the trace.
\<close>

type_synonym server_abs = "abs_registry \<times> io_call list \<times> ptr"

fun server_step :: "runtime \<Rightarrow> bool \<Rightarrow> server_op \<Rightarrow> server_abs \<Rightarrow> rbus_error_t \<times> server_abs" where
  "server_step E conn x (A, t, p) =
     (case router_call (MAX_OBJECT_NAME_LENGTH E) conn x A p of
        None \<Rightarrow> (case server_spec (MAX_OBJECT_NAME_LENGTH E) conn RT_OK x A of (c, A') \<Rightarrow> (c, A', t, p))
      | Some call \<Rightarrow>
          (case server_spec (MAX_OBJECT_NAME_LENGTH E) conn (rt_result E t call) x A of
             (c, A') \<Rightarrow> (c, A', t @ [call], (case call of Rt_AddListener _ _ \<Rightarrow> Suc p | _ \<Rightarrow> p))))"

definition server_abs :: "rbus_state \<Rightarrow> server_abs" where
  "server_abs s = (abs_reg s, io s, next_ptr s)"

text \<open>The state between two calls: a well-formed registry, the mutex free.\<close>

definition server_inv :: "runtime \<Rightarrow> bool \<Rightarrow> rbus_state \<Rightarrow> bool" where
  "server_inv E conn s \<longleftrightarrow> registry_wf E s \<and> \<not> g_mutex s \<and> (g_connection s \<noteq> None) = conn"

lemma server_core_connection: "server_core s = server_core t \<Longrightarrow> g_connection s = g_connection t"
  by (drule arg_cong [where f = g_connection]) (simp add: server_core_def)

context rbus_runtime
begin

text \<open>The answer that decides the code is the router's answer to the request the call makes.\<close>

lemma server_spec_answer:
  "router_call lim conn x A p = None \<Longrightarrow> server_spec lim conn ans x A = server_spec lim conn RT_OK x A"
  by (induction lim conn x A p rule: router_call.induct)
    (auto simp: spec_registerObj_def spec_unregisterObj_def split: option.splits if_splits)

definition router_answer :: "server_op \<Rightarrow> rbus_state \<Rightarrow> rtError" where
  "router_answer x s =
     (case router_call (MAX_OBJECT_NAME_LENGTH E) (g_connection s \<noteq> None) x (abs_reg s) (next_ptr s) of
        None \<Rightarrow> RT_OK | Some call \<Rightarrow> rt_result E (io s) call)"

lemma server_call_step:
  assumes "registry_wf E s" and "server_op_ok x"
  shows "reg_step E s (server_call E x s)
    (server_spec (MAX_OBJECT_NAME_LENGTH E) (g_connection s \<noteq> None) (router_answer x s) x (abs_reg s))"
proof -
  let ?lim = "MAX_OBJECT_NAME_LENGTH E" and ?conn = "g_connection s \<noteq> None"
  have "\<exists>ans. reg_step E s (server_call E x s) (server_spec ?lim ?conn ans x (abs_reg s)) \<and>
      (router_call ?lim ?conn x (abs_reg s) (next_ptr s) \<noteq> None \<longrightarrow> ans = router_answer x s)"
  proof (cases x)
    case (Register_Obj name f d)
    then show ?thesis
      using registerObj_answer [OF assms(1) _ refl, of name f d] assms(2)
      by (cases name) (auto simp: router_answer_def simp del: not_None_eq)
  next
    case (Unregister_Obj name)
    then show ?thesis
      using unregisterObj_step [OF assms(1), of name]
      by (cases name) (auto simp: router_answer_def simp del: not_None_eq)
  next
    case (Register_Method n m f d)
    then show ?thesis
      using registerMethod_step [OF assms(1), of "App_Callback f" n d m] by simp
  qed (simp_all add: assms(1) unregisterMethod_step registerEvent_step unregisterEvent_step
      registerSubscribeHandler_step del: not_None_eq)
  then show ?thesis
    using server_spec_answer by (metis (no_types, lifting))
qed

lemma server_call_trace:
  assumes "registry_wf E s" and "server_op_ok x" and "server_call E x s = Some (c, s')"
  shows "(io s', next_ptr s') =
    (case router_call (MAX_OBJECT_NAME_LENGTH E) (g_connection s \<noteq> None) x (abs_reg s) (next_ptr s) of
       None \<Rightarrow> (io s, next_ptr s)
     | Some call \<Rightarrow> (io s @ [call], (case call of Rt_AddListener _ _ \<Rightarrow> Suc (next_ptr s) | _ \<Rightarrow> next_ptr s)))"
  using assms
proof (cases x)
  case (Register_Obj name f d)
  then show ?thesis
    using registerObj_trace [OF assms(1), of name "App_Callback f" d c s'] assms(2,3)
    by (cases name) (auto simp del: not_None_eq)
next
  case (Unregister_Obj name)
  then show ?thesis
    using unregisterObj_trace [OF assms(1), of name c s'] assms(3) by (cases name) auto
qed (auto dest: registerMethod_quiet unregisterMethod_quiet registerEvent_quiet unregisterEvent_quiet
    registerSubscribeHandler_quiet)

lemma server_call_refines:
  assumes "registry_wf E s" and "server_op_ok x"
  obtains c s' where "server_call E x s = Some (c, s')" and "registry_wf E s'"
    and "server_step E (g_connection s \<noteq> None) x (server_abs s) = (c, server_abs s')"
    and "g_mutex s' \<longrightarrow> g_mutex s" and "next_ptr s \<le> next_ptr s'" and "server_core s' = server_core s"
proof -
  let ?sp = "server_spec (MAX_OBJECT_NAME_LENGTH E) (g_connection s \<noteq> None) (router_answer x s) x (abs_reg s)"
  from server_call_step [OF assms] obtain s' where s': "server_call E x s = Some (fst ?sp, s')"
    "registry_wf E s'" "abs_reg s' = snd ?sp" "g_mutex s' \<longrightarrow> g_mutex s" "next_ptr s \<le> next_ptr s'"
    "server_core s' = server_core s" by (auto simp: reg_step_def)
  have "server_step E (g_connection s \<noteq> None) x (server_abs s) = (fst ?sp, server_abs s')"
    using server_call_trace [OF assms s'(1)] s'(3)
    by (auto simp: server_abs_def router_answer_def case_prod_beta simp del: not_None_eq
        split: option.splits)
  with s' that show thesis by blast
qed

end

sublocale rbus_runtime \<subseteq> server: refinement "server_call E" server_op_ok "server_inv E conn" server_abs
    "server_step E conn" for conn
proof unfold_locales
  fix s x
  assume inv: "server_inv E conn s" and ok: "server_op_ok x"
  then have wf: "registry_wf E s" by (simp add: server_inv_def)
  from server_call_refines [OF wf ok] obtain c s' where "server_call E x s = Some (c, s')" "registry_wf E s'"
    "server_step E (g_connection s \<noteq> None) x (server_abs s) = (c, server_abs s')" "g_mutex s' \<longrightarrow> g_mutex s"
    "g_connection s' = g_connection s"
    by (metis server_core_connection)
  with inv show "\<exists>c s'. server_call E x s = Some (c, s') \<and> server_inv E conn s' \<and>
      server_step E conn x (server_abs s) = (c, server_abs s')"
    by (auto simp: server_inv_def simp del: not_None_eq)
qed

context rbus_runtime
begin

lemma server_ops_refine:
  "server_inv E conn s \<Longrightarrow> \<forall>x\<in>set xs. server_op_ok x \<Longrightarrow>
   \<exists>cs s'. run_ops (server_call E) xs s = Some (cs, s') \<and> server_inv E conn s' \<and>
     spec_ops (server_step E conn) xs (server_abs s) = (cs, server_abs s')"
  by (rule server.run_ops_refines)

lemma server_call_inv:
  "server_inv E conn s \<Longrightarrow> server_op_ok x \<Longrightarrow> server_call E x s = Some (c, s') \<Longrightarrow> server_inv E conn s'"
  by (drule server.simulates [of conn s x]) auto

text \<open>
  The test on the \<open>int\<close> length: a name of \<open>2 ^ 31\<close> bytes passes it, and \<open>strcpy\<close> overruns the
  name of the new object.
\<close>

lemma long_name_overruns:
  assumes wf: "registry_wf E s" and conn: "g_connection s \<noteq> None"
    and len: "2 ^ 31 \<le> length n" "length n < 2 ^ 32" "MAX_OBJECT_NAME_LENGTH E < 2 ^ 31"
  shows "rbus_registerObj E (Some n) callback data s = None"
proof -
  have "\<not> bad_name E n" using strlen_int_negative [OF len(1,2)] len by (simp add: bad_name_def)
  moreover have "reg_find s n = None"
  proof (cases "reg_find s n")
    case (Some p)
    with wf obtain ob where "object_wf E p ob" "so_name ob = n" by (rule reg_find_SomeD)
    with len show ?thesis by (simp add: object_wf_def)
  qed
  ultimately show ?thesis
    using wf conn len by (auto simp: rbus_registerObj_def get_object_reg_find server_object_create_def)
qed

end

section \<open>Properties\<close>

text \<open>
  C2. The registry refines its specification, a function on the registry, the trace of the router and the next
  free address: any sequence of registrations and unregistrations of objects, methods, events and subscribe
  handlers, with object names of less than \<open>2 ^ 31\<close> bytes, runs to its end without undefined behaviour,
  makes exactly the specified requests to the router, returns the specified codes (those of the router's
  answers to these requests), and leaves the specified registry, well-formed, with the mutex released.
\<close>

theorem server_refines:
  assumes "rbus_runtime E" and "server_inv E conn s" and "\<forall>x\<in>set ops. server_op_ok x"
  shows "\<exists>cs s'. run_ops (server_call E) ops s = Some (cs, s') \<and> server_inv E conn s' \<and>
    spec_ops (server_step E conn) ops (server_abs s) = (cs, server_abs s')"
  using rbus_runtime.server_ops_refine [OF assms] .

text \<open>A connected process with an empty registry.\<close>

definition ready_state :: rbus_state where
  "ready_state = initial_state\<lparr>g_connection := Some 1, g_mutex_init := True,
     g_server_objects := Live (Some []), g_event_subscriptions_for_client := Live (Some [])\<rparr>"

lemma ready_state_inv: "server_inv E True ready_state" "abs_reg ready_state = Map.empty"
  by (auto simp: ready_state_def server_inv_def registry_wf_def initial_state_def abs_reg_def
      reg_find_def objects_of_def)

lemmas server_run_defs = rbus_registerObj_def bad_name_short rbus_unregisterObj_def rbus_registerMethod_def
  rbus_unregisterMethod_def rbus_registerEvent_def rbus_unregisterEvent_def
  rbus_registerSubscribeHandler_def ensure_subscription_handlers_def install_subscription_handlers_def
  get_object_def server_object_create_def server_object_destroy_def server_method_create_def
  server_event_create_def server_method_compare_def server_event_compare_def
  server_object_compare_def rt_do_def obj_put_def MAX_METHOD_NAME_LENGTH_def MAX_SUPPORTED_METHODS_def
  METHOD_ADD_EVENT_SUBSCRIPTION_def METHOD_REMOVE_EVENT_SUBSCRIPTION_def DEFAULT_EVENT_def
  list_vector_def strnlen_def strncmp_0_iff lock_def unlock_def std_runtime_def
  calm_world_def ready_state_def initial_state_def

definition demo_ops :: "server_op list" where
  "demo_ops =
     [Register_Obj (Some ''obj'') 1 UD_NULL, Register_Method ''obj'' ''get'' 2 UD_NULL,
      Register_Method ''obj'' ''get'' 3 UD_NULL, Register_Event (Some ''obj'') (Some ''e'') None UD_NULL,
      Unregister_Method ''obj'' ''set'', Unregister_Obj (Some ''none'')]"

lemma demo_ops_ok: "\<forall>x\<in>set demo_ops. server_op_ok x"
  by (simp add: demo_ops_def)

lemma demo_run:
  "map_option fst (run_ops (server_call (std_runtime calm_world)) demo_ops ready_state) =
     Some [RTMESSAGE_BUS_SUCCESS, RTMESSAGE_BUS_SUCCESS, RTMESSAGE_BUS_ERROR_INVALID_PARAM,
           RTMESSAGE_BUS_SUCCESS, RTMESSAGE_BUS_ERROR_GENERAL, RTMESSAGE_BUS_ERROR_GENERAL]"
  by (simp add: server_run_defs demo_ops_def Let_def)

theorem server_refines_witness:
  "\<exists>s'. run_ops (server_call (std_runtime calm_world)) demo_ops ready_state =
      Some ([RTMESSAGE_BUS_SUCCESS, RTMESSAGE_BUS_SUCCESS, RTMESSAGE_BUS_ERROR_INVALID_PARAM,
        RTMESSAGE_BUS_SUCCESS, RTMESSAGE_BUS_ERROR_GENERAL, RTMESSAGE_BUS_ERROR_GENERAL], s') \<and>
    server_inv (std_runtime calm_world) True s'"
  using server_refines [OF std_rbus_runtime [of calm_world] ready_state_inv(1), of demo_ops] demo_run demo_ops_ok
  by fastforce

text \<open>
  C17. Limits of the registry, kept by every sequence of operations (with object names of less than
  \<open>2 ^ 31\<close> bytes, the names whose length \<open>rbus_registerObj\<close> can check): a registered object has a
  name of 1 to \<open>MAX_OBJECT_NAME_LENGTH - 1\<close> characters and at most 32 methods, method names
  have fewer than 64 characters and event names fewer than \<open>MAX_EVENT_NAME_LENGTH\<close> (so that no
  bounded comparison truncates a name and no \<open>strcpy\<close> overruns its field), and no listener
  appears twice.
\<close>

theorem registry_limits:
  assumes "rbus_runtime E" and "server_inv E conn s" and "\<forall>x\<in>set ops. server_op_ok x"
    and "run_ops (server_call E) ops s = Some (cs, s')" and "abs_reg s' n = Some ob"
  shows "n \<noteq> [] \<and> length n < MAX_OBJECT_NAME_LENGTH E \<and>
    finite (dom (ao_methods ob)) \<and> card (dom (ao_methods ob)) \<le> 32 \<and>
    (\<forall>m\<in>dom (ao_methods ob). length m < 64) \<and>
    (\<forall>e ae. ao_events ob e = Some ae \<longrightarrow>
       length e < MAX_EVENT_NAME_LENGTH E \<and> distinct (ae_listeners ae))"
proof -
  have wf: "registry_wf E s'"
    using rbus_runtime.server_ops_refine [OF assms(1,2,3)] assms(4) by (auto simp: server_inv_def)
  from assms(5) obtain p where "reg_find s' n = Some p" by (auto simp: abs_reg_def)
  with wf obtain o' ms es where o': "object_wf E p o'" "so_name o' = n" "abs_reg s' n = Some (abs_object o')"
    and ms: "methods o' = Some ms" "methods_wf p ms" and es: "subscriptions o' = Some es" "events_wf E p es"
    by (rule reg_find_abs)
  from o'(3) assms(5) ms es have ob: "ao_methods ob = abs_methods ms" "ao_events ob = abs_events es"
    by (auto simp: abs_object_def)
  have "card (dom (abs_methods ms)) \<le> 32"
    using card_abs_methods [OF ms(2)] ms(2) by (simp add: methods_wf_def MAX_SUPPORTED_METHODS_def)
  moreover have "\<forall>m\<in>dom (abs_methods ms). length m < 64"
    using ms(2) by (auto simp: abs_methods_dom methods_wf_def table_wf_def MAX_METHOD_NAME_LENGTH_def)
  moreover have "length e < MAX_EVENT_NAME_LENGTH E \<and> distinct (ae_listeners ae)"
    if "abs_events es e = Some ae" for e ae
  proof -
    from that obtain ev where "table_map se_name es e = Some ev" "ae = abs_server_event ev"
      by (auto simp: abs_events_def)
    with es(2) show ?thesis
      by (fastforce simp: events_wf_def table_wf_def abs_server_event_def dest: table_map_SomeD)
  qed
  ultimately show ?thesis using o' ob by (auto simp: object_wf_def abs_methods_dom)
qed


theorem registry_limits_witness:
  "\<exists>cs s' ob. run_ops (server_call (std_runtime calm_world)) demo_ops ready_state = Some (cs, s') \<and>
     abs_reg s' ''obj'' = Some ob \<and> card (dom (ao_methods ob)) \<le> 32"
proof -
  have "map_option (\<lambda>(cs, s'). reg_find s' ''obj'')
      (run_ops (server_call (std_runtime calm_world)) demo_ops ready_state) = Some (Some 1)"
    by (simp add: server_run_defs demo_ops_def Let_def reg_find_def objects_of_def obj_name_def
        table_map_def)
  then obtain cs s' where r: "run_ops (server_call (std_runtime calm_world)) demo_ops ready_state =
      Some (cs, s')" and "reg_find s' ''obj'' = Some 1" by auto
  then obtain ob where ob: "abs_reg s' ''obj'' = Some ob" by (auto simp: abs_reg_def)
  show ?thesis
    using registry_limits [OF std_rbus_runtime ready_state_inv(1) demo_ops_ok r ob] r ob by auto
qed


text \<open>
  C18. Registration is reversible: when \<open>rbus_registerMethod\<close> succeeds, the method is found by
  its name, a second registration of the name is refused, and \<open>rbus_unregisterMethod\<close> succeeds and
  leaves the registry as it was before.
\<close>

theorem register_unregister_method:
  assumes "rbus_runtime E" and "registry_wf E s"
    and "rbus_registerMethod E n m (App_Callback f) data s = Some (RTMESSAGE_BUS_SUCCESS, s')"
  shows "map_option (\<lambda>ob. ao_methods ob m) (abs_reg s' n) = Some (Some (AM_App f data)) \<and>
    (\<exists>c t. rbus_registerMethod E n m (App_Callback g) data' s' = Some (c, t) \<and>
       c \<noteq> RTMESSAGE_BUS_SUCCESS \<and> abs_reg t = abs_reg s') \<and>
    (\<exists>t. rbus_unregisterMethod E n m s' = Some (RTMESSAGE_BUS_SUCCESS, t) \<and> abs_reg t = abs_reg s)"
proof -
  have "reg_step E s (rbus_registerMethod E n m (App_Callback f) data s)
      (spec_registerMethod n m (AM_App f data) (abs_reg s))"
    using rbus_runtime.registerMethod_step [OF assms(1,2), of "App_Callback f"] by simp
  with assms(3) obtain a where wf': "registry_wf E s'" and a: "abs_reg s n = Some a" "ao_methods a m = None"
    and len: "length m < MAX_METHOD_NAME_LENGTH"
    and s': "abs_reg s' = (abs_reg s)(n \<mapsto> a\<lparr>ao_methods := (ao_methods a)(m \<mapsto> AM_App f data)\<rparr>)"
    by (auto simp: reg_step_def spec_registerMethod_def on_object_def spec_add_method_def not_le
        split: if_splits option.splits)
  have "reg_step E s' (rbus_registerMethod E n m (App_Callback g) data' s')
      (spec_registerMethod n m (AM_App g data') (abs_reg s'))"
    using rbus_runtime.registerMethod_step [OF assms(1) wf', of "App_Callback g"] by simp
  moreover have "reg_step E s' (rbus_unregisterMethod E n m s') (spec_unregisterMethod n m (abs_reg s'))"
    using rbus_runtime.unregisterMethod_step [OF assms(1) wf'] .
  moreover have "a\<lparr>ao_methods := (ao_methods a)(m := None)\<rparr> = a"
    using a(2) by (simp add: fun_upd_idem)
  ultimately show ?thesis
    using s' a len
    by (auto simp: reg_step_def spec_registerMethod_def spec_unregisterMethod_def on_object_def
        spec_add_method_def fun_upd_idem)
qed

theorem register_unregister_method_witness:
  "\<exists>s s'. rbus_registerMethod (std_runtime calm_world) ''obj'' ''get'' (App_Callback 2) UD_NULL s =
      Some (RTMESSAGE_BUS_SUCCESS, s') \<and>
    (\<exists>t. rbus_unregisterMethod (std_runtime calm_world) ''obj'' ''get'' s' =
       Some (RTMESSAGE_BUS_SUCCESS, t) \<and> abs_reg t = abs_reg s)"
proof -
  let ?E = "std_runtime calm_world"
  have "map_option fst (run_ops (server_call ?E) [Register_Obj (Some ''obj'') 1 UD_NULL,
      Register_Method ''obj'' ''get'' 2 UD_NULL] ready_state) =
      Some [RTMESSAGE_BUS_SUCCESS, RTMESSAGE_BUS_SUCCESS]"
    by (simp add: server_run_defs Let_def)
  then obtain s s' where s: "server_call ?E (Register_Obj (Some ''obj'') 1 UD_NULL) ready_state =
      Some (RTMESSAGE_BUS_SUCCESS, s)"
    and s': "rbus_registerMethod ?E ''obj'' ''get'' (App_Callback 2) UD_NULL s =
      Some (RTMESSAGE_BUS_SUCCESS, s')"
    by (auto split: Option.bind_splits)
  have "registry_wf ?E s"
    using std.server_call_inv [OF ready_state_inv(1) _ s] by (simp add: server_inv_def)
  from register_unregister_method [OF std_rbus_runtime this s'] s' show ?thesis by blast
qed

text \<open>
  What the two operations that install the subscription methods write to the object before they install
  them: the event, or the subscribe handler.
\<close>

fun installs_on :: "server_op \<Rightarrow> string option" where
  "installs_on (Register_Event n e f d) = n"
| "installs_on (Register_Subscribe_Handler n f d) = n"
| "installs_on _ = None"

fun entered :: "server_op \<Rightarrow> abs_object \<Rightarrow> abs_object" where
  "entered (Register_Event n e f d) a =
     (let ev = (case e of None \<Rightarrow> DEFAULT_EVENT | Some k \<Rightarrow> k)
      in if ao_events a ev \<noteq> None then a
         else a\<lparr>ao_events := (ao_events a)(ev \<mapsto> \<lparr>ae_listeners = [], ae_callback = f, ae_data = d\<rparr>)\<rparr>)"
| "entered (Register_Subscribe_Handler n (Some f) d) a = a\<lparr>ao_override := Some (f, d)\<rparr>"
| "entered _ a = a"

text \<open>An installation that fails: why, with which code, and what it leaves in the object.\<close>

definition half_installed :: "abs_object \<Rightarrow> abs_object \<Rightarrow> rbus_error_t \<Rightarrow> abs_object \<Rightarrow> bool" where
  "half_installed a b c b' \<longleftrightarrow>
     \<not> ao_processing a \<and> ao_methods a METHOD_ADD_EVENT_SUBSCRIPTION = None \<and>
     (if 32 \<le> card (dom (ao_methods a)) then c = RTMESSAGE_BUS_ERROR_OUT_OF_RESOURCES \<and> b' = b
      else b' = b\<lparr>ao_methods := (ao_methods a)(METHOD_ADD_EVENT_SUBSCRIPTION \<mapsto> AM_Subscription)\<rparr> \<and>
        (if card (dom (ao_methods a)) = 31 then c = RTMESSAGE_BUS_ERROR_OUT_OF_RESOURCES
         else c = RTMESSAGE_BUS_ERROR_INVALID_PARAM \<and> ao_methods a METHOD_REMOVE_EVENT_SUBSCRIPTION \<noteq> None))"

lemma spec_ensure_handlers_fails:
  assumes "fst (spec_ensure_handlers b) \<noteq> RTMESSAGE_BUS_SUCCESS" and "finite (dom (ao_methods b))"
  shows "half_installed b b (fst (spec_ensure_handlers b)) (snd (spec_ensure_handlers b))"
proof -
  have names: "METHOD_REMOVE_EVENT_SUBSCRIPTION \<noteq> METHOD_ADD_EVENT_SUBSCRIPTION"
    by (simp add: METHOD_REMOVE_EVENT_SUBSCRIPTION_def METHOD_ADD_EVENT_SUBSCRIPTION_def)
  have absent: "\<not> ao_processing b" "ao_methods b METHOD_ADD_EVENT_SUBSCRIPTION = None"
    using assms(1) by (auto simp: spec_ensure_handlers_def split: if_splits)
  from absent(2) have "METHOD_ADD_EVENT_SUBSCRIPTION \<notin> dom (ao_methods b)" by (simp add: domIff)
  then have "card (insert METHOD_ADD_EVENT_SUBSCRIPTION (dom (ao_methods b))) = Suc (card (dom (ao_methods b)))"
    using assms(2) by simp
  with absent assms(1) names show ?thesis
    by (auto simp: spec_ensure_handlers_def half_installed_def obj_then_def spec_add_method_def
        MAX_SUPPORTED_METHODS_def simp del: card_insert_disjoint split: if_splits)
qed

lemma entered_same: "ao_processing (entered x a) = ao_processing a" "ao_methods (entered x a) = ao_methods a"
  by (induction x a rule: entered.induct) (auto simp: Let_def)

lemma half_installed_entered: "half_installed (entered x a) b c b' = half_installed a b c b'"
  by (simp only: half_installed_def entered_same)

text \<open>The code and the registry of an installation are those of the object it works on.\<close>

lemma installation_spec:
  assumes "server_spec lim conn ans x A = (c, A')" and "installs_on x = Some n" and "A' \<noteq> A"
  obtains a where "A n = Some a" and "c = fst (spec_ensure_handlers (entered x a))"
    and "A' = A(n \<mapsto> snd (spec_ensure_handlers (entered x a)))"
  using assms
  by (cases x) (auto simp: spec_registerEvent_def spec_registerSubscribeHandler_def on_object_def Let_def
      split: option.splits if_splits)

text \<open>
  C20. What a failed call leaves behind.  A registry operation whose code is not success leaves the registry as
  it was, with one exception: the two operations that install the subscription methods of an object
  (\<open>rbus_registerEvent\<close>, \<open>rbus_registerSubscribeHandler\<close>) enter the event or the handler first, and when the methods
  cannot be installed it stays, and \<open>_subscribe\<close> with it if there was room for it.  \<open>half_installed\<close> gives the
  cause, the code and the object in each case.
\<close>

theorem failed_call_effect:
  assumes "rbus_runtime E" and "registry_wf E s" and "server_op_ok x" and "server_call E x s = Some (c, s')"
    and "c \<noteq> RTMESSAGE_BUS_SUCCESS"
  shows "abs_reg s' = abs_reg s \<or>
    (\<exists>n a b. installs_on x = Some n \<and> abs_reg s n = Some a \<and> half_installed a (entered x a) c b \<and>
       abs_reg s' = (abs_reg s)(n \<mapsto> b))"
proof -
  obtain ans where spec: "server_spec (MAX_OBJECT_NAME_LENGTH E) (g_connection s \<noteq> None) ans x (abs_reg s) =
      (c, abs_reg s')"
    using rbus_runtime.server_call_step [OF assms(1-3)] assms(4) by (auto simp: reg_step_def prod_eq_iff)
  show ?thesis
  proof (cases "abs_reg s' \<noteq> abs_reg s")
    case True
    show ?thesis
    proof (cases "installs_on x")
      case None
      then show ?thesis using spec assms(5) True
        by (cases x)
          (auto simp: spec_registerObj_def spec_unregisterObj_def spec_registerMethod_def
            spec_unregisterMethod_def spec_unregisterEvent_def spec_registerEvent_def
            spec_registerSubscribeHandler_def on_object_def spec_add_method_def Let_def
            fun_upd_idem split: option.splits if_splits)
    next
      case (Some n)
      from spec Some True obtain a where a: "abs_reg s n = Some a"
        "c = fst (spec_ensure_handlers (entered x a))"
        "abs_reg s' = (abs_reg s)(n \<mapsto> snd (spec_ensure_handlers (entered x a)))"
        by (rule installation_spec)
      from a(1) obtain p where "reg_find s n = Some p" by (auto simp: abs_reg_def)
      with assms(2) obtain ob ms where "abs_reg s n = Some (abs_object ob)" "methods ob = Some ms"
        by (rule reg_find_abs)
      with a(1) have "finite (dom (ao_methods a))" by (auto simp: abs_object_def abs_methods_dom)
      with spec_ensure_handlers_fails [of "entered x a"] assms(5) a(2)
      have "half_installed a (entered x a) c (snd (spec_ensure_handlers (entered x a)))"
        by (simp add: half_installed_entered entered_same)
      with a Some show ?thesis by blast
    qed
  qed simp
qed

theorem failed_call_effect_witness:
  "\<exists>s'. server_call (std_runtime calm_world) (Unregister_Method ''obj'' ''get'') ready_state =
      Some (RTMESSAGE_BUS_ERROR_INVALID_PARAM, s') \<and> abs_reg s' = abs_reg ready_state"
proof -
  have "map_option fst (server_call (std_runtime calm_world) (Unregister_Method ''obj'' ''get'') ready_state) =
      Some RTMESSAGE_BUS_ERROR_INVALID_PARAM"
    by (simp add: server_run_defs Let_def)
  then obtain s' where "server_call (std_runtime calm_world) (Unregister_Method ''obj'' ''get'') ready_state =
      Some (RTMESSAGE_BUS_ERROR_INVALID_PARAM, s')" by auto
  moreover from failed_call_effect [OF std_rbus_runtime _ _ this] ready_state_inv(1)
  have "abs_reg s' = abs_reg ready_state" by (simp add: server_inv_def)
  ultimately show ?thesis by blast
qed

text \<open>
  C37. The two subscription methods are not installed together: on an object with 31 methods,
  \<open>rbus_registerEvent\<close> registers \<open>_subscribe\<close>, fails on \<open>_unsubscribe\<close> with
  \<open>OUT_OF_RESOURCES\<close> and keeps both the event and \<open>_subscribe\<close>; the next call finds
  \<open>_subscribe\<close> and reports success, although nothing handles \<open>_unsubscribe\<close>.
\<close>

theorem subscription_methods_half_installed:
  assumes "rbus_runtime E" and "registry_wf E s" and "g_connection s \<noteq> None"
    and "abs_reg s n = Some a" and "\<not> ao_processing a" and "card (dom (ao_methods a)) = 31"
    and "ao_methods a METHOD_ADD_EVENT_SUBSCRIPTION = None"
    and "ao_methods a METHOD_REMOVE_EVENT_SUBSCRIPTION = None"
    and "length ev < MAX_EVENT_NAME_LENGTH E"
  shows "\<exists>s1 s2. rbus_registerEvent E (Some n) (Some ev) f data s =
      Some (RTMESSAGE_BUS_ERROR_OUT_OF_RESOURCES, s1) \<and>
    rbus_registerEvent E (Some n) (Some ev) f data s1 = Some (RTMESSAGE_BUS_SUCCESS, s2) \<and>
    (\<exists>b. abs_reg s2 n = Some b \<and> ao_events b ev \<noteq> None \<and>
       ao_methods b METHOD_ADD_EVENT_SUBSCRIPTION = Some AM_Subscription \<and>
       ao_methods b METHOD_REMOVE_EVENT_SUBSCRIPTION = None)"
proof -
  let ?spec = "spec_registerEvent (MAX_EVENT_NAME_LENGTH E) True (Some n) (Some ev) f data"
  have step: "reg_step E t (rbus_registerEvent E (Some n) (Some ev) f data t) (?spec (abs_reg t))"
    if "registry_wf E t" "g_connection t \<noteq> None" for t
    using rbus_runtime.registerEvent_step [OF assms(1) that(1), of "Some n" "Some ev" f data] that(2)
    by simp
  have fin: "finite (dom (ao_methods a))" using assms(6) by (metis card.infinite zero_neq_numeral)
  let ?M = "(ao_methods a)(METHOD_ADD_EVENT_SUBSCRIPTION \<mapsto> AM_Subscription)"
  have card: "card (dom ?M) = 32" using assms(6,7) fin by (simp add: domIff)
  have names: "METHOD_REMOVE_EVENT_SUBSCRIPTION \<noteq> METHOD_ADD_EVENT_SUBSCRIPTION"
    by (simp add: METHOD_REMOVE_EVENT_SUBSCRIPTION_def METHOD_ADD_EVENT_SUBSCRIPTION_def)
  let ?a = "if ao_events a ev \<noteq> None then a else a\<lparr>ao_events := (ao_events a)(ev \<mapsto>
      \<lparr>ae_listeners = [], ae_callback = f, ae_data = data\<rparr>)\<rparr>"
  let ?b = "?a\<lparr>ao_methods := ?M\<rparr>"
  have a': "ao_methods ?a = ao_methods a" "ao_processing ?a = ao_processing a" by simp_all
  have h1: "spec_ensure_handlers ?a = (RTMESSAGE_BUS_ERROR_OUT_OF_RESOURCES, ?b)"
    using assms(5-8) card names
    by (simp only: spec_ensure_handlers_def obj_then_def spec_add_method_def a' MAX_SUPPORTED_METHODS_def)
      simp
  then have 1: "?spec (abs_reg s) = (RTMESSAGE_BUS_ERROR_OUT_OF_RESOURCES, (abs_reg s)(n \<mapsto> ?b))"
    using assms(4,9) by (simp add: spec_registerEvent_def on_object_def)
  obtain s1 where s1: "rbus_registerEvent E (Some n) (Some ev) f data s =
      Some (RTMESSAGE_BUS_ERROR_OUT_OF_RESOURCES, s1)" "registry_wf E s1"
      "abs_reg s1 = (abs_reg s)(n \<mapsto> ?b)" "g_connection s1 \<noteq> None"
    using step [OF assms(2,3)] assms(3) unfolding 1
    by (auto simp: reg_step_def dest: server_core_connection)
  have ev: "ao_events ?b ev \<noteq> None" by simp
  have "spec_ensure_handlers ?b = (RTMESSAGE_BUS_SUCCESS, ?b)"
    by (simp add: spec_ensure_handlers_def)
  then have 2: "?spec (abs_reg s1) = (RTMESSAGE_BUS_SUCCESS, abs_reg s1)"
    using s1(3) assms(9) ev by (simp add: spec_registerEvent_def on_object_def del: not_None_eq)
  obtain s2 where "rbus_registerEvent E (Some n) (Some ev) f data s1 = Some (RTMESSAGE_BUS_SUCCESS, s2)"
      "abs_reg s2 = abs_reg s1"
    using step [OF s1(2,4)] unfolding 2 by (auto simp: reg_step_def)
  with s1 show ?thesis using assms(8) names ev by auto
qed


text \<open>An object with 31 methods named \<open>A\<close>, \<open>B\<close> and so on.\<close>

definition crowded_methods :: "server_method list" where
  "crowded_methods = map (\<lambda>i. \<lparr>sm_name = [char_of (65 + i)], sm_callback = App_Callback i,
     sm_data = UD_NULL\<rparr>) [0..<31]"

definition crowded_state :: rbus_state where
  "crowded_state = ready_state\<lparr>g_server_objects := Live (Some [1]), next_ptr := 2,
     objs := [1 \<mapsto> \<lparr>so_name = ''obj'', so_data = UD_NULL, so_callback = App_Callback 1,
       process_event_subscriptions = False, methods = Some crowded_methods, subscriptions = Some [],
       subscribe_handler_override = None, subscribe_handler_data = UD_NULL\<rparr>]\<rparr>"

lemma crowded_methods_wf: "methods_wf p crowded_methods" "length crowded_methods = 31"
  by (auto simp: methods_wf_def crowded_methods_def table_wf_def MAX_METHOD_NAME_LENGTH_def
      MAX_SUPPORTED_METHODS_def distinct_map inj_on_def)

lemma crowded_state_wf: "registry_wf (std_runtime w) crowded_state"
  using crowded_methods_wf
  by (auto simp: registry_wf_def crowded_state_def ready_state_def initial_state_def table_wf_def
      obj_name_def object_wf_def events_wf_def)

theorem subscription_methods_half_installed_witness:
  "\<exists>s1 s2. rbus_registerEvent (std_runtime calm_world) (Some ''obj'') (Some ''e'') None UD_NULL
        crowded_state = Some (RTMESSAGE_BUS_ERROR_OUT_OF_RESOURCES, s1) \<and>
     rbus_registerEvent (std_runtime calm_world) (Some ''obj'') (Some ''e'') None UD_NULL s1 =
       Some (RTMESSAGE_BUS_SUCCESS, s2)"
proof -
  obtain a where a: "abs_reg crowded_state ''obj'' = Some a" "\<not> ao_processing a"
    and m: "ao_methods a = abs_methods crowded_methods"
    by (auto simp: abs_reg_def crowded_state_def ready_state_def reg_find_def objects_of_def
        obj_name_def table_map_def abs_object_def)
  have "ao_methods a METHOD_ADD_EVENT_SUBSCRIPTION = None"
    "ao_methods a METHOD_REMOVE_EVENT_SUBSCRIPTION = None"
    by (auto simp: m abs_methods_def table_map_None_iff crowded_methods_def
        METHOD_ADD_EVENT_SUBSCRIPTION_def METHOD_REMOVE_EVENT_SUBSCRIPTION_def)
  moreover have "card (dom (ao_methods a)) = 31"
    using card_abs_methods [OF crowded_methods_wf(1)] by (simp add: m crowded_methods_wf)
  moreover have "g_connection crowded_state \<noteq> None" by (simp add: crowded_state_def ready_state_def)
  moreover have "length ''e'' < MAX_EVENT_NAME_LENGTH (std_runtime calm_world)" by simp
  ultimately show ?thesis
    using subscription_methods_half_installed [OF std_rbus_runtime [of calm_world] crowded_state_wf,
        of "''obj''" a "''e''" None UD_NULL] a by auto
qed

end
