(* ===== verification/Rbus_Listeners.thy ===== *)
theory Rbus_Listeners
  imports Rbus_Registry
begin

text \<open>
  The listeners of an event: subscription and unsubscription requests keep them a list without
  duplicates in the order of subscription, notify the provider's callback exactly when the
  list changes, and publication sends the event to each of them once, in that order.
\<close>

section \<open>The specification\<close>

definition listener_update :: "bool \<Rightarrow> string \<Rightarrow> string list \<Rightarrow> string list" where
  "listener_update added l ls =
     (if added then (if l \<in> set ls then ls else ls @ [l]) else filter (\<lambda>x. x \<noteq> l) ls)"

text \<open>The calls to the provider's callback when a listener is added or removed.\<close>

definition listener_calls :: "string \<Rightarrow> string \<Rightarrow> bool \<Rightarrow> string \<Rightarrow> abs_event \<Rightarrow> io_call list" where
  "listener_calls n ev added l ae =
     (case ae_callback ae of
        None \<Rightarrow> []
      | Some f \<Rightarrow> if (l \<in> set (ae_listeners ae)) = added then []
                 else [App_Subscribe f n ev l added None (ae_data ae)])"

text \<open>
  The call to the override handler of an object, and whether it leaves the request to the table
  of events: there is no override, or it returns \<open>RTMESSAGE_BUS_SUBSCRIBE_NOT_HANDLED\<close>.
\<close>

definition override_calls ::
    "string \<Rightarrow> abs_object \<Rightarrow> string \<Rightarrow> string \<Rightarrow> bool \<Rightarrow> rbusMessage option \<Rightarrow> io_call list" where
  "override_calls n a ev sub added pl =
     (case ao_override a of None \<Rightarrow> [] | Some (g, d) \<Rightarrow> [App_Subscribe g n ev sub added pl d])"

definition declined :: "runtime \<Rightarrow> io_call list \<Rightarrow> io_call list \<Rightarrow> bool" where
  "declined E t calls \<longleftrightarrow>
     (\<forall>c\<in>set calls. rbus_error_of_int (app_result E t c) = RTMESSAGE_BUS_SUBSCRIBE_NOT_HANDLED)"

text \<open>
  What an object makes of a subscription request after the calls \<open>t\<close>: its code, the callbacks it calls, and the object
  afterwards.
\<close>

definition subscription_result ::
    "runtime \<Rightarrow> io_call list \<Rightarrow> string \<Rightarrow> abs_object \<Rightarrow> string \<Rightarrow> string \<Rightarrow> bool \<Rightarrow>
     rbus_error_t \<times> io_call list \<times> abs_object" where
  "subscription_result E t n a ev sub added =
     (if MAX_SUBSCRIBER_NAME_LENGTH E \<le> length sub \<or> MAX_EVENT_NAME_LENGTH E \<le> length ev
      then (RTMESSAGE_BUS_ERROR_INVALID_PARAM, [], a)
      else let calls = override_calls n a ev sub added None
      in if \<not> declined E t calls then (rbus_error_of_int (app_result E t (hd calls)), calls, a)
      else case ao_events a ev of
        None \<Rightarrow> (RTMESSAGE_BUS_ERROR_UNSUPPORTED_EVENT, calls, a)
      | Some ae \<Rightarrow> (RTMESSAGE_BUS_SUCCESS, calls @ listener_calls n ev added sub ae,
          a\<lparr>ao_events := (ao_events a)(ev \<mapsto>
            ae\<lparr>ae_listeners := listener_update added sub (ae_listeners ae)\<rparr>)\<rparr>))"

lemma listener_update_set:
  "set (listener_update added l ls) = (if added then insert l (set ls) else set ls - {l})"
  by (auto simp: listener_update_def)

lemma listener_update_distinct: "distinct ls \<Longrightarrow> distinct (listener_update added l ls)"
  by (simp add: listener_update_def)

lemma listener_update_idem:
  "listener_update added l (listener_update added l ls) = listener_update added l ls"
  by (auto simp: listener_update_def)

lemma filter_eq_distinct: "distinct xs \<Longrightarrow> x \<in> set xs \<Longrightarrow> length (filter (\<lambda>y. y = x) xs) = 1"
  by (induction xs) (auto simp: filter_empty_conv)

lemma registry_event_distinct:
  assumes "registry_wf E s" and "abs_reg s n = Some a" and "ao_events a ev = Some ae"
  shows "distinct (ae_listeners ae)"
proof -
  from assms(2) obtain p where "reg_find s n = Some p" by (auto simp: abs_reg_def)
  with assms(1) obtain ob es where "abs_reg s n = Some (abs_object ob)"
    and es: "subscriptions ob = Some es" "events_wf E p es" by (rule reg_find_abs)
  with assms(2,3) obtain e where "table_map se_name es ev = Some e" "ae = abs_server_event e"
    by (auto simp: abs_object_def abs_events_def)
  with es(2) show ?thesis by (auto simp: events_wf_def abs_server_event_def dest!: table_map_SomeD)
qed

section \<open>Adding and removing a listener\<close>

text \<open>An event of the table replaced by one of the same name.\<close>

lemma set_event_object:
  assumes ob: "object_wf E p ob" and es: "subscriptions ob = Some es" "table_map se_name es ev = Some e"
    and e': "se_name e' = ev" "se_object e' = p" "listeners e' = Some ls" "distinct ls"
  shows "object_wf E p (set_event e' ob)"
    and "abs_object (set_event e' ob) = (abs_object ob)\<lparr>ao_events :=
      (ao_events (abs_object ob))(ev \<mapsto> abs_server_event e')\<rparr>"
    and "so_name (set_event e' ob) = so_name ob"
proof -
  let ?es = "table_upd se_name ev (\<lambda>_. e') es"
  have wf: "events_wf E p es" using ob es(1) by (simp add: object_wf_def)
  have "events_wf E p ?es"
    unfolding events_wf_def
  proof
    show "table_wf se_name (MAX_EVENT_NAME_LENGTH E) ?es"
      using wf e'(1) by (intro table_wf_upd) (simp_all add: events_wf_def)
    show "\<forall>e\<in>set ?es. se_object e = p \<and> (\<exists>ls. listeners e = Some ls \<and> distinct ls)"
      using wf e' by (auto simp: events_wf_def dest!: table_upd_set)
  qed
  note obj = object_events [OF ob this]
  have set: "set_event e' ob = ob\<lparr>subscriptions := Some ?es\<rparr>"
    using es e' by (simp add: set_event_def)
  show "object_wf E p (set_event e' ob)" "so_name (set_event e' ob) = so_name ob"
    using obj(1) by (simp_all add: set)
  have "abs_events ?es = (abs_events es)(ev \<mapsto> abs_server_event e')"
    using es(2) e'(1) by (auto simp: abs_events_def table_map_upd)
  then show "abs_object (set_event e' ob) = (abs_object ob)\<lparr>ao_events :=
      (ao_events (abs_object ob))(ev \<mapsto> abs_server_event e')\<rparr>"
    using obj(2) es(1) by (simp add: set abs_object_def)
qed

context rbus_runtime
begin

lemma has_listener: "rtVector_HasItem (lsnrs_v E) (Some ls) l (rtVector_Compare_String E) \<longleftrightarrow> l \<in> set ls"
  by (auto simp: lsnrs.has compare_string)

lemma change_listener:
  assumes "listeners e = Some ls" and "distinct ls" and "objs s (se_object e) = Some ob"
  shows "(if added then server_event_addListener E e (Some l) s
          else server_event_removeListener E e (Some l) s) =
    Some (e\<lparr>listeners := Some (listener_update added l ls)\<rparr>,
          s\<lparr>io := io s @ listener_calls (so_name ob) (se_name e) added l (abs_server_event e)\<rparr>)"
proof -
  have "rtVector_RemoveItemByCompare (lsnrs_v E) (Some ls) l (rtVector_Compare_String E) =
      Some (filter (\<lambda>x. x \<noteq> l) ls)" if "l \<in> set ls"
    using lsnrs.remove_by [of "rtVector_Compare_String E" l ls] filter_eq_distinct [OF assms(2) that]
    by (simp add: compare_string)
  moreover have "filter (\<lambda>x. x \<noteq> l) ls = ls" if "l \<notin> set ls"
    using that by (induction ls) auto
  moreover have "e\<lparr>listeners := Some ls\<rparr> = e" "s\<lparr>io := io s\<rparr> = s" using assms(1) by simp_all
  ultimately show ?thesis
    using assms
    by (auto simp: server_event_addListener_def server_event_removeListener_def has_listener
        lsnrs.push notify_subscription_def listener_update_def listener_calls_def
        abs_server_event_def app_do_def split: option.split)
qed

lemma subscription_request_run:
  assumes "objs s p = Some ob" and "so_name ob = n" and "subscriptions ob = Some es" and "events_wf E p es"
    and "length sub < MAX_SUBSCRIBER_NAME_LENGTH E" and "length ev < MAX_EVENT_NAME_LENGTH E"
    and "calls = override_calls n (abs_object ob) ev sub added (Option.bind payload (msgs s))"
    and "declined E (io s) calls"
  shows "server_object_subscription_handler E p (Some ev) (Some sub) added payload s =
    (case table_map se_name es ev of
        None \<Rightarrow> Some (RTMESSAGE_BUS_ERROR_UNSUPPORTED_EVENT, s\<lparr>io := io s @ calls\<rparr>)
      | Some e \<Rightarrow> do {
          (e', s2) \<leftarrow> (if added then server_event_addListener E e (Some sub) (s\<lparr>io := io s @ calls\<rparr>)
                      else server_event_removeListener E e (Some sub) (s\<lparr>io := io s @ calls\<rparr>));
          Some (RTMESSAGE_BUS_SUCCESS, obj_put p (set_event e' ob) s2)
        })"
  using assms
  by (cases "subscribe_handler_override ob"; cases "table_map se_name es ev")
    (simp_all add: server_object_subscription_handler_def find_event abs_object_def app_do_def not_le
      override_calls_def declined_def)

lemma subscription_request:
  assumes wf: "registry_wf E s" and f: "reg_find s n = Some p" and a: "abs_reg s n = Some a"
    and len: "length sub < MAX_SUBSCRIBER_NAME_LENGTH E" "length ev < MAX_EVENT_NAME_LENGTH E"
    and calls: "calls = override_calls n a ev sub added (Option.bind payload (msgs s))"
      "declined E (io s) calls"
    and ae: "ao_events a ev = Some ae"
  obtains s' where
    "server_object_subscription_handler E p (Some ev) (Some sub) added payload s =
       Some (RTMESSAGE_BUS_SUCCESS, s')"
    and "registry_wf E s'" and "reg_find s' = reg_find s"
    and "abs_reg s' = (abs_reg s)(n \<mapsto> a\<lparr>ao_events := (ao_events a)(ev \<mapsto>
       ae\<lparr>ae_listeners := listener_update added sub (ae_listeners ae)\<rparr>)\<rparr>)"
    and "io s' = io s @ calls @ listener_calls n ev added sub ae"
    and "server_core s' = server_core s" and "g_mutex s' = g_mutex s"
    and "s' = s\<lparr>objs := objs s', io := io s'\<rparr>"
proof -
  from wf f obtain ob es where ob: "objs s p = Some ob" "object_wf E p ob" "so_name ob = n"
      "abs_reg s n = Some (abs_object ob)" and es: "subscriptions ob = Some es" "events_wf E p es"
    by (rule reg_find_abs)
  have a': "a = abs_object ob" using a ob(4) by simp
  have "ao_events a = abs_events es" using es by (simp add: a' abs_object_def)
  with ae obtain e where e: "table_map se_name es ev = Some e" "ae = abs_server_event e"
    by (auto simp: abs_events_def)
  with es(2) obtain ls where ls: "listeners e = Some ls" "distinct ls" "se_object e = p" "se_name e = ev"
    by (auto simp: events_wf_def dest!: table_map_SomeD)
  let ?e = "e\<lparr>listeners := Some (listener_update added sub ls)\<rparr>"
  let ?s = "s\<lparr>io := io s @ calls @ listener_calls n ev added sub ae\<rparr>"
  have run: "server_object_subscription_handler E p (Some ev) (Some sub) added payload s =
      Some (RTMESSAGE_BUS_SUCCESS, obj_put p (set_event ?e ob) ?s)"
    using subscription_request_run [OF ob(1,3) es len calls(1) [unfolded a'] calls(2)] e ls ob(1,3)
      change_listener [of e ls "s\<lparr>io := io s @ calls\<rparr>" ob added sub] by simp
  note ob' = set_event_object [OF ob(2) es(1) e(1), of ?e "listener_update added sub ls"]
  have new: "object_wf E p (set_event ?e ob)" "so_name (set_event ?e ob) = n"
    "abs_object (set_event ?e ob) = a\<lparr>ao_events := (ao_events a)(ev \<mapsto>
       ae\<lparr>ae_listeners := listener_update added sub (ae_listeners ae)\<rparr>)\<rparr>"
    using ob' ls ob(3) by (simp_all add: listener_update_distinct a' e(2) abs_server_event_def)
  have "registry_wf E ?s" "reg_find ?s n = Some p" using wf f by simp_all
  from reg_update [OF this new(1,2)] show thesis
    using that [OF run] new(3) by (simp add: obj_put_def server_core_def)
qed

lemma subscription_request_overridden:
  assumes "registry_wf E s" and "reg_find s n = Some p" and "abs_reg s n = Some a"
    and "length sub < MAX_SUBSCRIBER_NAME_LENGTH E" and "length ev < MAX_EVENT_NAME_LENGTH E"
    and "ao_override a = Some (g, d)"
    and "c = App_Subscribe g n ev sub added (Option.bind payload (msgs s)) d"
    and "rbus_error_of_int (app_result E (io s) c) \<noteq> RTMESSAGE_BUS_SUBSCRIBE_NOT_HANDLED"
  shows "server_object_subscription_handler E p (Some ev) (Some sub) added payload s =
    Some (rbus_error_of_int (app_result E (io s) c), s\<lparr>io := io s @ [c]\<rparr>)"
proof -
  from assms(1,2) obtain ob where "objs s p = Some ob" "so_name ob = n"
      "abs_reg s n = Some (abs_object ob)" by (rule reg_find_abs)
  with assms(3-8) show ?thesis
    by (auto simp: server_object_subscription_handler_def abs_object_def app_do_def)
qed

lemma subscription_request_unknown:
  assumes wf: "registry_wf E s" and f: "reg_find s n = Some p" and a: "abs_reg s n = Some a"
    and len: "length sub < MAX_SUBSCRIBER_NAME_LENGTH E" "length ev < MAX_EVENT_NAME_LENGTH E"
    and calls: "calls = override_calls n a ev sub added (Option.bind payload (msgs s))"
      "declined E (io s) calls"
    and ae: "ao_events a ev = None"
  shows "server_object_subscription_handler E p (Some ev) (Some sub) added payload s =
    Some (RTMESSAGE_BUS_ERROR_UNSUPPORTED_EVENT, s\<lparr>io := io s @ calls\<rparr>)"
proof -
  from wf f obtain ob es where ob: "objs s p = Some ob" "so_name ob = n"
      "abs_reg s n = Some (abs_object ob)" and es: "subscriptions ob = Some es" "events_wf E p es"
    by (rule reg_find_abs)
  have a': "a = abs_object ob" using a ob(3) by simp
  have "table_map se_name es ev = None" using ae es by (simp add: a' abs_object_def abs_events_def)
  then show ?thesis
    using subscription_request_run [OF ob(1,2) es len calls(1) [unfolded a'] calls(2)] by simp
qed

lemma subscription_request_result:
  assumes wf: "registry_wf E s" and f: "reg_find s n = Some p" and a: "abs_reg s n = Some a"
    and res: "subscription_result E (io s) n a ev sub added = (ret, calls, a')"
  obtains h where "server_object_subscription_handler E p (Some ev) (Some sub) added None s =
      Some (ret, s\<lparr>objs := h, io := io s @ calls\<rparr>)"
    and "registry_wf E (s\<lparr>objs := h, io := io s @ calls\<rparr>)"
    and "reg_find (s\<lparr>objs := h, io := io s @ calls\<rparr>) = reg_find s"
    and "abs_reg (s\<lparr>objs := h, io := io s @ calls\<rparr>) = (abs_reg s)(n \<mapsto> a')"
proof (cases "length sub < MAX_SUBSCRIBER_NAME_LENGTH E \<and> length ev < MAX_EVENT_NAME_LENGTH E")
  case False
  then have "ret = RTMESSAGE_BUS_ERROR_INVALID_PARAM" "calls = []" "a' = a"
    using res by (auto simp: subscription_result_def not_less)
  moreover have "server_object_subscription_handler E p (Some ev) (Some sub) added None s =
      Some (RTMESSAGE_BUS_ERROR_INVALID_PARAM, s)"
    using False by (auto simp: server_object_subscription_handler_def not_less)
  ultimately show thesis using wf a that [of "objs s"] by (simp add: fun_upd_idem)
next
  case True
  then have len: "length sub < MAX_SUBSCRIBER_NAME_LENGTH E" "length ev < MAX_EVENT_NAME_LENGTH E" by simp_all
  let ?calls = "override_calls n a ev sub added (Option.bind None (msgs s))"
  show thesis
  proof (cases "declined E (io s) ?calls")
    case False
    then obtain g d where g: "ao_override a = Some (g, d)" "?calls = [App_Subscribe g n ev sub added None d]"
      by (cases "ao_override a") (auto simp: override_calls_def declined_def)
    with False have not: "rbus_error_of_int (app_result E (io s) (hd ?calls)) \<noteq> RTMESSAGE_BUS_SUBSCRIBE_NOT_HANDLED"
      by (simp add: declined_def)
    have r: "ret = rbus_error_of_int (app_result E (io s) (hd ?calls))" "calls = ?calls" "a' = a"
      using res len False by (auto simp: subscription_result_def Let_def)
    have "server_object_subscription_handler E p (Some ev) (Some sub) added None s =
        Some (ret, s\<lparr>io := io s @ calls\<rparr>)"
      using subscription_request_overridden [OF wf f a len g(1) refl, of added None] not g(2) r by simp
    then show thesis using wf a r(3) that [of "objs s"] by (simp add: fun_upd_idem)
  next
    case dec: True
    show thesis
    proof (cases "ao_events a ev")
      case None
      then have r: "ret = RTMESSAGE_BUS_ERROR_UNSUPPORTED_EVENT" "calls = ?calls" "a' = a"
        using res len dec None by (auto simp: subscription_result_def Let_def)
      then show thesis
        using subscription_request_unknown [OF wf f a len refl dec None] wf a that [of "objs s"]
        by (simp add: fun_upd_idem)
    next
      case (Some ae)
      have r: "ret = RTMESSAGE_BUS_SUCCESS" "calls = ?calls @ listener_calls n ev added sub ae"
        "a' = a\<lparr>ao_events := (ao_events a)(ev \<mapsto> ae\<lparr>ae_listeners := listener_update added sub (ae_listeners ae)\<rparr>)\<rparr>"
        using res len dec Some by (auto simp: subscription_result_def Let_def)
      obtain s' where s': "server_object_subscription_handler E p (Some ev) (Some sub) added None s =
          Some (RTMESSAGE_BUS_SUCCESS, s')" "registry_wf E s'" "reg_find s' = reg_find s"
        "abs_reg s' = (abs_reg s)(n \<mapsto> a')" "io s' = io s @ calls" "s' = s\<lparr>objs := objs s', io := io s'\<rparr>"
        by (rule subscription_request [OF wf f a len refl dec Some]) (simp add: r)
      have "s\<lparr>objs := objs s', io := io s @ calls\<rparr> = s'" using s'(5,6) by metis
      with s' r(1) show thesis by (intro that [of "objs s'"]) simp_all
    qed
  qed
qed

end

section \<open>Publication\<close>

lemma map_nth_range: "map (\<lambda>i. f (xs ! i)) [0..<length xs] = map f xs"
  by (rule nth_equalityI) auto

text \<open>Messages and the registry are separate parts of the heap.\<close>

lemma registry_msgs [simp]:
  "registry_wf E (msg_put q m s) = registry_wf E s" "reg_find (msg_put q m s) = reg_find s"
  "abs_reg (msg_put q m s) = abs_reg s"
  "registry_wf E (rbusMessage_Destroy q s) = registry_wf E s"
  "reg_find (rbusMessage_Destroy q s) = reg_find s" "abs_reg (rbusMessage_Destroy q s) = abs_reg s"
  by (simp_all add: registry_wf_def reg_find_def [abs_def] abs_reg_def [abs_def] objects_of_def)

lemma publish_loop_run:
  assumes "rtvector (lsnrs_v E)" and "g_connection s \<noteq> None" and "msgs s out = Some m"
    and "\<forall>i\<in>set is. i < length ls"
  shows "publish_loop E out n (Some ls) is s =
    Some (s\<lparr>io := io s @ map (\<lambda>i. Rt_SendBinaryDirect (message_bytes m) (ls ! i) n) is\<rparr>)"
  using assms(2-4)
proof (induction "is" arbitrary: s)
  case (Cons i js)
  have at: "rtVector_At (lsnrs_v E) (Some ls) i = Some (ls ! i)"
    using Cons.prems(3) rtvector.at [OF assms(1)] by simp
  let ?s = "s\<lparr>io := io s @ [Rt_SendBinaryDirect (message_bytes m) (ls ! i) n]\<rparr>"
  have "rbus_sendMessage E out (ls ! i) n s = Some (translate_rt_error
      (rt_result E (io s) (Rt_SendBinaryDirect (message_bytes m) (ls ! i) n)), ?s)"
    using Cons.prems by (auto simp: rbus_sendMessage_def rt_do_def)
  then show ?case using Cons.IH [of ?s] Cons.prems at by simp
qed simp

definition event_fields :: "string \<Rightarrow> string \<Rightarrow> int32 \<Rightarrow> field list" where
  "event_fields ev n is_rbus = [F_String ev, F_String n, F_Int32 is_rbus]"

definition cname_ok :: "string \<Rightarrow> bool" where
  "cname_ok n \<longleftrightarrow> no_nul n \<and> Suc (length n) < 2 ^ 31"

context rbus_runtime
begin

lemma event_fields_ok: "cname_ok ev \<Longrightarrow> cname_ok n \<Longrightarrow> \<forall>f\<in>set (event_fields ev n k). field_ok f"
  by (simp add: event_fields_def cname_ok_def)

lemma write_event_meta_run:
  assumes "msgs s out = Some m" and "pk m" and "cname_ok ev" and "cname_ok n"
    and "length (sbuf m) < 2 ^ 31 - 2 ^ 15"
  shows "write_event_meta E out ev n k s = Some (msg_put out
    (m\<lparr>meta_offset := int32_of_size (length (sbuf m)),
       sbuf := sbuf m @ enc_fields (mp E) (event_fields ev n k) @ meta_trailer (length (sbuf m))\<rparr>) s)"
proof -
  let ?m0 = "m\<lparr>meta_offset := int32_of_size (length (sbuf m))\<rparr>"
  have set: "rbusMessage_SetString (mp E) m' (Some x) =
      Some (RT_OK, m'\<lparr>sbuf := sbuf m' @ enc_field (mp E) (F_String x)\<rparr>)" if "pk m'" "cname_ok x" for m' x
    using put_field_appends [of m' "F_String x"] that by (simp add: cname_ok_def)
  have set32: "rbusMessage_SetInt32 (mp E) m' x =
      Some (RT_OK, m'\<lparr>sbuf := sbuf m' @ enc_field (mp E) (F_Int32 x)\<rparr>)" if "pk m'" for m' x
    using put_field_appends [of m' "F_Int32 x"] that by simp
  have "rbusMessage_EndMetaSectionWrite (mp E) (m'\<lparr>sbuf := b\<rparr>) =
      Some (m'\<lparr>sbuf := b @ meta_trailer (length (sbuf m))\<rparr>)"
    if "pk m'" "meta_offset m' = int32_of_size (length (sbuf m))" for m' b
    using EndMetaSectionWrite_appends [of "m'\<lparr>sbuf := b\<rparr>" "length (sbuf m)"] that assms(5) by simp
  then show ?thesis
    using assms(1-4) set set32
    by (simp add: write_event_meta_def rbusMessage_BeginMetaSectionWrite_def event_fields_def
        enc_fields_def)
qed

lemma publishEvent_run:
  assumes wf: "registry_wf E s" and c: "g_connection s \<noteq> None"
    and m: "msgs s out = Some m" "pk m" "length (sbuf m) < 2 ^ 31 - 2 ^ 15"
    and a: "abs_reg s n = Some a" "ao_events a ev = Some ae"
    and names: "cname_ok ev" "cname_ok n"
  defines "m' \<equiv> m\<lparr>meta_offset := int32_of_size (length (sbuf m)),
       sbuf := sbuf m @ enc_fields (mp E) (event_fields ev n 0) @ meta_trailer (length (sbuf m))\<rparr>"
  shows "rbus_publishEvent E n (Some ev) out s = Some (RTMESSAGE_BUS_SUCCESS,
    unlock ((msg_put out m' s)\<lparr>io := io s @
      map (\<lambda>l. Rt_SendBinaryDirect (message_bytes m') l n) (ae_listeners ae)\<rparr>))"
proof -
  from a obtain p where f: "reg_find s n = Some p" by (auto simp: abs_reg_def)
  from wf f obtain ob es where ob: "objs s p = Some ob" "object_wf E p ob" "so_name ob = n"
      "abs_reg s n = Some (abs_object ob)" and es: "subscriptions ob = Some es" "events_wf E p es"
    by (rule reg_find_abs)
  from a ob(4) es obtain e where e: "table_map se_name es ev = Some e" "ae = abs_server_event e"
    by (auto simp: abs_object_def abs_events_def)
  with es(2) obtain ls where ls: "listeners e = Some ls"
    by (auto simp: events_wf_def dest!: table_map_SomeD)
  have len: "length n < MAX_OBJECT_NAME_LENGTH E" using ob by (auto simp: object_wf_def)
  let ?s = "lock (msg_put out m' s)"
  have meta: "write_event_meta E out ev n 0 s = Some (msg_put out m' s)"
    unfolding m'_def using m names by (intro write_event_meta_run) auto
  have obj: "get_object E n ?s = Some (Some p)" using get_object_reg_find [of ?s] wf f by simp
  have "publish_loop E out n (Some ls) [0..<length ls] ?s = Some (?s\<lparr>io := io s @
      map (\<lambda>l. Rt_SendBinaryDirect (message_bytes m') l n) ls\<rparr>)"
    using publish_loop_run [OF lsnrs.rtvector_axioms, of ?s out m' "[0..<length ls]" ls n] c
      map_nth_range [of "\<lambda>l. Rt_SendBinaryDirect (message_bytes m') l n" ls] by simp
  then show ?thesis
    using c len meta obj ob es e ls
    by (simp add: rbus_publishEvent_def strnlen_ge_iff not_le find_event lsnrs.size
        abs_server_event_def del: not_None_eq)
qed

end

section \<open>Properties\<close>

text \<open>
  C8. A subscription request that reaches the table of events: an unknown event is answered with
  \<open>UNSUPPORTED_EVENT\<close>; for a known one the request succeeds, the listeners become a list
  without duplicates that has the subscriber exactly if it was added, the others stay in their
  order, nothing else of the registry changes, and the provider's callback runs exactly when the
  list changed.
\<close>

theorem subscription_request_updates_listeners:
  assumes "rbus_runtime E" and "registry_wf E s" and "reg_find s n = Some p" and "abs_reg s n = Some a"
    and "length sub < MAX_SUBSCRIBER_NAME_LENGTH E" and "length ev < MAX_EVENT_NAME_LENGTH E"
    and "calls = override_calls n a ev sub added (Option.bind payload (msgs s))"
    and "declined E (io s) calls"
  shows "case ao_events a ev of
      None \<Rightarrow> server_object_subscription_handler E p (Some ev) (Some sub) added payload s =
        Some (RTMESSAGE_BUS_ERROR_UNSUPPORTED_EVENT, s\<lparr>io := io s @ calls\<rparr>)
    | Some ae \<Rightarrow> \<exists>s' ls. server_object_subscription_handler E p (Some ev) (Some sub) added payload s =
          Some (RTMESSAGE_BUS_SUCCESS, s') \<and> registry_wf E s' \<and>
        abs_reg s' = (abs_reg s)(n \<mapsto> a\<lparr>ao_events := (ao_events a)(ev \<mapsto> ae\<lparr>ae_listeners := ls\<rparr>)\<rparr>) \<and>
        distinct ls \<and> set ls = (if added then insert sub (set (ae_listeners ae))
                                else set (ae_listeners ae) - {sub}) \<and>
        filter (\<lambda>l. l \<noteq> sub) ls = filter (\<lambda>l. l \<noteq> sub) (ae_listeners ae) \<and>
        io s' = io s @ calls @ listener_calls n ev added sub ae"
proof (cases "ao_events a ev")
  case None
  then show ?thesis using rbus_runtime.subscription_request_unknown [OF assms] by simp
next
  case (Some ae)
  obtain s' where s': "server_object_subscription_handler E p (Some ev) (Some sub) added payload s =
       Some (RTMESSAGE_BUS_SUCCESS, s')" "registry_wf E s'"
    "abs_reg s' = (abs_reg s)(n \<mapsto> a\<lparr>ao_events := (ao_events a)(ev \<mapsto>
       ae\<lparr>ae_listeners := listener_update added sub (ae_listeners ae)\<rparr>)\<rparr>)"
    "io s' = io s @ calls @ listener_calls n ev added sub ae"
    by (rule rbus_runtime.subscription_request [OF assms Some])
  have "distinct (listener_update added sub (ae_listeners ae))"
    using registry_event_distinct [OF assms(2,4) Some] by (rule listener_update_distinct)
  moreover have "filter (\<lambda>l. l \<noteq> sub) (listener_update added sub (ae_listeners ae)) =
      filter (\<lambda>l. l \<noteq> sub) (ae_listeners ae)"
    by (simp add: listener_update_def)
  ultimately show ?thesis using s' Some listener_update_set by fastforce
qed

text \<open>A provider of the event \<open>e\<close> with one listener and a message to publish.\<close>

definition provider_object :: "(fnptr option) \<Rightarrow> server_object" where
  "provider_object override =
     \<lparr>so_name = ''obj'', so_data = UD_NULL, so_callback = App_Callback 1,
      process_event_subscriptions = False, methods = Some [],
      subscriptions = Some [\<lparr>se_name = ''e'', se_object = 1, listeners = Some [''inbox1''],
        sub_callback = Some 7, sub_data = UD_NULL\<rparr>],
      subscribe_handler_override = override, subscribe_handler_data = UD_NULL\<rparr>"

definition provider_state :: "(fnptr option) \<Rightarrow> rbus_state" where
  "provider_state override = ready_state\<lparr>g_server_objects := Live (Some [1]), next_ptr := 6,
     objs := [1 \<mapsto> provider_object override], msgs := [5 \<mapsto> rbusMessage_Init\<lparr>sbuf := [1, 2, 3]\<rparr>]\<rparr>"

lemma provider_state_facts:
  "registry_wf (std_runtime w) (provider_state ov)" "reg_find (provider_state ov) ''obj'' = Some 1"
  "abs_reg (provider_state ov) ''obj'' = Some (abs_object (provider_object ov))"
  by (auto simp: registry_wf_def provider_state_def provider_object_def ready_state_def
      initial_state_def table_wf_def obj_name_def object_wf_def methods_wf_def events_wf_def
      abs_reg_def reg_find_def objects_of_def table_map_def)

lemma provider_object_facts:
  "ao_events (abs_object (provider_object ov)) ''e'' =
     Some \<lparr>ae_listeners = [''inbox1''], ae_callback = Some 7, ae_data = UD_NULL\<rparr>"
  "ao_override (abs_object (provider_object ov)) = map_option (\<lambda>f. (f, UD_NULL)) ov"
  by (simp_all add: provider_object_def abs_object_def abs_events_def table_map_def abs_server_event_def)

theorem subscription_request_updates_listeners_witness:
  "\<exists>s' ls. server_object_subscription_handler (std_runtime calm_world) 1 (Some ''e'') (Some ''inbox2'')
       True None (provider_state None) = Some (RTMESSAGE_BUS_SUCCESS, s') \<and>
     distinct ls \<and> set ls = {''inbox1'', ''inbox2''} \<and>
     io s' = [App_Subscribe 7 ''obj'' ''e'' ''inbox2'' True None UD_NULL]"
proof -
  have "io (provider_state None) = []"
    by (simp add: provider_state_def ready_state_def initial_state_def)
  then show ?thesis
    using subscription_request_updates_listeners [OF std_rbus_runtime [of calm_world]
        provider_state_facts(1-3), of "''inbox2''" "''e''" "[]" None True None]
    by (auto simp: provider_object_facts override_calls_def declined_def listener_calls_def
        insert_commute)
qed

text \<open>
  C29. An object's subscribe handler comes first: when it handles the request (any code but
  \<open>SUBSCRIBE_NOT_HANDLED\<close>), that code is the answer, the handler is called once with the request
  and the table of events is not touched.
\<close>

theorem override_handles_request:
  assumes "rbus_runtime E" and "registry_wf E s" and "reg_find s n = Some p" and "abs_reg s n = Some a"
    and "length sub < MAX_SUBSCRIBER_NAME_LENGTH E" and "length ev < MAX_EVENT_NAME_LENGTH E"
    and "ao_override a = Some (g, d)"
    and "c = App_Subscribe g n ev sub added (Option.bind payload (msgs s)) d"
    and "rbus_error_of_int (app_result E (io s) c) \<noteq> RTMESSAGE_BUS_SUBSCRIBE_NOT_HANDLED"
  shows "server_object_subscription_handler E p (Some ev) (Some sub) added payload s =
    Some (rbus_error_of_int (app_result E (io s) c), s\<lparr>io := io s @ [c]\<rparr>)"
  by (rule rbus_runtime.subscription_request_overridden [OF assms])

theorem override_handles_request_witness:
  "server_object_subscription_handler (std_runtime calm_world) 1 (Some ''e'') (Some ''inbox2'') True None
     (provider_state (Some 9)) =
   Some (RTMESSAGE_BUS_SUCCESS, (provider_state (Some 9))\<lparr>io :=
     [App_Subscribe 9 ''obj'' ''e'' ''inbox2'' True None UD_NULL]\<rparr>)"
proof -
  have "io (provider_state (Some 9)) = []"
    by (simp add: provider_state_def ready_state_def initial_state_def)
  moreover have "rbus_error_of_int 0 = RTMESSAGE_BUS_SUCCESS"
    by (simp add: rbus_error_of_int_def rbus_error_enum_def)
  ultimately show ?thesis
    using override_handles_request [OF std_rbus_runtime [of calm_world] provider_state_facts(1-3),
        of "''inbox2''" "''e''" "Some 9" 9 UD_NULL _ True None]
    by (simp add: provider_object_facts std_runtime_def calm_world_def)
qed

text \<open>
  C7. \<open>rbus_publishEvent\<close> sends the message to every listener of the event once, in the order of
  subscription, and to nobody else; the bytes carry the payload unchanged and a meta section
  from which a receiver reads the event, the object and the flag 0; the registry is
  unchanged and the mutex is released.
\<close>

theorem publish_reaches_listeners:
  assumes "rbus_runtime E" and "registry_wf E s" and "g_connection s \<noteq> None"
    and "msgs s out = Some m" and "pk m" and "cname_ok ev" and "cname_ok n"
    and "abs_reg s n = Some a" and "ao_events a ev = Some ae"
    and "length (sbuf m) < 2 ^ 31 - 2 ^ 15"
    and "length (sbuf m) + length (enc_fields (mp E) (event_fields ev n 0)) + 5 < 2 ^ 32"
  shows "\<exists>s' b. rbus_publishEvent E n (Some ev) out s = Some (RTMESSAGE_BUS_SUCCESS, s') \<and>
    io s' = io s @ map (\<lambda>l. Rt_SendBinaryDirect b l n) (ae_listeners ae) \<and>
    take (length (sbuf m)) b = sbuf m \<and>
    read_meta (mp E) (rbusMessage_FromBytes (mp E) b) (event_fields ev n 0) =
      (Some (event_fields ev n 0), 0) \<and>
    registry_wf E s' \<and> abs_reg s' = abs_reg s \<and> \<not> g_mutex s'"
proof -
  let ?m = "m\<lparr>meta_offset := int32_of_size (length (sbuf m)), sbuf := sbuf m @
      enc_fields (mp E) (event_fields ev n 0) @ meta_trailer (length (sbuf m))\<rparr>"
  have api: "msgpack_api (mp E)" using assms(1) by (simp add: rbus_runtime_def)
  have bytes: "message_bytes ?m = sbuf ?m" using assms(11) by (intro message_bytes_small) simp
  have "read_meta (mp E) (rbusMessage_FromBytes (mp E) (sbuf ?m)) (event_fields ev n 0) =
      (Some (event_fields ev n 0), read_offset (rbusMessage_FromBytes (mp E) (sbuf ?m)))"
    using assms(10,11) msgpack_api.FromBytes_sbuf [OF api, of "sbuf ?m"]
      rbus_runtime.event_fields_ok [OF assms(1,6,7)]
    by (intro msgpack_api.read_meta_reads [OF api, where body = "sbuf m"])
      (simp_all add: rbusMessage_FromBytes_def)
  moreover note rbus_runtime.publishEvent_run [OF assms(1-5,10,8,9,6,7)]
  moreover have "registry_wf E (unlock ((msg_put out ?m s)\<lparr>io := t\<rparr>))"
    "abs_reg (unlock ((msg_put out ?m s)\<lparr>io := t\<rparr>)) = abs_reg s" for t
    using assms(2) by simp_all
  ultimately show ?thesis
    by (intro exI [of _ "sbuf ?m"] exI [of _ "unlock ((msg_put out ?m s)\<lparr>io := io s @
        map (\<lambda>l. Rt_SendBinaryDirect (sbuf ?m) l n) (ae_listeners ae)\<rparr>)"])
      (simp add: bytes rbusMessage_FromBytes_def)
qed

theorem publish_reaches_listeners_witness:
  "\<exists>s' b. rbus_publishEvent (std_runtime calm_world) ''obj'' (Some ''e'') 5 (provider_state None) =
       Some (RTMESSAGE_BUS_SUCCESS, s') \<and> io s' = [Rt_SendBinaryDirect b ''inbox1'' ''obj''] \<and>
     take 3 b = [1, 2, 3]"
proof -
  have s: "io (provider_state None) = []" "g_connection (provider_state None) \<noteq> None"
    "msgs (provider_state None) 5 = Some (rbusMessage_Init\<lparr>sbuf := [1, 2, 3]\<rparr>)"
    by (simp_all add: provider_state_def ready_state_def initial_state_def)
  have names: "cname_ok ''e''" "cname_ok ''obj''" by (simp_all add: cname_ok_def no_nul_def char_of_0)
  let ?m = "rbusMessage_Init\<lparr>sbuf := [1, 2, 3]\<rparr>"
  have m: "pk ?m" "length (sbuf ?m) < 2 ^ 31 - 2 ^ 15"
    by (simp_all add: rbusMessage_Init_def)
  have "length (sbuf ?m) + length (enc_fields (mp (std_runtime calm_world)) (event_fields ''e'' ''obj'' 0)) +
      5 < 2 ^ 32"
    by (simp add: event_fields_def enc_fields_def mp_int_def mp_str_def)
  from publish_reaches_listeners [OF std_rbus_runtime [of calm_world] provider_state_facts(1) s(2,3) m(1)
      names provider_state_facts(3) provider_object_facts(1) m(2) this] s(1)
  show ?thesis by (auto simp: eval_nat_numeral)
qed

end
