(* ===== verification/Rbus_Rpc.thy ===== *)
theory Rbus_Rpc
  imports Rbus_Listeners
begin

text \<open>
  Remote procedure calls of \<open>rbus-core/lib/rbus_core.c\<close>: the client side (a request with the
  method in its meta section, and the response), and the server side (dispatch of an incoming
  message to a method or to the object's callback, the response, and the queue of requests
  that arrive while another one is handled).

  \<open>NULL\<close> messages are \<open>None\<close>.  Loops over the queue take fuel, since a callback may keep
  receiving requests: the outer \<open>None\<close> is running out of fuel.  The vector of queued requests is a global variable
  that no function creates: it is \<open>NULL\<close> in every state of a process.
\<close>

section \<open>The method in the meta section\<close>

definition set_message_method ::
    "runtime \<Rightarrow> ptr \<Rightarrow> string \<Rightarrow> rbus_state \<Rightarrow> (rbus_error_t \<times> rbus_state) option" where
  "set_message_method E msg method s = do {
     m \<leftarrow> msgs s msg;
     (_, m1) \<leftarrow> rbusMessage_SetString (mp E) (rbusMessage_BeginMetaSectionWrite m) (Some method);
     m2 \<leftarrow> rbusMessage_EndMetaSectionWrite (mp E) m1;
     Some (RTMESSAGE_BUS_SUCCESS, msg_put msg m2 s)
   }"

text \<open>
  \<open>rbusMessage_BeginMetaSectionRead\<close>, one \<open>rbusMessage_GetString\<close> and
  \<open>rbusMessage_EndMetaSectionRead\<close>, as \<open>dispatch_method_call\<close> and
  \<open>rbus_invokeRemoteMethod\<close> call them in a row.
\<close>

definition get_message_method ::
    "runtime \<Rightarrow> ptr \<Rightarrow> rbus_state \<Rightarrow> (rtError \<times> string option \<times> rbus_state) option" where
  "get_message_method E msg s = do {
     m \<leftarrow> msgs s msg;
     (e, name, s1) \<leftarrow> msg_read_string E msg (msg_put msg (rbusMessage_BeginMetaSectionRead (mp E) m) s);
     m1 \<leftarrow> msgs s1 msg;
     Some (e, name, msg_put msg (rbusMessage_EndMetaSectionRead m1) s1)
   }"

section \<open>The client side\<close>

definition rbus_sendRequest ::
    "runtime \<Rightarrow> ptr \<Rightarrow> string \<Rightarrow> int \<Rightarrow> rbus_state \<Rightarrow> (rtError \<times> ptr option \<times> rbus_state) option" where
  "rbus_sendRequest E req destination timeout s = do {
     m \<leftarrow> msgs s req;
     let c = Rt_SendBinaryRequest (message_bytes m) destination timeout;
     let (err, s1) = rt_do E c s;
     if err = RT_OK then
       (case msg_alloc (rbusMessage_FromBytes (mp E) (rt_reply E (io s) c)) s1 of (p, s2) \<Rightarrow>
          Some (err, Some p, s2))
     else Some (err, None, s1)
   }"

text \<open>
  The result is the code and the response stored through \<open>in\<close>.  The two early returns leave
  \<open>*in\<close> as it was (\<open>None\<close> here, no caller reads it) and do not release \<open>out\<close>.
\<close>

definition rbus_invokeRemoteMethod ::
    "runtime \<Rightarrow> string \<Rightarrow> string \<Rightarrow> ptr option \<Rightarrow> int \<Rightarrow> rbus_state \<Rightarrow>
     (rbus_error_t \<times> ptr option \<times> rbus_state) option" where
  "rbus_invokeRemoteMethod E object_name method out timeout s =
     (if g_connection s = None then Some (RTMESSAGE_BUS_ERROR_INVALID_STATE, None, s)
      else if MAX_OBJECT_NAME_LENGTH E \<le> strnlen object_name (MAX_OBJECT_NAME_LENGTH E)
      then Some (RTMESSAGE_BUS_ERROR_INVALID_PARAM, None, s)
      else do {
        let (q, s1) = (case out of None \<Rightarrow> msg_alloc rbusMessage_Init s | Some q \<Rightarrow> (q, s));
        (_, s2) \<leftarrow> set_message_method E q method s1;
        (err, rsp, s3) \<leftarrow> rbus_sendRequest E q object_name timeout s2;
        (ret, s4) \<leftarrow>
          (if err \<noteq> RT_OK then
             Some (if err = RT_OBJECT_NO_LONGER_AVAILABLE then RTMESSAGE_BUS_ERROR_DESTINATION_UNREACHABLE
                   else if err = RT_ERROR_TIMEOUT then RTMESSAGE_BUS_ERROR_REMOTE_TIMED_OUT
                   else RTMESSAGE_BUS_ERROR_GENERAL, s3)
           else do {
             p \<leftarrow> rsp;
             (_, name, s') \<leftarrow> get_message_method E p s3;
             Some (case name of
                None \<Rightarrow> RTMESSAGE_BUS_ERROR_MALFORMED_RESPONSE
              | Some n \<Rightarrow> if strncmp MAX_METHOD_NAME_LENGTH METHOD_RESPONSE n \<noteq> 0
                         then RTMESSAGE_BUS_ERROR_MALFORMED_RESPONSE else RTMESSAGE_BUS_SUCCESS, s')
           });
        s5 \<leftarrow> rbusMessage_Release E q s4;
        case rsp of
          Some p \<Rightarrow>
            if ret \<noteq> RTMESSAGE_BUS_SUCCESS then do {
              s6 \<leftarrow> rbusMessage_Release E p s5;
              Some (ret, None, s6)
            }
            else Some (ret, Some p, s5)
        | None \<Rightarrow> Some (ret, None, s5)
      })"

text \<open>The result code in the response, \<open>None\<close> if it holds no integer there.\<close>

definition rbus_pushObj ::
    "runtime \<Rightarrow> string \<Rightarrow> ptr option \<Rightarrow> int \<Rightarrow> rbus_state \<Rightarrow> (rbus_error_t \<times> rbus_state) option" where
  "rbus_pushObj E object_name message timeout s = do {
     (ret, rsp, s1) \<leftarrow> rbus_invokeRemoteMethod E object_name METHOD_SETPARAMETERVALUES message timeout s;
     if ret \<noteq> RTMESSAGE_BUS_SUCCESS then Some (ret, s1)
     else do {
       p \<leftarrow> rsp;
       (e, v, s2) \<leftarrow> msg_read (rbusMessage_GetInt32 (mp E)) p s1;
       s3 \<leftarrow> rbusMessage_Release E p s2;
       Some (case v of None \<Rightarrow> RTMESSAGE_BUS_ERROR_MALFORMED_RESPONSE | Some w \<Rightarrow> int32_error w, s3)
     }
   }"

definition rbus_pushObjNoAck ::
    "runtime \<Rightarrow> string \<Rightarrow> ptr option \<Rightarrow> rbus_state \<Rightarrow> (rbus_error_t \<times> rbus_state) option" where
  "rbus_pushObjNoAck E object_name message s =
     rbus_pushObj E object_name message TIMEOUT_VALUE_FIRE_AND_FORGET s"

definition rbus_pullObj ::
    "runtime \<Rightarrow> string \<Rightarrow> int \<Rightarrow> rbus_state \<Rightarrow> (rbus_error_t \<times> ptr option \<times> rbus_state) option" where
  "rbus_pullObj E object_name timeout s = do {
     (ret, rsp, s1) \<leftarrow> rbus_invokeRemoteMethod E object_name METHOD_GETPARAMETERVALUES None timeout s;
     if ret \<noteq> RTMESSAGE_BUS_SUCCESS then Some (ret, rsp, s1)
     else do {
       p \<leftarrow> rsp;
       (e, v, s2) \<leftarrow> msg_read (rbusMessage_GetInt32 (mp E)) p s1;
       let ret2 = (case v of None \<Rightarrow> RTMESSAGE_BUS_ERROR_MALFORMED_RESPONSE | Some w \<Rightarrow> int32_error w);
       if ret2 \<noteq> RTMESSAGE_BUS_SUCCESS then do {
         s3 \<leftarrow> rbusMessage_Release E p s2;
         Some (ret2, None, s3)
       }
       else Some (ret2, Some p, s2)
     }
   }"

section \<open>The response\<close>

text \<open>A response the caller passes for a message that is no request is not released.\<close>

definition rbus_sendResponse ::
    "runtime \<Rightarrow> rtMessageHeader \<Rightarrow> ptr option \<Rightarrow> rbus_state \<Rightarrow> (rbus_error_t \<times> rbus_state) option" where
  "rbus_sendResponse E hdr response s =
     (if \<not> rtMessageHeader_IsRequest E hdr then Some (RTMESSAGE_BUS_SUCCESS, s)
      else do {
        (p, s1) \<leftarrow> (case response of
            Some p \<Rightarrow> Some (p, s)
          | None \<Rightarrow> (case msg_alloc rbusMessage_Init s of (p, s') \<Rightarrow> do {
              (_, s'') \<leftarrow> msg_write (\<lambda>m. rbusMessage_SetInt32 (mp E) m
                            (error_int32 RTMESSAGE_BUS_ERROR_UNSUPPORTED_METHOD)) p s';
              Some (p, s'')
            }));
        (_, s2) \<leftarrow> set_message_method E p METHOD_RESPONSE s1;
        m \<leftarrow> msgs s2 p;
        let (err, s3) = rt_do E (Rt_SendBinaryResponse hdr (message_bytes m) TIMEOUT_VALUE_FIRE_AND_FORGET) s2;
        s4 \<leftarrow> rbusMessage_Release E p s3;
        Some (if err = RT_OK then RTMESSAGE_BUS_SUCCESS else RTMESSAGE_BUS_ERROR_GENERAL, s4)
      })"

section \<open>Incoming messages\<close>

text \<open>
  \<open>onMessage\<close> when another message is being handled (\<open>stack_counter\<close> is not 1 after the
  increment): the message is queued, and released at the end like any other.
\<close>

definition onMessage_busy ::
    "runtime \<Rightarrow> rtMessageHeader \<Rightarrow> byte list \<Rightarrow> ptr \<Rightarrow> rbus_state \<Rightarrow> rbus_state option" where
  "onMessage_busy E hdr data obj s = do {
     let (msg, s1) = msg_alloc (rbusMessage_FromBytes (mp E) data) s;
     let s2 = s1\<lparr>stack_counter := stack_counter s1 + 1\<rparr>;
     v \<leftarrow> vderef (g_queued_requests s2);
     let req = \<lparr>qr_hdr = hdr, qr_msg = msg, qr_obj = obj\<rparr>;
     let s3 = s2\<lparr>g_queued_requests := Live (rtVector_PushBack (reqs_v E) v req)\<rparr>;
     let s4 = s3\<lparr>stack_counter := stack_counter s3 - 1\<rparr>;
     rbusMessage_Release E msg s4
   }"

fun deliver_nested ::
    "runtime \<Rightarrow> (rtMessageHeader \<times> byte list \<times> ptr) list \<Rightarrow> rbus_state \<Rightarrow> rbus_state option" where
  "deliver_nested E [] s = Some s"
| "deliver_nested E ((hdr, data, obj) # rest) s = do {
     s' \<leftarrow> onMessage_busy E hdr data obj s;
     deliver_nested E rest s'
   }"

text \<open>A call through an \<open>rbus_callback_t\<close>: its result and the response it creates.\<close>

definition call_rpc ::
    "runtime \<Rightarrow> rbus_callback_t \<Rightarrow> string option \<Rightarrow> ptr \<Rightarrow> user_data \<Rightarrow> rtMessageHeader \<Rightarrow> rbus_state \<Rightarrow>
     (int \<times> ptr option \<times> rbus_state) option" where
  "call_rpc E fn method msg data hdr s =
     (case fn of
        Subscription_Handler \<Rightarrow> do { name \<leftarrow> method; subscription_handler E name msg data s }
      | App_Callback f \<Rightarrow> do {
          m \<leftarrow> msgs s msg;
          let c = App_Rpc f (topic hdr) method m data hdr;
          let (code, s1) = app_do E c s;
          s2 \<leftarrow> deliver_nested E (rt_nested E (io s) c) s1;
          Some (case app_response E (io s) c of
              None \<Rightarrow> (code, None, s2)
            | Some bytes \<Rightarrow>
                (case msg_alloc (rbusMessage_Init\<lparr>sbuf := bytes\<rparr>) s2 of (p, s3) \<Rightarrow> (code, Some p, s3)))
        })"

definition dispatch_method_call ::
    "runtime \<Rightarrow> ptr \<Rightarrow> rtMessageHeader \<Rightarrow> ptr \<Rightarrow> rbus_state \<Rightarrow> rbus_state option" where
  "dispatch_method_call E msg hdr obj s = do {
     (err, method_name, s1) \<leftarrow> get_message_method E msg s;
     let s2 = lock s1;
     ob \<leftarrow> objs s2 obj;
     let found =
       (if 0 < rtVector_Size (meths_v E) (methods ob) \<and> err = RT_OK
        then Option.bind method_name
               (\<lambda>n. rtVector_Find (meths_v E) (methods ob) n server_method_compare)
        else None);
     case found of
       Some meth \<Rightarrow> do {
         (_, response, s3) \<leftarrow> call_rpc E (sm_callback meth) method_name msg (sm_data meth) hdr (unlock s2);
         (_, s4) \<leftarrow> rbus_sendResponse E hdr response s3;
         Some s4
       }
     | None \<Rightarrow> do {
         (code, response, s3) \<leftarrow> call_rpc E (so_callback ob) method_name msg (so_data ob) hdr (unlock s2);
         if code = rbus_error_code RTMESSAGE_BUS_SUCCESS_ASYNC then Some s3
         else do {
           (_, s4) \<leftarrow> rbus_sendResponse E hdr response s3;
           Some s4
         }
       }
   }"

text \<open>The loop that consumes the queue: \<open>None\<close> out of fuel, \<open>Some None\<close> undefined behaviour.\<close>

fun drain_queue :: "nat \<Rightarrow> runtime \<Rightarrow> rbus_state \<Rightarrow> rbus_state option option" where
  "drain_queue 0 E s = None"
| "drain_queue (Suc fuel) E s =
     (case vderef (g_queued_requests s) of
        None \<Rightarrow> Some None
      | Some v \<Rightarrow>
          if rtVector_Size (reqs_v E) v > 0
          then (case rtVector_At (reqs_v E) v 0 of
              None \<Rightarrow> Some None
            | Some req \<Rightarrow>
                (case dispatch_method_call E (qr_msg req) (qr_hdr req) (qr_obj req) s of
                   None \<Rightarrow> Some None
                 | Some s1 \<Rightarrow>
                     (case vderef (g_queued_requests s1) of
                        None \<Rightarrow> Some None
                      | Some v1 \<Rightarrow> drain_queue fuel E
                          (s1\<lparr>g_queued_requests := Live (rtVector_RemoveItem (reqs_v E) v1 req)\<rparr>))))
          else Some (Some s))"

definition onMessage ::
    "nat \<Rightarrow> runtime \<Rightarrow> rtMessageHeader \<Rightarrow> byte list \<Rightarrow> ptr \<Rightarrow> rbus_state \<Rightarrow> rbus_state option option" where
  "onMessage fuel E hdr data obj s =
     (if stack_counter s + 1 \<noteq> 1 then Some (onMessage_busy E hdr data obj s)
      else let (msg, s1) = msg_alloc (rbusMessage_FromBytes (mp E) data) s;
               s2 = s1\<lparr>stack_counter := stack_counter s1 + 1\<rparr>
        in case dispatch_method_call E msg hdr obj s2 of
             None \<Rightarrow> Some None
           | Some s3 \<Rightarrow>
               (case drain_queue fuel E s3 of
                  None \<Rightarrow> None
                | Some None \<Rightarrow> Some None
                | Some (Some s4) \<Rightarrow>
                    Some (rbusMessage_Release E msg (s4\<lparr>stack_counter := stack_counter s4 - 1\<rparr>))))"

section \<open>Facts on messages\<close>

lemma Destroy_put [simp]: "rbusMessage_Destroy p (msg_put p m s) = rbusMessage_Destroy p s"
  by (simp add: rbusMessage_Destroy_def msg_put_def)

lemma put_put [simp]: "msg_put p m (msg_put p m' s) = msg_put p m s"
  by (simp add: msg_put_def)

lemma put_io [simp]: "(msg_put p m s)\<lparr>io := t\<rparr> = msg_put p m (s\<lparr>io := t\<rparr>)"
  by (simp add: msg_put_def)

lemma Destroy_io [simp]: "(rbusMessage_Destroy p s)\<lparr>io := t\<rparr> = rbusMessage_Destroy p (s\<lparr>io := t\<rparr>)"
  by (simp add: rbusMessage_Destroy_def)

lemma bind_snd [simp]: "Option.bind x (\<lambda>(u, y). Some y) = map_option snd x"
  by (cases x) auto

text \<open>The bytes of a message with a body and a method in its meta section.\<close>

definition method_bytes :: "msgpack \<Rightarrow> byte list \<Rightarrow> string \<Rightarrow> byte list" where
  "method_bytes M body method = body @ enc_fields M [F_String method] @ meta_trailer (length body)"

definition method_fits :: "msgpack \<Rightarrow> byte list \<Rightarrow> string \<Rightarrow> bool" where
  "method_fits M body method \<longleftrightarrow> cname_ok method \<and> length body < 2 ^ 31 - 2 ^ 15 \<and>
     length (method_bytes M body method) < 2 ^ 32"

text \<open>The response made up for an application that gives none.\<close>

definition unsupported_body :: "runtime \<Rightarrow> byte list" where
  "unsupported_body R = enc_fields (mp R) [F_Int32 (error_int32 RTMESSAGE_BUS_ERROR_UNSUPPORTED_METHOD)]"

context rbus_runtime
begin

lemma release_last:
  "msgs s p = Some m \<Longrightarrow> refCount m = 1 \<Longrightarrow> rbusMessage_Release E p s = Some (rbusMessage_Destroy p s)"
  by (simp add: rbusMessage_Release_def release)

lemma release_shared:
  "msgs s p = Some m \<Longrightarrow> refCount m \<noteq> 1 \<Longrightarrow>
   rbusMessage_Release E p s = Some (msg_put p (m\<lparr>refCount := refCount m - 1\<rparr>) s)"
  by (simp add: rbusMessage_Release_def release)

text \<open>Writing and reading the method of a message.\<close>

lemma set_message_method_run:
  assumes "msgs s p = Some m" and "pk m" and "method_fits (mp E) (sbuf m) method"
  shows "set_message_method E p method s = Some (RTMESSAGE_BUS_SUCCESS,
    msg_put p (m\<lparr>meta_offset := int32_of_size (length (sbuf m)), sbuf := method_bytes (mp E) (sbuf m) method\<rparr>) s)"
proof -
  let ?m = "m\<lparr>meta_offset := int32_of_size (length (sbuf m))\<rparr>"
  have "rbusMessage_SetString (mp E) ?m (Some method) =
      Some (RT_OK, ?m\<lparr>sbuf := sbuf m @ enc_fields (mp E) [F_String method]\<rparr>)"
    using put_field_appends [of ?m "F_String method"] assms
    by (simp add: method_fits_def cname_ok_def enc_fields_def)
  then show ?thesis
    using assms EndMetaSectionWrite_appends [of "?m\<lparr>sbuf := sbuf m @ enc_fields (mp E) [F_String method]\<rparr>"
        "length (sbuf m)"]
    by (simp add: set_message_method_def rbusMessage_BeginMetaSectionWrite_def method_bytes_def
        method_fits_def)
qed

lemma get_message_method_run:
  assumes m: "msgs s p = Some m" and b: "sbuf m = method_bytes (mp E) body method"
    and fits: "method_fits (mp E) body method" and off: "read_offset m < 2 ^ 31"
  shows "get_message_method E p s = Some (RT_OK, Some method,
    msg_put p (m\<lparr>meta_offset := int32_of_size (read_offset m)\<rparr>) s)"
proof -
  let ?m = "m\<lparr>meta_offset := int32_of_size (read_offset m), read_offset := length body\<rparr>"
  have len: "length body < 2 ^ 31" "length (sbuf m) < 2 ^ 64"
    using fits b by (simp_all add: method_fits_def)
  have seek: "rbusMessage_BeginMetaSectionRead (mp E) m = ?m"
    using b len by (intro BeginMetaSectionRead_seeks [where body = "body @ enc_fields (mp E) [F_String method]"])
      (simp_all add: method_bytes_def)
  have "get_field (mp E) ?m (F_String method) =
      (RT_OK, Some (F_String method), ?m\<lparr>read_offset := length body + length (enc_field (mp E) (F_String method))\<rparr>)"
    using fits b by (intro get_field_reads [where post = "meta_trailer (length body)"])
      (simp_all add: method_fits_def cname_ok_def method_bytes_def enc_fields_def)
  then have "\<exists>q. rbusMessage_GetString (mp E) ?m =
      (RT_OK, Some q, ?m\<lparr>read_offset := length body + length (enc_field (mp E) (F_String method))\<rparr>) \<and>
      message_cstr m q = Some method"
    by (auto simp: rbusMessage_GetString_def verify_unpack_def message_cstr_def
        split: prod.splits option.splits)
  then show ?thesis
    using m seek off
    by (auto simp: get_message_method_def msg_read_string_def msg_read_def message_cstr_def
        rbusMessage_EndMetaSectionRead_def size_of_int32_of_size)
qed

text \<open>Sending a response: it is freed whatever the router answers.\<close>

lemma sendResponse_given:
  assumes "rtMessageHeader_IsRequest E hdr" and "msgs s p = Some m" and "pk m" and "refCount m = 1"
    and "method_fits (mp E) (sbuf m) METHOD_RESPONSE"
  defines "c \<equiv> Rt_SendBinaryResponse hdr (method_bytes (mp E) (sbuf m) METHOD_RESPONSE)
    TIMEOUT_VALUE_FIRE_AND_FORGET"
  shows "rbus_sendResponse E hdr (Some p) s =
    Some (if rt_result E (io s) c = RT_OK then RTMESSAGE_BUS_SUCCESS else RTMESSAGE_BUS_ERROR_GENERAL,
          rbusMessage_Destroy p (s\<lparr>io := io s @ [c]\<rparr>))"
proof -
  let ?m = "m\<lparr>meta_offset := int32_of_size (length (sbuf m)),
      sbuf := method_bytes (mp E) (sbuf m) METHOD_RESPONSE\<rparr>"
  have "message_bytes ?m = sbuf ?m" using assms(5) by (intro message_bytes_small) (simp add: method_fits_def)
  then show ?thesis
    using assms(1-5) set_message_method_run [of s p m METHOD_RESPONSE]
    by (simp add: rbus_sendResponse_def c_def rt_do_def release_last)
qed


lemma sendResponse_made_up:
  assumes "rtMessageHeader_IsRequest E hdr"
    and "method_fits (mp E) (unsupported_body E) METHOD_RESPONSE"
  defines "c \<equiv> Rt_SendBinaryResponse hdr (method_bytes (mp E) (unsupported_body E) METHOD_RESPONSE)
    TIMEOUT_VALUE_FIRE_AND_FORGET"
  shows "rbus_sendResponse E hdr None s =
    Some (if rt_result E (io s) c = RT_OK then RTMESSAGE_BUS_SUCCESS else RTMESSAGE_BUS_ERROR_GENERAL,
          rbusMessage_Destroy (next_ptr s) (s\<lparr>io := io s @ [c], next_ptr := Suc (next_ptr s)\<rparr>))"
proof -
  let ?m = "rbusMessage_Init\<lparr>sbuf := unsupported_body E\<rparr>"
  let ?p = "next_ptr s" and ?s = "msg_put (next_ptr s) (rbusMessage_Init\<lparr>sbuf := unsupported_body E\<rparr>)
      (s\<lparr>next_ptr := Suc (next_ptr s)\<rparr>)"
  have w: "msg_write (\<lambda>m. rbusMessage_SetInt32 (mp E) m (error_int32 RTMESSAGE_BUS_ERROR_UNSUPPORTED_METHOD))
      ?p (msg_put ?p rbusMessage_Init (s\<lparr>next_ptr := Suc ?p\<rparr>)) = Some (RT_OK, ?s)"
    using put_field_appends [of rbusMessage_Init "F_Int32 (error_int32 RTMESSAGE_BUS_ERROR_UNSUPPORTED_METHOD)"]
    by (simp add: msg_write_def rbusMessage_Init_def unsupported_body_def enc_fields_def)
  have alloc: "msg_alloc rbusMessage_Init s = (?p, msg_put ?p rbusMessage_Init (s\<lparr>next_ptr := Suc ?p\<rparr>))"
    by (simp add: msg_alloc_def msg_put_def)
  have "rbus_sendResponse E hdr None s = rbus_sendResponse E hdr (Some ?p) ?s"
    using assms(1) alloc w by (simp add: rbus_sendResponse_def)
  then show ?thesis
    using sendResponse_given [of hdr ?s ?p ?m] assms
    by (simp add: rbusMessage_Init_def)
qed

lemma sendResponse_not_request:
  "\<not> rtMessageHeader_IsRequest E hdr \<Longrightarrow> rbus_sendResponse E hdr r s = Some (RTMESSAGE_BUS_SUCCESS, s)"
  by (simp add: rbus_sendResponse_def)

text \<open>The request and its reply, for a request message with one reference.\<close>

lemma invokeRemoteMethod_sends:
  assumes "g_connection s \<noteq> None" and "length n < MAX_OBJECT_NAME_LENGTH E"
    and m: "msgs s q = Some m" "pk m" and fits: "method_fits (mp E) (sbuf m) method"
    and m': "m' = m\<lparr>meta_offset := int32_of_size (length (sbuf m)), sbuf := method_bytes (mp E) (sbuf m) method\<rparr>"
    and req: "req = Rt_SendBinaryRequest (method_bytes (mp E) (sbuf m) method) n timeout"
  shows "set_message_method E q method s = Some (RTMESSAGE_BUS_SUCCESS, msg_put q m' s)"
    and "rt_result E (io s) req \<noteq> RT_OK \<Longrightarrow> rbus_sendRequest E q n timeout (msg_put q m' s) =
      Some (rt_result E (io s) req, None, msg_put q m' (s\<lparr>io := io s @ [req]\<rparr>))"
    and "rt_result E (io s) req = RT_OK \<Longrightarrow> rbus_sendRequest E q n timeout (msg_put q m' s) =
      Some (RT_OK, Some (next_ptr s), msg_put (next_ptr s) (rbusMessage_FromBytes (mp E) (rt_reply E (io s) req))
        (msg_put q m' (s\<lparr>io := io s @ [req], next_ptr := Suc (next_ptr s)\<rparr>)))"
proof -
  have bytes: "message_bytes m' = sbuf m'"
    using fits by (intro message_bytes_small) (simp add: method_fits_def m')
  show "set_message_method E q method s = Some (RTMESSAGE_BUS_SUCCESS, msg_put q m' s)"
    using m fits by (simp add: set_message_method_run m')
  show "rt_result E (io s) req \<noteq> RT_OK \<Longrightarrow> rbus_sendRequest E q n timeout (msg_put q m' s) =
      Some (rt_result E (io s) req, None, msg_put q m' (s\<lparr>io := io s @ [req]\<rparr>))"
    using bytes by (simp add: rbus_sendRequest_def rt_do_def req m' Let_def)
  show "rt_result E (io s) req = RT_OK \<Longrightarrow> rbus_sendRequest E q n timeout (msg_put q m' s) =
      Some (RT_OK, Some (next_ptr s), msg_put (next_ptr s) (rbusMessage_FromBytes (mp E) (rt_reply E (io s) req))
        (msg_put q m' (s\<lparr>io := io s @ [req], next_ptr := Suc (next_ptr s)\<rparr>)))"
    using bytes by (simp add: rbus_sendRequest_def rt_do_def req m' msg_alloc_def Let_def msg_put_def)
qed

lemma invokeRemoteMethod_failed:
  assumes "g_connection s \<noteq> None" and "length n < MAX_OBJECT_NAME_LENGTH E"
    and "msgs s q = Some m" "pk m" "refCount m = 1" and "method_fits (mp E) (sbuf m) method"
    and req: "req = Rt_SendBinaryRequest (method_bytes (mp E) (sbuf m) method) n timeout"
    and err: "rt_result E (io s) req \<noteq> RT_OK"
  shows "rbus_invokeRemoteMethod E n method (Some q) timeout s =
      Some (if rt_result E (io s) req = RT_OBJECT_NO_LONGER_AVAILABLE
              then RTMESSAGE_BUS_ERROR_DESTINATION_UNREACHABLE
            else if rt_result E (io s) req = RT_ERROR_TIMEOUT then RTMESSAGE_BUS_ERROR_REMOTE_TIMED_OUT
            else RTMESSAGE_BUS_ERROR_GENERAL,
            None, rbusMessage_Destroy q (s\<lparr>io := io s @ [req]\<rparr>))"
  using assms(1,2,5,8) invokeRemoteMethod_sends(1,2) [OF assms(1-4,6) refl req]
  by (auto simp: rbus_invokeRemoteMethod_def strnlen_ge_iff not_le release_last)

lemma invokeRemoteMethod_replied:
  assumes "g_connection s \<noteq> None" and "length n < MAX_OBJECT_NAME_LENGTH E"
    and "msgs s q = Some m" "pk m" "refCount m = 1" and "method_fits (mp E) (sbuf m) method"
    and req: "req = Rt_SendBinaryRequest (method_bytes (mp E) (sbuf m) method) n timeout"
    and ok: "rt_result E (io s) req = RT_OK"
    and rep: "rt_reply E (io s) req = method_bytes (mp E) body name" "method_fits (mp E) body name"
    and p: "p = next_ptr s" "q < p"
  shows "rbus_invokeRemoteMethod E n method (Some q) timeout s =
      (if take MAX_METHOD_NAME_LENGTH METHOD_RESPONSE = take MAX_METHOD_NAME_LENGTH name
       then Some (RTMESSAGE_BUS_SUCCESS, Some p, rbusMessage_Destroy q
         (msg_put p (rbusMessage_FromBytes (mp E) (method_bytes (mp E) body name))
           (s\<lparr>io := io s @ [req], next_ptr := Suc p\<rparr>)))
       else Some (RTMESSAGE_BUS_ERROR_MALFORMED_RESPONSE, None, rbusMessage_Destroy p (rbusMessage_Destroy q
           (s\<lparr>io := io s @ [req], next_ptr := Suc p\<rparr>))))"
proof -
  let ?r = "rbusMessage_FromBytes (mp E) (method_bytes (mp E) body name)"
  let ?m = "m\<lparr>meta_offset := int32_of_size (length (sbuf m)), sbuf := method_bytes (mp E) (sbuf m) method\<rparr>"
  let ?s = "s\<lparr>io := io s @ [req], next_ptr := Suc p\<rparr>"
  have r: "?r\<lparr>meta_offset := int32_of_size (read_offset ?r)\<rparr> = ?r" "refCount ?r = 1" "read_offset ?r = 0"
    by (simp_all add: rbusMessage_FromBytes_def int32_of_size_def)
  have get: "get_message_method E p (msg_put p ?r t) = Some (RT_OK, Some name, msg_put p ?r t)" for t
    using get_message_method_run [of "msg_put p ?r t" p ?r body name] rep(2) r by simp
  have comm: "rbusMessage_Destroy q (msg_put p ?r (msg_put q ?m ?s)) = rbusMessage_Destroy q (msg_put p ?r ?s)"
    using p by (auto simp: rbusMessage_Destroy_def msg_put_def fun_upd_twist)
  have comm2: "rbusMessage_Destroy p (rbusMessage_Destroy q (msg_put p ?r (msg_put q ?m ?s))) =
      rbusMessage_Destroy p (rbusMessage_Destroy q ?s)"
    using p by (auto simp: rbusMessage_Destroy_def msg_put_def fun_upd_twist)
  show ?thesis
    using assms(1,2,5,8) invokeRemoteMethod_sends(1,3) [OF assms(1-4,6) refl req] rep(1) get r(2) p comm comm2
    by (auto simp: rbus_invokeRemoteMethod_def strnlen_ge_iff not_le release_last strncmp_0_iff)
qed

text \<open>
  Dispatch to a callback of the application, the method's one, or the object's one if there is
  no such method; \<open>s1\<close> is the state after the requests that arrive while it runs.
\<close>

lemma dispatch_run:
  assumes tr: "io s = tr" and wf: "registry_wf E s" and f: "reg_find s n = Some p" and a: "abs_reg s n = Some a"
    and m: "msgs s q = Some m" "sbuf m = method_bytes (mp E) body method"
      "method_fits (mp E) body method" "read_offset m < 2 ^ 31"
    and t: "(case ao_methods a method of None \<Rightarrow> ao_callback a | Some am \<Rightarrow> am) = AM_App g d"
    and m': "m' = m\<lparr>meta_offset := int32_of_size (read_offset m)\<rparr>"
    and c: "c = App_Rpc g (topic hdr) (Some method) m' d hdr" 
    and s1: "deliver_nested E (rt_nested E tr c) ((unlock (msg_put q m' s))\<lparr>io := tr @ [c]\<rparr>) = Some s1"
    and r: "(r, s2) = (case app_response E tr c of None \<Rightarrow> (None, s1)
      | Some bytes \<Rightarrow> map_prod Some id (msg_alloc (rbusMessage_Init\<lparr>sbuf := bytes\<rparr>) s1))"
  shows "dispatch_method_call E q hdr p s =
    (if ao_methods a method = None \<and> app_result E tr c = rbus_error_code RTMESSAGE_BUS_SUCCESS_ASYNC
     then Some s2 else map_option snd (rbus_sendResponse E hdr r s2))"
proof -
  from wf f obtain ob ms where ob: "objs s p = Some ob" "object_wf E p ob"
      "abs_reg s n = Some (abs_object ob)" and ms: "methods ob = Some ms" "methods_wf p ms"
    by (rule reg_find_abs)
  have a': "a = abs_object ob" using a ob(3) by simp
  let ?s = "msg_put q m' s"
  have get: "get_message_method E q s = Some (RT_OK, Some method, ?s)"
    using m m' by (simp add: get_message_method_run)
  have call: "call_rpc E (App_Callback g) (Some method) q d hdr (unlock (lock ?s)) =
      Some (app_result E tr c, r, s2)"
    using s1 r by (simp add: call_rpc_def app_do_def c [symmetric] tr split: option.splits)
      (simp add: map_prod_def split_beta)
  show ?thesis
  proof (cases "table_map sm_name ms method")
    case None
    then have "so_callback ob = App_Callback g" "so_data ob = d" "ao_methods a method = None"
      using t ob(2) ms(1) by (cases "so_callback ob"; auto simp: a' abs_object_def abs_methods_def object_wf_def)+
    with None show ?thesis
      using get call ob(1) ms
      by (auto simp: dispatch_method_call_def find_method split: option.splits)
  next
    case (Some meth)
    then have "sm_callback meth = App_Callback g" "sm_data meth = d" "ao_methods a method \<noteq> None"
      using t ms(1) by (cases "sm_callback meth"; auto simp: a' abs_object_def abs_methods_def)+
    moreover have "0 < length ms" using Some by (cases ms) auto
    ultimately show ?thesis
      using Some get call ob(1) ms
      by (auto simp: dispatch_method_call_def find_method meths.size split: option.splits)
  qed
qed

text \<open>A message whose queue of nested requests is empty before and after the dispatch.\<close>

lemma onMessage_run:
  assumes "stack_counter s = 0"
    and d: "dispatch_method_call E (next_ptr s) hdr p
      (msg_put (next_ptr s) (rbusMessage_FromBytes (mp E) data)
        (s\<lparr>next_ptr := Suc (next_ptr s), stack_counter := 1\<rparr>)) = Some t"
    and q: "g_queued_requests t = Live v" "rtVector_Size (reqs_v E) v = 0"
    and t: "stack_counter t = 1" "msgs t (next_ptr s) = Some m" "refCount m = 1"
  shows "onMessage (Suc fuel) E hdr data p s =
    Some (Some (rbusMessage_Destroy (next_ptr s) (t\<lparr>stack_counter := 0\<rparr>)))"
proof -
  have alloc: "(s\<lparr>msgs := (msgs s)(next_ptr s \<mapsto> rbusMessage_FromBytes (mp E) data),
        next_ptr := Suc (next_ptr s), stack_counter := 1\<rparr>) =
      msg_put (next_ptr s) (rbusMessage_FromBytes (mp E) data)
        (s\<lparr>next_ptr := Suc (next_ptr s), stack_counter := 1\<rparr>)"
    by (simp add: msg_put_def)
  show ?thesis
    using assms by (simp add: onMessage_def msg_alloc_def alloc release_last)
qed

end

text \<open>Messages are allocated at fresh addresses.\<close>

definition heap_fresh :: "rbus_state \<Rightarrow> bool" where
  "heap_fresh s \<longleftrightarrow> (\<forall>p\<ge>next_ptr s. msgs s p = None)"

definition response_body :: "runtime \<Rightarrow> io_call list \<Rightarrow> io_call \<Rightarrow> byte list" where
  "response_body R t c = (case app_response R t c of None \<Rightarrow> unsupported_body R | Some b \<Rightarrow> b)"

definition idle :: "runtime \<Rightarrow> rbus_state \<Rightarrow> bool" where
  "idle R s \<longleftrightarrow> stack_counter s = 0 \<and>
     (\<exists>v. g_queued_requests s = Live v \<and> rtVector_Size (reqs_v R) v = 0) \<and> heap_fresh s"

context rbus_runtime
begin

lemma respond_run:
  assumes req: "rtMessageHeader_IsRequest E hdr"
    and fits: "method_fits (mp E) (response_body E t c) METHOD_RESPONSE"
    and r: "(r, s2) = (case app_response E t c of None \<Rightarrow> (None, s1)
      | Some bytes \<Rightarrow> map_prod Some id (msg_alloc (rbusMessage_Init\<lparr>sbuf := bytes\<rparr>) s1))"
  shows "map_option snd (rbus_sendResponse E hdr r s2) =
    Some (rbusMessage_Destroy (next_ptr s1) (s1\<lparr>io := io s1 @ [Rt_SendBinaryResponse hdr
        (method_bytes (mp E) (response_body E t c) METHOD_RESPONSE) TIMEOUT_VALUE_FIRE_AND_FORGET],
      next_ptr := Suc (next_ptr s1)\<rparr>))"
proof (cases "app_response E t c")
  case None
  then show ?thesis
    using r fits sendResponse_made_up [OF req, of s1] by (simp add: response_body_def)
next
  case (Some bytes)
  let ?m = "rbusMessage_Init\<lparr>sbuf := bytes\<rparr>"
  let ?s = "msg_put (next_ptr s1) ?m (s1\<lparr>next_ptr := Suc (next_ptr s1)\<rparr>)"
  have rs: "r = Some (next_ptr s1)" "s2 = ?s"
    using r Some by (simp_all add: msg_alloc_def msg_put_def)
  show ?thesis
    using sendResponse_given [OF req, of ?s "next_ptr s1" ?m] fits Some rs
    by (simp add: response_body_def rbusMessage_Init_def)
qed

text \<open>The dispatch of a message that has just arrived.\<close>

lemma dispatch_incoming:
  assumes wf: "registry_wf E s" and f: "reg_find s n = Some p" and a: "abs_reg s n = Some a"
    and fits: "method_fits (mp E) body method"
    and t: "(case ao_methods a method of None \<Rightarrow> ao_callback a | Some am \<Rightarrow> am) = AM_App g d"
    and m: "m = rbusMessage_FromBytes (mp E) (method_bytes (mp E) body method)"
    and c: "c = App_Rpc g (topic hdr) (Some method) m d hdr"
    and s0: "s0 = msg_put (next_ptr s) m (s\<lparr>next_ptr := Suc (next_ptr s), stack_counter := 1\<rparr>)"
    and s1: "deliver_nested E (rt_nested E (io s) c) ((unlock s0)\<lparr>io := io s @ [c]\<rparr>) = Some s1"
    and r: "(r, s2) = (case app_response E (io s) c of None \<Rightarrow> (None, s1)
      | Some bytes \<Rightarrow> map_prod Some id (msg_alloc (rbusMessage_Init\<lparr>sbuf := bytes\<rparr>) s1))"
  shows "dispatch_method_call E (next_ptr s) hdr p s0 =
    (if ao_methods a method = None \<and> app_result E (io s) c = rbus_error_code RTMESSAGE_BUS_SUCCESS_ASYNC
     then Some s2 else map_option snd (rbus_sendResponse E hdr r s2))"
proof -
  have wf0: "registry_wf E s0" "reg_find s0 = reg_find s" "abs_reg s0 = abs_reg s"
    using registry_cong [of "s\<lparr>next_ptr := Suc (next_ptr s), stack_counter := 1\<rparr>" s] wf s0 by simp_all
  have m': "sbuf m = method_bytes (mp E) body method" "read_offset m < 2 ^ 31"
    "m = m\<lparr>meta_offset := int32_of_size (read_offset m)\<rparr>"
    using FromBytes_sbuf by (simp_all add: m rbusMessage_FromBytes_def int32_of_size_def)
  have f0: "reg_find s0 n = Some p" "abs_reg s0 n = Some a" "msgs s0 (next_ptr s) = Some m" "io s0 = io s"
    "msg_put (next_ptr s) m s0 = s0"
    using wf0 f a by (simp_all add: s0)
  show ?thesis
    by (rule dispatch_run [OF f0(4) wf0(1) f0(1-3) m'(1) fits m'(2) t m'(3) c _ r]) (simp add: f0(5) s1)
qed

lemma request_handled_nested:
  assumes wf: "registry_wf E s" and f: "reg_find s n = Some p" and a: "abs_reg s n = Some a"
    and idle: "idle E s" and hdr: "rtMessageHeader_IsRequest E hdr"
    and fits: "method_fits (mp E) body method"
    and t: "(case ao_methods a method of None \<Rightarrow> ao_callback a | Some am \<Rightarrow> am) = AM_App g d"
    and c: "c = App_Rpc g (topic hdr) (Some method)
      (rbusMessage_FromBytes (mp E) (method_bytes (mp E) body method)) d hdr"
    and nested: "\<And>u. g_queued_requests u = g_queued_requests s \<Longrightarrow> heap_fresh u \<Longrightarrow>
      \<exists>k\<ge>next_ptr u. deliver_nested E (rt_nested E (io s) c) u = Some (u\<lparr>next_ptr := k\<rparr>)"
    and sync: "ao_methods a method = None \<Longrightarrow>
      app_result E (io s) c \<noteq> rbus_error_code RTMESSAGE_BUS_SUCCESS_ASYNC"
    and resp: "method_fits (mp E) (response_body E (io s) c) METHOD_RESPONSE"
  obtains s' where
    "onMessage (Suc fuel) E hdr (method_bytes (mp E) body method) p s = Some (Some s')"
    and "io s' = io s @ [c, Rt_SendBinaryResponse hdr
        (method_bytes (mp E) (response_body E (io s) c) METHOD_RESPONSE) TIMEOUT_VALUE_FIRE_AND_FORGET]"
    and "registry_wf E s'" and "abs_reg s' = abs_reg s" and "reg_find s' = reg_find s"
    and "msgs s' = msgs s" and "\<not> g_mutex s'" and "idle E s'" and "g_connection s' = g_connection s"
    and "server_core s' = server_core s"
proof -
  let ?q = "next_ptr s"
  let ?m = "rbusMessage_FromBytes (mp E) (method_bytes (mp E) body method)"
  let ?s0 = "msg_put ?q ?m (s\<lparr>next_ptr := Suc ?q, stack_counter := 1\<rparr>)"
  let ?u = "(unlock ?s0)\<lparr>io := io s @ [c]\<rparr>"
  let ?d = "Rt_SendBinaryResponse hdr (method_bytes (mp E) (response_body E (io s) c) METHOD_RESPONSE)
      TIMEOUT_VALUE_FIRE_AND_FORGET"
  have "heap_fresh ?u" using idle by (simp add: idle_def heap_fresh_def)
  then obtain k where k: "Suc ?q \<le> k" and nest: "deliver_nested E (rt_nested E (io s) c) ?u = Some (?u\<lparr>next_ptr := k\<rparr>)"
    using nested [of ?u] by auto
  let ?s1 = "?u\<lparr>next_ptr := k\<rparr>"
  let ?t = "rbusMessage_Destroy k (?s1\<lparr>io := io s @ [c, ?d], next_ptr := Suc k\<rparr>)"
  obtain r s2 where r: "(r, s2) = (case app_response E (io s) c of None \<Rightarrow> (None, ?s1)
      | Some bytes \<Rightarrow> map_prod Some id (msg_alloc (rbusMessage_Init\<lparr>sbuf := bytes\<rparr>) ?s1))"
    by (metis prod.exhaust)
  have "dispatch_method_call E ?q hdr p ?s0 = map_option snd (rbus_sendResponse E hdr r s2)"
    unfolding dispatch_incoming [OF wf f a fits t refl c refl nest r] using sync by meson
  also have "\<dots> = Some ?t" using respond_run [OF hdr resp r] by simp
  finally have disp: "dispatch_method_call E ?q hdr p ?s0 = Some ?t" .
  let ?s' = "rbusMessage_Destroy ?q (?t\<lparr>stack_counter := 0\<rparr>)"
  have "onMessage (Suc fuel) E hdr (method_bytes (mp E) body method) p s = Some (Some ?s')"
    using idle disp k by (auto simp: idle_def rbusMessage_FromBytes_def intro!: onMessage_run)
  moreover have "registry_wf E ?s'" "abs_reg ?s' = abs_reg s" "reg_find ?s' = reg_find s"
    using registry_cong [of ?s' s] wf k by simp_all
  moreover have "msgs ?s' = msgs s" using idle k by (auto simp: idle_def heap_fresh_def fun_eq_iff)
  moreover from this have "idle E ?s'" using idle k by (simp add: idle_def heap_fresh_def)
  moreover from \<open>msgs ?s' = msgs s\<close> have "server_core ?s' = server_core s"
    using idle by (simp add: server_core_def idle_def unlock_def rbusMessage_Destroy_def msg_put_def)
  ultimately show thesis using that by simp
qed

lemma request_handled:
  assumes wf: "registry_wf E s" and f: "reg_find s n = Some p" and a: "abs_reg s n = Some a"
    and idle: "idle E s" and hdr: "rtMessageHeader_IsRequest E hdr"
    and fits: "method_fits (mp E) body method"
    and t: "(case ao_methods a method of None \<Rightarrow> ao_callback a | Some am \<Rightarrow> am) = AM_App g d"
    and c: "c = App_Rpc g (topic hdr) (Some method)
      (rbusMessage_FromBytes (mp E) (method_bytes (mp E) body method)) d hdr"
    and nested: "rt_nested E (io s) c = []"
    and sync: "ao_methods a method = None \<Longrightarrow>
      app_result E (io s) c \<noteq> rbus_error_code RTMESSAGE_BUS_SUCCESS_ASYNC"
    and resp: "method_fits (mp E) (response_body E (io s) c) METHOD_RESPONSE"
  obtains s' where
    "onMessage (Suc fuel) E hdr (method_bytes (mp E) body method) p s = Some (Some s')"
    and "io s' = io s @ [c, Rt_SendBinaryResponse hdr
        (method_bytes (mp E) (response_body E (io s) c) METHOD_RESPONSE) TIMEOUT_VALUE_FIRE_AND_FORGET]"
    and "registry_wf E s'" and "abs_reg s' = abs_reg s" and "reg_find s' = reg_find s"
    and "msgs s' = msgs s" and "\<not> g_mutex s'" and "idle E s'" and "g_connection s' = g_connection s"
    and "server_core s' = server_core s"
  by (rule request_handled_nested [OF wf f a idle hdr fits t c _ sync resp]) (use nested that in auto)

text \<open>
  Any call to a callback of the application: what it returns, whether it leaves a response, whether the message
  is a request.  Without a response to send, one that the callback made stays allocated.
\<close>

lemma request_served:
  assumes wf: "registry_wf E s" and f: "reg_find s n = Some p" and a: "abs_reg s n = Some a"
    and idle: "idle E s" and fits: "method_fits (mp E) body method"
    and t: "(case ao_methods a method of None \<Rightarrow> ao_callback a | Some am \<Rightarrow> am) = AM_App g d"
    and c: "c = App_Rpc g (topic hdr) (Some method)
      (rbusMessage_FromBytes (mp E) (method_bytes (mp E) body method)) d hdr"
    and nested: "\<And>u. g_queued_requests u = g_queued_requests s \<Longrightarrow> heap_fresh u \<Longrightarrow>
      \<exists>k\<ge>next_ptr u. deliver_nested E (rt_nested E (io s) c) u = Some (u\<lparr>next_ptr := k\<rparr>)"
    and resp: "method_fits (mp E) (response_body E (io s) c) METHOD_RESPONSE"
  defines "silent \<equiv> \<not> rtMessageHeader_IsRequest E hdr \<or>
      ao_methods a method = None \<and> app_result E (io s) c = rbus_error_code RTMESSAGE_BUS_SUCCESS_ASYNC"
  obtains s' where
    "onMessage (Suc fuel) E hdr (method_bytes (mp E) body method) p s = Some (Some s')"
    and "io s' = io s @ c # (if silent then [] else [Rt_SendBinaryResponse hdr
        (method_bytes (mp E) (response_body E (io s) c) METHOD_RESPONSE) TIMEOUT_VALUE_FIRE_AND_FORGET])"
    and "registry_wf E s'" and "abs_reg s' = abs_reg s" and "\<not> g_mutex s'" and "idle E s'"
    and "g_event_subscriptions_for_client s' = g_event_subscriptions_for_client s"
    and "g_connection s' = g_connection s" and "g_master_event_callback s' = g_master_event_callback s"
    and "g_queued_requests s' = g_queued_requests s"
proof (cases silent)
  case False
  then have hdr: "rtMessageHeader_IsRequest E hdr" and sync: "ao_methods a method = None \<Longrightarrow>
      app_result E (io s) c \<noteq> rbus_error_code RTMESSAGE_BUS_SUCCESS_ASYNC" by (simp_all add: silent_def)
  obtain s' where s': "onMessage (Suc fuel) E hdr (method_bytes (mp E) body method) p s = Some (Some s')"
    "io s' = io s @ [c, Rt_SendBinaryResponse hdr
        (method_bytes (mp E) (response_body E (io s) c) METHOD_RESPONSE) TIMEOUT_VALUE_FIRE_AND_FORGET]"
    "registry_wf E s'" "abs_reg s' = abs_reg s" "\<not> g_mutex s'" "idle E s'" "server_core s' = server_core s"
    by (rule request_handled_nested [OF wf f a idle hdr fits t c nested sync resp])
  then show thesis using that False same_server_core [OF s'(7)] by simp
next
  case True
  let ?q = "next_ptr s"
  let ?m = "rbusMessage_FromBytes (mp E) (method_bytes (mp E) body method)"
  let ?s0 = "msg_put ?q ?m (s\<lparr>next_ptr := Suc ?q, stack_counter := 1\<rparr>)"
  let ?u = "(unlock ?s0)\<lparr>io := io s @ [c]\<rparr>"
  have "heap_fresh ?u" using idle by (simp add: idle_def heap_fresh_def)
  then obtain k where k: "Suc ?q \<le> k" and nest: "deliver_nested E (rt_nested E (io s) c) ?u = Some (?u\<lparr>next_ptr := k\<rparr>)"
    using nested [of ?u] by auto
  let ?s1 = "?u\<lparr>next_ptr := k\<rparr>"
  obtain r s2 where r: "(r, s2) = (case app_response E (io s) c of None \<Rightarrow> (None, ?s1)
      | Some bytes \<Rightarrow> map_prod Some id (msg_alloc (rbusMessage_Init\<lparr>sbuf := bytes\<rparr>) ?s1))"
    by (metis prod.exhaust)
  have disp: "dispatch_method_call E ?q hdr p ?s0 = Some s2"
    unfolding dispatch_incoming [OF wf f a fits t refl c refl nest r]
    using True sendResponse_not_request [of hdr r s2] by (auto simp: silent_def)
  obtain mm j where s2: "s2 = ?s1\<lparr>msgs := mm, next_ptr := j\<rparr>" and j: "k \<le> j"
    and mm: "\<forall>x. x < k \<or> j \<le> x \<longrightarrow> mm x = msgs ?u x"
  proof (cases "app_response E (io s) c")
    case None
    then show thesis using r that [of k "msgs ?u"] by simp
  next
    case (Some bytes)
    then show thesis
      using r that [of "Suc k" "(msgs ?u)(k \<mapsto> rbusMessage_Init\<lparr>sbuf := bytes\<rparr>)"] by (simp add: msg_alloc_def)
  qed
  let ?s' = "rbusMessage_Destroy ?q (s2\<lparr>stack_counter := 0\<rparr>)"
  have "mm ?q = Some ?m" using mm k by simp
  then have "onMessage (Suc fuel) E hdr (method_bytes (mp E) body method) p s = Some (Some ?s')"
    using idle disp by (auto simp: idle_def s2 rbusMessage_FromBytes_def intro!: onMessage_run)
  moreover have "registry_wf E ?s'" "abs_reg ?s' = abs_reg s"
    using registry_cong [of ?s' s] wf k j by (simp_all add: s2)
  moreover have "mm x = None" if "j \<le> x" for x
    using that mm j k idle by (auto simp: idle_def heap_fresh_def)
  then have "idle E ?s'" using idle by (simp add: idle_def heap_fresh_def s2)
  ultimately show thesis using that [of ?s'] True by (simp add: s2)
qed

end

context rbus_runtime
begin

lemma fields_of_method_message:
  assumes "\<forall>f\<in>set fs. field_ok f"
  shows "get_fields (mp E) (rbusMessage_FromBytes (mp E) (method_bytes (mp E) (enc_fields (mp E) fs) name)) fs =
    Some fs"
  using assms by (intro get_fields_reads [where pre = "[]"
        and post = "enc_fields (mp E) [F_String name] @ meta_trailer (length (enc_fields (mp E) fs))"])
    (simp_all add: FromBytes_sbuf rbusMessage_FromBytes_def method_bytes_def sbuffer_write)

lemma response_name_ok: "take MAX_METHOD_NAME_LENGTH METHOD_RESPONSE = METHOD_RESPONSE"
  by (simp add: MAX_METHOD_NAME_LENGTH_def METHOD_RESPONSE_def)

text \<open>The result code of a reply, as \<open>rbus_pushObj\<close> and \<open>rbus_pullObj\<close> read it.\<close>

lemma read_result_code:
  assumes "msgs s p = Some (rbusMessage_FromBytes (mp E) (enc_int32 (mp E) w @ post))"
  obtains m where "msg_read (rbusMessage_GetInt32 (mp E)) p s = Some (RT_OK, Some w, msg_put p m s)"
    and "refCount m = 1" and "sbuf m = enc_int32 (mp E) w @ post" and "read_offset m = length (enc_int32 (mp E) w)"
    and "pk m = False"
proof -
  let ?m = "rbusMessage_FromBytes (mp E) (enc_int32 (mp E) w @ post)"
  have "get_field (mp E) ?m (F_Int32 w) = (RT_OK, Some (F_Int32 w), ?m\<lparr>read_offset := length (enc_int32 (mp E) w)\<rparr>)"
    using get_field_reads [of ?m "[]" "F_Int32 w" post]
    by (simp add: rbusMessage_FromBytes_def sbuffer_write)
  then have "rbusMessage_GetInt32 (mp E) ?m = (RT_OK, Some w, ?m\<lparr>read_offset := length (enc_int32 (mp E) w)\<rparr>)"
    by (auto simp: rbusMessage_GetInt32_def verify_unpack_def split: prod.splits option.splits)
  then show thesis
    using assms that by (auto simp: msg_read_def rbusMessage_FromBytes_def sbuffer_write)
qed

end

context rbus_runtime
begin

lemma busy_run:
  assumes q: "g_queued_requests s = Live (Some rs)"
  shows "onMessage_busy E hdr data obj s = Some (rbusMessage_Destroy (next_ptr s)
    (s\<lparr>next_ptr := Suc (next_ptr s), g_queued_requests :=
       Live (Some (rs @ [\<lparr>qr_hdr = hdr, qr_msg = next_ptr s, qr_obj = obj\<rparr>]))\<rparr>))"
  using q by (simp add: onMessage_busy_def msg_alloc_def reqs.push rbusMessage_Release_def release
      rbusMessage_FromBytes_def rbusMessage_Destroy_def)

text \<open>
  The vector of queued requests is never created: it is still \<open>NULL\<close> when a request is queued, and the request is lost.
\<close>

lemma deliver_lost:
  assumes "rtVector_PushBack (reqs_v E) None = (\<lambda>_. None)" and "g_queued_requests u = Live None" and "heap_fresh u"
  shows "\<exists>k\<ge>next_ptr u. deliver_nested E reqs u = Some (u\<lparr>next_ptr := k\<rparr>)"
  using assms(2,3)
proof (induction reqs arbitrary: u)
  case Nil
  then show ?case by (intro exI [of _ "next_ptr u"]) simp
next
  case (Cons q reqs)
  obtain hdr data obj where q: "q = (hdr, data, obj)" by (metis prod_cases3)
  have "onMessage_busy E hdr data obj u = Some (u\<lparr>next_ptr := Suc (next_ptr u)\<rparr>)"
    using Cons.prems assms(1) by (simp add: onMessage_busy_def msg_alloc_def rbusMessage_Release_def release
        rbusMessage_FromBytes_def rbusMessage_Destroy_def heap_fresh_def fun_upd_idem)
  moreover have "heap_fresh (u\<lparr>next_ptr := Suc (next_ptr u)\<rparr>)" using Cons.prems(2) by (simp add: heap_fresh_def)
  ultimately show ?case using Cons.IH [of "u\<lparr>next_ptr := Suc (next_ptr u)\<rparr>"] Cons.prems(1) q by (auto intro: Suc_leD)
qed

lemma nested_lost:
  assumes wf: "registry_wf E s" and f: "reg_find s n = Some p" and a: "abs_reg s n = Some a"
    and idle: "stack_counter s = 0" "heap_fresh s" "g_queued_requests s = Live None"
    and null: "rtVector_PushBack (reqs_v E) None = (\<lambda>_. None)" "rtVector_Size (reqs_v E) None = 0"
    and hdr: "rtMessageHeader_IsRequest E hdr" and fits: "method_fits (mp E) body method"
    and t: "(case ao_methods a method of None \<Rightarrow> ao_callback a | Some am \<Rightarrow> am) = AM_App g d"
    and c: "c = App_Rpc g (topic hdr) (Some method)
      (rbusMessage_FromBytes (mp E) (method_bytes (mp E) body method)) d hdr"
    and sync: "app_result E (io s) c \<noteq> rbus_error_code RTMESSAGE_BUS_SUCCESS_ASYNC"
    and resp: "method_fits (mp E) (response_body E (io s) c) METHOD_RESPONSE"
  shows "\<exists>s'. onMessage (Suc fuel) E hdr (method_bytes (mp E) body method) p s = Some (Some s') \<and>
    io s' = io s @ [c, Rt_SendBinaryResponse hdr
      (method_bytes (mp E) (response_body E (io s) c) METHOD_RESPONSE) TIMEOUT_VALUE_FIRE_AND_FORGET] \<and>
    msgs s' = msgs s \<and> stack_counter s' = 0 \<and> g_queued_requests s' = Live None"
proof -
  have i: "idle E s" using idle null(2) by (simp add: idle_def)
  obtain s' where "onMessage (Suc fuel) E hdr (method_bytes (mp E) body method) p s = Some (Some s')"
    "io s' = io s @ [c, Rt_SendBinaryResponse hdr
      (method_bytes (mp E) (response_body E (io s) c) METHOD_RESPONSE) TIMEOUT_VALUE_FIRE_AND_FORGET]"
    "msgs s' = msgs s" "idle E s'" "server_core s' = server_core s"
    by (rule request_handled_nested [OF wf f a i hdr fits t c _ _ resp])
      (use deliver_lost [OF null(1)] idle sync in auto)
  moreover from this(5) have "g_queued_requests s' = g_queued_requests s" by (rule same_server_core)
  ultimately show ?thesis using idle by (auto simp: idle_def)
qed

lemma drain_freed:
  assumes "g_queued_requests s = Live (Some (req # rs))" and "msgs s (qr_msg req) = None"
  shows "drain_queue (Suc fuel) E s = Some None"
  using assms reqs.at [of 0 "req # rs"]
  by (simp add: reqs.size dispatch_method_call_def get_message_method_def)

lemma nested_request:
  assumes wf: "registry_wf E s" and f: "reg_find s n = Some p" and a: "abs_reg s n = Some a"
    and fits: "method_fits (mp E) body method"
    and t: "(case ao_methods a method of None \<Rightarrow> ao_callback a | Some am \<Rightarrow> am) = AM_App g d"
    and c: "c = App_Rpc g (topic hdr) (Some method)
      (rbusMessage_FromBytes (mp E) (method_bytes (mp E) body method)) d hdr"
    and hdr: "rtMessageHeader_IsRequest E hdr"
    and resp: "method_fits (mp E) (response_body E (io s) c) METHOD_RESPONSE"
    and sync: "app_result E (io s) c \<noteq> rbus_error_code RTMESSAGE_BUS_SUCCESS_ASYNC"
    and s: "stack_counter s = 0" "g_queued_requests s = Live (Some [])"
    and nested: "rt_nested E (io s) c = [(hdr2, data2, obj2)]"
  shows "onMessage (Suc fuel) E hdr (method_bytes (mp E) body method) p s = Some None"
proof -
  let ?q = "next_ptr s" and ?m = "rbusMessage_FromBytes (mp E) (method_bytes (mp E) body method)"
  let ?s0 = "msg_put ?q ?m (s\<lparr>next_ptr := Suc ?q, stack_counter := 1\<rparr>)"
  let ?u = "(unlock ?s0)\<lparr>io := io s @ [c]\<rparr>"
  let ?s1 = "rbusMessage_Destroy (Suc ?q) (?u\<lparr>next_ptr := Suc (Suc ?q), g_queued_requests :=
      Live (Some [\<lparr>qr_hdr = hdr2, qr_msg = Suc ?q, qr_obj = obj2\<rparr>])\<rparr>)"
  have nest: "deliver_nested E (rt_nested E (io s) c) ?u = Some ?s1"
    using busy_run [of ?u "[]" hdr2 data2 obj2] s(2) by (simp add: nested)
  obtain r s2 where r: "(r, s2) = (case app_response E (io s) c of None \<Rightarrow> (None, ?s1)
      | Some bytes \<Rightarrow> map_prod Some id (msg_alloc (rbusMessage_Init\<lparr>sbuf := bytes\<rparr>) ?s1))"
    by (metis prod.exhaust)
  obtain t where disp: "dispatch_method_call E ?q hdr p ?s0 = Some t"
    and t: "g_queued_requests t = Live (Some [\<lparr>qr_hdr = hdr2, qr_msg = Suc ?q, qr_obj = obj2\<rparr>])"
      "msgs t (Suc ?q) = None"
    unfolding dispatch_incoming [OF wf f a fits t refl c refl nest r]
    using respond_run [OF hdr resp r] sync by simp
  have drain: "drain_queue (Suc fuel) E t = Some None" by (rule drain_freed [OF t(1)]) (simp add: t(2))
  have alloc: "s\<lparr>msgs := (msgs s)(?q \<mapsto> ?m), next_ptr := Suc ?q, stack_counter := 1\<rparr> = ?s0"
    by (simp add: msg_put_def)
  show ?thesis using s(1) by (simp add: onMessage_def msg_alloc_def alloc disp drain del: drain_queue.simps)
qed

lemma async_request:
  assumes wf: "registry_wf E s" and f: "reg_find s n = Some p" and a: "abs_reg s n = Some a"
    and idle: "idle E s" and hdr: "rtMessageHeader_IsRequest E hdr"
    and fits: "method_fits (mp E) body method"
    and t: "(case ao_methods a method of None \<Rightarrow> ao_callback a | Some am \<Rightarrow> am) = AM_App g d"
    and c: "c = App_Rpc g (topic hdr) (Some method)
      (rbusMessage_FromBytes (mp E) (method_bytes (mp E) body method)) d hdr"
    and nested: "rt_nested E (io s) c = []" and none: "app_response E (io s) c = None"
    and async: "app_result E (io s) c = rbus_error_code RTMESSAGE_BUS_SUCCESS_ASYNC"
    and obj: "ao_methods a method = None"
  shows "\<exists>s'. onMessage (Suc fuel) E hdr (method_bytes (mp E) body method) p s = Some (Some s') \<and>
    io s' = io s @ [c] \<and> msgs s' = msgs s \<and> registry_wf E s' \<and> abs_reg s' = abs_reg s"
proof -
  let ?q = "next_ptr s"
  let ?m = "rbusMessage_FromBytes (mp E) (method_bytes (mp E) body method)"
  let ?s0 = "msg_put ?q ?m (s\<lparr>next_ptr := Suc ?q, stack_counter := 1\<rparr>)"
  let ?s1 = "(unlock ?s0)\<lparr>io := io s @ [c]\<rparr>"
  have nest: "deliver_nested E (rt_nested E (io s) c) ?s1 = Some ?s1" using nested by simp
  have r: "(None, ?s1) = (case app_response E (io s) c of None \<Rightarrow> (None, ?s1)
      | Some bytes \<Rightarrow> map_prod Some id (msg_alloc (rbusMessage_Init\<lparr>sbuf := bytes\<rparr>) ?s1))"
    by (simp add: none)
  have disp: "dispatch_method_call E ?q hdr p ?s0 = Some ?s1"
    unfolding dispatch_incoming [OF wf f a fits t refl c refl nest r]
    using async obj by simp
  let ?s' = "rbusMessage_Destroy ?q (?s1\<lparr>stack_counter := 0\<rparr>)"
  have "onMessage (Suc fuel) E hdr (method_bytes (mp E) body method) p s = Some (Some ?s')"
    using idle disp by (auto simp: idle_def rbusMessage_FromBytes_def intro!: onMessage_run)
  moreover have "registry_wf E ?s'" "abs_reg ?s' = abs_reg s" using registry_cong [of ?s' s] wf by simp_all
  moreover have "msgs ?s' = msgs s" using idle by (auto simp: idle_def heap_fresh_def fun_eq_iff)
  ultimately show ?thesis by auto
qed

end

lemma rpc_exchange:
  fixes Ec Es :: runtime
  assumes "rbus_runtime Ec" and "rbus_runtime Es" and "mp Ec = M" and "mp Es = M"
    and "\<forall>f\<in>set args. field_ok f" and "\<forall>f\<in>set results. field_ok f"
    and "method_fits M (enc_fields M args) method" and "method_fits M (enc_fields M results) METHOD_RESPONSE"
    \<comment> \<open>the client\<close>
    and "g_connection cs \<noteq> None" and "length n < MAX_OBJECT_NAME_LENGTH Ec"
    and "msgs cs q = Some m" and "pk m" and "refCount m = 1" and "sbuf m = enc_fields M args" and "q < next_ptr cs"
    and "req = Rt_SendBinaryRequest (method_bytes M (enc_fields M args) method) n timeout"
    \<comment> \<open>the server\<close>
    and "registry_wf Es s" and "idle Es s" and "reg_find s n = Some p" and "abs_reg s n = Some a"
    and "rtMessageHeader_IsRequest Es hdr"
    and "(case ao_methods a method of None \<Rightarrow> ao_callback a | Some am \<Rightarrow> am) = AM_App g d"
    and "c = App_Rpc g (topic hdr) (Some method)
      (rbusMessage_FromBytes M (method_bytes M (enc_fields M args) method)) d hdr"
    and "rt_nested Es (io s) c = []" and "app_response Es (io s) c = Some (enc_fields M results)"
    and "app_result Es (io s) c \<noteq> rbus_error_code RTMESSAGE_BUS_SUCCESS_ASYNC"
  shows "\<exists>s' mi b. onMessage (Suc fuel) Es hdr (method_bytes M (enc_fields M args) method) p s = Some (Some s') \<and>
    io s' = io s @ [App_Rpc g (topic hdr) (Some method) mi d hdr, Rt_SendBinaryResponse hdr b 1000] \<and>
    get_fields M mi args = Some args \<and> b = method_bytes M (enc_fields M results) METHOD_RESPONSE \<and>
    registry_wf Es s' \<and> abs_reg s' = abs_reg s \<and> msgs s' = msgs s \<and> \<not> g_mutex s' \<and> idle Es s' \<and>
    (rt_result Ec (io cs) req = RT_OK \<and> rt_reply Ec (io cs) req = b \<longrightarrow>
      (\<exists>r cs' rm. rbus_invokeRemoteMethod Ec n method (Some q) timeout cs =
          Some (RTMESSAGE_BUS_SUCCESS, Some r, cs') \<and>
        msgs cs' r = Some rm \<and> get_fields M rm results = Some results \<and> msgs cs' q = None))"
proof -
  note Ec = assms(1) and Es = assms(2) and M = assms(3,4)
  let ?b = "method_bytes M (enc_fields M results) METHOD_RESPONSE"
  have body: "response_body Es (io s) c = enc_fields M results" using assms(25) by (simp add: response_body_def)
  obtain s' where s': "onMessage (Suc fuel) Es hdr (method_bytes M (enc_fields M args) method) p s = Some (Some s')"
    "io s' = io s @ [c, Rt_SendBinaryResponse hdr ?b TIMEOUT_VALUE_FIRE_AND_FORGET]"
    "registry_wf Es s'" "abs_reg s' = abs_reg s" "msgs s' = msgs s" "\<not> g_mutex s'" "idle Es s'"
    by (rule rbus_runtime.request_handled [OF Es assms(17,19,20,18,21), of "enc_fields M args" "method" g d c fuel])
      (use assms(7,8,22-26) M body in auto)
  have args: "get_fields M (rbusMessage_FromBytes M (method_bytes M (enc_fields M args) method)) args = Some args"
    using rbus_runtime.fields_of_method_message [OF Es assms(5)] M by simp
  have "\<exists>r cs' rm. rbus_invokeRemoteMethod Ec n method (Some q) timeout cs =
      Some (RTMESSAGE_BUS_SUCCESS, Some r, cs') \<and>
      msgs cs' r = Some rm \<and> get_fields M rm results = Some results \<and> msgs cs' q = None"
    if ok: "rt_result Ec (io cs) req = RT_OK" "rt_reply Ec (io cs) req = ?b"
  proof -
    have "rbus_invokeRemoteMethod Ec n method (Some q) timeout cs = Some (RTMESSAGE_BUS_SUCCESS,
        Some (next_ptr cs), rbusMessage_Destroy q (msg_put (next_ptr cs) (rbusMessage_FromBytes M ?b)
          (cs\<lparr>io := io cs @ [req], next_ptr := Suc (next_ptr cs)\<rparr>)))"
      using rbus_runtime.invokeRemoteMethod_replied [OF Ec assms(9-13), of "method" req timeout
          "enc_fields M results" METHOD_RESPONSE "next_ptr cs"] assms(7,8,14-16) M ok by simp
    then show ?thesis
      using assms(15) rbus_runtime.fields_of_method_message [OF Es assms(6), of METHOD_RESPONSE] M by simp
  qed
  with s' args show ?thesis
    by (intro exI [of _ s'] exI [of _ "rbusMessage_FromBytes M (method_bytes M (enc_fields M args) method)"]
        exI [of _ ?b]) (simp add: assms(23) TIMEOUT_VALUE_FIRE_AND_FORGET_def)
qed

section \<open>Properties\<close>

text \<open>
  C3. A remote call, end to end.  The client sends a request with the arguments \<open>args\<close>; the server that
  owns the object gets those bytes, calls the callback registered for the method (the object's
  own callback if there is none) exactly once, with the arguments intact and the method name,
  and sends exactly one response; the client that gets the bytes of that response returns success
  with a message from which the results \<open>results\<close> of the callback are read exactly.  The server
  ends with the same messages, the same registry and the mutex free; the client has
  released its request.
\<close>

theorem rpc_end_to_end:
  fixes Ec Es :: runtime
  assumes "rbus_runtime Ec" and "rbus_runtime Es" and "mp Ec = M" and "mp Es = M"
    and "\<forall>f\<in>set args. field_ok f" and "\<forall>f\<in>set results. field_ok f"
    and "method_fits M (enc_fields M args) method" and "method_fits M (enc_fields M results) METHOD_RESPONSE"
    \<comment> \<open>the client\<close>
    and "g_connection cs \<noteq> None" and "length n < MAX_OBJECT_NAME_LENGTH Ec"
    and "msgs cs q = Some m" and "pk m" and "refCount m = 1" and "sbuf m = enc_fields M args" and "q < next_ptr cs"
    and "req = Rt_SendBinaryRequest (method_bytes M (enc_fields M args) method) n timeout"
    \<comment> \<open>the server\<close>
    and "registry_wf Es s" and "idle Es s" and "reg_find s n = Some p" and "abs_reg s n = Some a"
    and "rtMessageHeader_IsRequest Es hdr"
    and "(case ao_methods a method of None \<Rightarrow> ao_callback a | Some am \<Rightarrow> am) = AM_App g d"
    and "c = App_Rpc g (topic hdr) (Some method)
      (rbusMessage_FromBytes M (method_bytes M (enc_fields M args) method)) d hdr"
    and "rt_nested Es (io s) c = []" and "app_response Es (io s) c = Some (enc_fields M results)"
    and "app_result Es (io s) c \<noteq> rbus_error_code RTMESSAGE_BUS_SUCCESS_ASYNC"
  shows "\<exists>s' mi b. onMessage (Suc fuel) Es hdr (method_bytes M (enc_fields M args) method) p s = Some (Some s') \<and>
    io s' = io s @ [App_Rpc g (topic hdr) (Some method) mi d hdr, Rt_SendBinaryResponse hdr b 1000] \<and>
    get_fields M mi args = Some args \<and> b = method_bytes M (enc_fields M results) METHOD_RESPONSE \<and>
    registry_wf Es s' \<and> abs_reg s' = abs_reg s \<and> msgs s' = msgs s \<and> \<not> g_mutex s' \<and> idle Es s' \<and>
    (rt_result Ec (io cs) req = RT_OK \<and> rt_reply Ec (io cs) req = b \<longrightarrow>
      (\<exists>r cs' rm. rbus_invokeRemoteMethod Ec n method (Some q) timeout cs =
          Some (RTMESSAGE_BUS_SUCCESS, Some r, cs') \<and>
        msgs cs' r = Some rm \<and> get_fields M rm results = Some results \<and> msgs cs' q = None))"
  by (rule rpc_exchange [OF assms])


text \<open>A service with the method \<open>get\<close>, which answers 42, and a client with a request.\<close>

definition service_object :: server_object where
  "service_object =
     \<lparr>so_name = ''obj'', so_data = UD_NULL, so_callback = App_Callback 1,
      process_event_subscriptions = False,
      methods = Some [\<lparr>sm_name = ''get'', sm_callback = App_Callback 2, sm_data = UD_App 5\<rparr>],
      subscriptions = Some [], subscribe_handler_override = None, subscribe_handler_data = UD_NULL\<rparr>"

definition service_state :: rbus_state where
  "service_state = ready_state\<lparr>g_server_objects := Live (Some [1]), next_ptr := 2,
     objs := [1 \<mapsto> service_object]\<rparr>"

definition client_state :: rbus_state where
  "client_state = ready_state\<lparr>next_ptr := 2,
     msgs := [1 \<mapsto> rbusMessage_Init\<lparr>sbuf := enc_fields messagepack [F_String ''key'']\<rparr>]\<rparr>"

definition answer_world :: world where
  "answer_world = calm_world\<lparr>w_response := (\<lambda>_ _. Some (enc_fields messagepack [F_Int32 42])),
     w_reply := (\<lambda>_ _. method_bytes messagepack (enc_fields messagepack [F_Int32 42]) METHOD_RESPONSE)\<rparr>"

lemma service_state_facts:
  "registry_wf (std_runtime w) service_state" "idle (std_runtime w) service_state"
  "reg_find service_state ''obj'' = Some 1" "abs_reg service_state ''obj'' = Some (abs_object service_object)"
  "ao_methods (abs_object service_object) ''get'' = Some (AM_App 2 (UD_App 5))"
  by (auto simp: registry_wf_def service_state_def service_object_def ready_state_def
      initial_state_def table_wf_def obj_name_def object_wf_def methods_wf_def events_wf_def
      abs_reg_def reg_find_def objects_of_def table_map_def idle_def heap_fresh_def list_vector_def
      abs_object_def abs_methods_def MAX_METHOD_NAME_LENGTH_def MAX_SUPPORTED_METHODS_def)

lemma client_state_facts:
  "g_connection client_state \<noteq> None" "1 < next_ptr client_state"
  "msgs client_state 1 = Some (rbusMessage_Init\<lparr>sbuf := enc_fields messagepack [F_String ''key'']\<rparr>)"
  by (simp_all add: client_state_def ready_state_def initial_state_def)

lemma demo_fits:
  "method_fits messagepack (enc_fields messagepack [F_String ''key'']) ''get''"
  "method_fits messagepack (enc_fields messagepack [F_Int32 42]) METHOD_RESPONSE"
  by (simp_all add: method_fits_def method_bytes_def enc_fields_def cname_ok_def no_nul_def char_of_0
      mp_str_def mp_int_def METHOD_RESPONSE_def)

theorem rpc_end_to_end_witness:
  "\<exists>s' r cs' rm. onMessage 1 (std_runtime answer_world) \<lparr>topic = ''obj'', reply_topic = ''r'', flags = 1\<rparr>
       (method_bytes messagepack (enc_fields messagepack [F_String ''key'']) ''get'') 1 service_state =
       Some (Some s') \<and> length (io s') = 2 \<and>
     rbus_invokeRemoteMethod (std_runtime answer_world) ''obj'' ''get'' (Some 1) 1000 client_state =
       Some (RTMESSAGE_BUS_SUCCESS, Some r, cs') \<and>
     msgs cs' r = Some rm \<and> get_fields messagepack rm [F_Int32 42] = Some [F_Int32 42]"
proof -
  let ?E = "std_runtime answer_world" and ?hdr = "\<lparr>topic = ''obj'', reply_topic = ''r'', flags = 1\<rparr>"
  have io: "io service_state = []" "io client_state = []"
    by (simp_all add: service_state_def client_state_def ready_state_def initial_state_def)
  have w: "rt_nested ?E t c = []" "app_response ?E t c = Some (enc_fields messagepack [F_Int32 42])"
    "app_result ?E t c \<noteq> rbus_error_code RTMESSAGE_BUS_SUCCESS_ASYNC" "rt_result ?E t c = RT_OK"
    "rt_reply ?E t c = method_bytes messagepack (enc_fields messagepack [F_Int32 42]) METHOD_RESPONSE"
    "rtMessageHeader_IsRequest ?E ?hdr" for t c
    by (simp_all add: std_runtime_def answer_world_def calm_world_def)
  have t: "(case ao_methods (abs_object service_object) ''get'' of
      None \<Rightarrow> ao_callback (abs_object service_object) | Some am \<Rightarrow> am) = AM_App 2 (UD_App 5)"
    using service_state_facts(5) by simp
  have m: "pk (rbusMessage_Init\<lparr>sbuf := b\<rparr>)" "refCount (rbusMessage_Init\<lparr>sbuf := b\<rparr>) = 1"
    "sbuf (rbusMessage_Init\<lparr>sbuf := b\<rparr>) = b" "mp ?E = messagepack" "length ''obj'' < MAX_OBJECT_NAME_LENGTH ?E"
    "\<forall>f\<in>set [F_String ''key'']. field_ok f" "\<forall>f\<in>set [F_Int32 42]. field_ok f" for b
    by (simp_all add: rbusMessage_Init_def no_nul_def char_of_0)
  from rpc_end_to_end [OF std_rbus_runtime std_rbus_runtime m(4,4,6,7) demo_fits client_state_facts(1) m(5)
      client_state_facts(3) m(1-3) client_state_facts(2) refl service_state_facts(1-4) w(6) t refl w(1-3),
      of 0 1000] w(4,5) io
  show ?thesis by auto
qed


text \<open>
  C27. Failures of a remote call.  A router error is reported as \<open>DESTINATION_UNREACHABLE\<close>,
  \<open>REMOTE_TIMED_OUT\<close> or a general error; a reply whose method is not \<open>METHOD_RESPONSE\<close> is
  reported as malformed and freed.  In every case no response is handed out, the request has
  been released, and no other message of the process is touched.
\<close>

theorem rpc_failures:
  assumes "rbus_runtime E" and "g_connection s \<noteq> None" and "length n < MAX_OBJECT_NAME_LENGTH E"
    and "msgs s q = Some m" and "pk m" and "refCount m = 1" and "method_fits (mp E) (sbuf m) method"
    and "req = Rt_SendBinaryRequest (method_bytes (mp E) (sbuf m) method) n timeout"
    and "heap_fresh s"
    and "rt_result E (io s) req \<noteq> RT_OK \<or>
      rt_reply E (io s) req = method_bytes (mp E) body name \<and> method_fits (mp E) body name \<and>
      name \<noteq> METHOD_RESPONSE \<and> length name \<le> MAX_METHOD_NAME_LENGTH"
  shows "\<exists>s'. rbus_invokeRemoteMethod E n method (Some q) timeout s =
      Some (case rt_result E (io s) req of
              RT_OK \<Rightarrow> RTMESSAGE_BUS_ERROR_MALFORMED_RESPONSE
            | RT_OBJECT_NO_LONGER_AVAILABLE \<Rightarrow> RTMESSAGE_BUS_ERROR_DESTINATION_UNREACHABLE
            | RT_ERROR_TIMEOUT \<Rightarrow> RTMESSAGE_BUS_ERROR_REMOTE_TIMED_OUT
            | _ \<Rightarrow> RTMESSAGE_BUS_ERROR_GENERAL, None, s') \<and>
    msgs s' = (msgs s)(q := None) \<and> io s' = io s @ [req]"
proof (cases "rt_result E (io s) req = RT_OK")
  case False
  then show ?thesis
    using rbus_runtime.invokeRemoteMethod_failed [OF assms(1-8)] by (auto split: rtError.splits)
next
  case True
  with assms(10) have rep: "rt_reply E (io s) req = method_bytes (mp E) body name"
    "method_fits (mp E) body name" and name: "name \<noteq> METHOD_RESPONSE" "length name \<le> MAX_METHOD_NAME_LENGTH"
    by simp_all
  have q: "q < next_ptr s" using assms(4,9) by (metis heap_fresh_def not_le option.distinct(1))
  have "take MAX_METHOD_NAME_LENGTH METHOD_RESPONSE \<noteq> take MAX_METHOD_NAME_LENGTH name"
    using name rbus_runtime.response_name_ok [OF assms(1)] by simp
  then show ?thesis
    using rbus_runtime.invokeRemoteMethod_replied [OF assms(1-8) True rep refl q] True assms(9)
    by (auto simp: heap_fresh_def fun_eq_iff)
qed

definition timeout_world :: world where
  "timeout_world = calm_world\<lparr>w_result := (\<lambda>_ _. RT_ERROR_TIMEOUT)\<rparr>"

theorem rpc_failures_witness:
  "\<exists>s'. rbus_invokeRemoteMethod (std_runtime timeout_world) ''obj'' ''get'' (Some 1) 1000 client_state =
      Some (RTMESSAGE_BUS_ERROR_REMOTE_TIMED_OUT, None, s') \<and> msgs s' 1 = None"
proof -
  let ?E = "std_runtime timeout_world"
  let ?m = "rbusMessage_Init\<lparr>sbuf := enc_fields messagepack [F_String ''key'']\<rparr>"
  have m: "pk ?m" "refCount ?m = 1" "method_fits (mp ?E) (sbuf ?m) ''get''" "length ''obj'' < MAX_OBJECT_NAME_LENGTH ?E"
    using demo_fits(1) by (simp_all add: rbusMessage_Init_def)
  have w: "rt_result ?E t c = RT_ERROR_TIMEOUT" for t c
    by (simp add: std_runtime_def timeout_world_def)
  have "heap_fresh client_state" by (simp add: heap_fresh_def client_state_def ready_state_def initial_state_def)
  from rpc_failures [OF std_rbus_runtime [of timeout_world] client_state_facts(1) m(4) client_state_facts(3) m(1-3)
      refl this, of 1000 "[]" "[]"] w
  show ?thesis by auto
qed

text \<open>
  The early returns of \<open>rbus_invokeRemoteMethod\<close> (no connection, object name too long) do
  not release the request: the state is unchanged and the message is still allocated, while
  every other path releases it.
\<close>

lemma early_return_keeps_request:
  assumes "g_connection s = None \<or> MAX_OBJECT_NAME_LENGTH E \<le> length n"
  shows "rbus_invokeRemoteMethod E n method (Some q) timeout s =
    Some (if g_connection s = None then RTMESSAGE_BUS_ERROR_INVALID_STATE
          else RTMESSAGE_BUS_ERROR_INVALID_PARAM, None, s)"
  using assms by (auto simp: rbus_invokeRemoteMethod_def strnlen_ge_iff)

lemma early_return_keeps_request_witness:
  "rbus_invokeRemoteMethod (std_runtime calm_world) ''obj'' ''get'' (Some 1) 1000
     (client_state\<lparr>g_connection := None\<rparr>) =
   Some (RTMESSAGE_BUS_ERROR_INVALID_STATE, None, client_state\<lparr>g_connection := None\<rparr>)"
  using early_return_keeps_request [of "client_state\<lparr>g_connection := None\<rparr>" "std_runtime calm_world"
      "''obj''" "''get''" 1 1000] by simp

text \<open>
  C28. \<open>rbus_pushObj\<close> returns the code the remote side put into its response, for every code of the
  enum, and leaves no message behind: neither the request nor the response.
\<close>

theorem pushObj_returns_remote_code:
  assumes "rbus_runtime E" and "g_connection s \<noteq> None" and "length n < MAX_OBJECT_NAME_LENGTH E"
    and "msgs s q = Some m" and "pk m" and "refCount m = 1"
    and "method_fits (mp E) (sbuf m) METHOD_SETPARAMETERVALUES"
    and "req = Rt_SendBinaryRequest (method_bytes (mp E) (sbuf m) METHOD_SETPARAMETERVALUES) n timeout"
    and "heap_fresh s" and "e \<in> set rbus_error_enum"
    and "rt_result E (io s) req = RT_OK"
    and "body = enc_int32 (mp E) (error_int32 e) @ rest" and "method_fits (mp E) body METHOD_RESPONSE"
    and "rt_reply E (io s) req = method_bytes (mp E) body METHOD_RESPONSE"
  shows "\<exists>s'. rbus_pushObj E n (Some q) timeout s = Some (e, s') \<and> msgs s' = (msgs s)(q := None)"
proof -
  have q: "q < next_ptr s" using assms(4,9) by (metis heap_fresh_def not_le option.distinct(1))
  let ?p = "next_ptr s" and ?r = "rbusMessage_FromBytes (mp E) (method_bytes (mp E) body METHOD_RESPONSE)"
  let ?s1 = "rbusMessage_Destroy q (msg_put ?p ?r (s\<lparr>io := io s @ [req], next_ptr := Suc ?p\<rparr>))"
  have inv: "rbus_invokeRemoteMethod E n METHOD_SETPARAMETERVALUES (Some q) timeout s =
      Some (RTMESSAGE_BUS_SUCCESS, Some ?p, ?s1)"
    using rbus_runtime.invokeRemoteMethod_replied [OF assms(1-8,11,14,13) refl q] by simp
  have "msgs ?s1 ?p = Some (rbusMessage_FromBytes (mp E) (enc_int32 (mp E) (error_int32 e) @
      rest @ enc_fields (mp E) [F_String METHOD_RESPONSE] @ meta_trailer (length body)))"
    using q assms(12) by (simp add: method_bytes_def)
  then obtain rm where rm: "msg_read (rbusMessage_GetInt32 (mp E)) ?p ?s1 =
      Some (RT_OK, Some (error_int32 e), msg_put ?p rm ?s1)" "refCount rm = 1"
    by (rule rbus_runtime.read_result_code [OF assms(1)])
  have "rbus_pushObj E n (Some q) timeout s = Some (e, rbusMessage_Destroy ?p ?s1)"
    using inv rm int32_error_roundtrip [OF assms(10)]
    by (simp add: rbus_pushObj_def rbus_runtime.release_last [OF assms(1)])
  then show ?thesis using assms(9) by (auto simp: heap_fresh_def fun_eq_iff)
qed


definition refusal_body :: "byte list" where
  "refusal_body = enc_int32 messagepack (error_int32 RTMESSAGE_BUS_ERROR_UNSUPPORTED_METHOD)"

definition refusal_world :: world where
  "refusal_world = calm_world\<lparr>w_reply := (\<lambda>_ _. method_bytes messagepack refusal_body METHOD_RESPONSE)\<rparr>"

theorem pushObj_returns_remote_code_witness:
  "\<exists>s'. rbus_pushObj (std_runtime refusal_world) ''obj'' (Some 1) 1000 client_state =
      Some (RTMESSAGE_BUS_ERROR_UNSUPPORTED_METHOD, s') \<and> msgs s' = Map.empty"
proof -
  let ?E = "std_runtime refusal_world"
  let ?m = "rbusMessage_Init\<lparr>sbuf := enc_fields messagepack [F_String ''key'']\<rparr>"
  have m: "pk ?m" "refCount ?m = 1" "method_fits (mp ?E) (sbuf ?m) METHOD_SETPARAMETERVALUES"
      "length ''obj'' < MAX_OBJECT_NAME_LENGTH ?E"
    by (simp_all add: rbusMessage_Init_def method_fits_def method_bytes_def enc_fields_def cname_ok_def
        no_nul_def char_of_0 mp_str_def METHOD_SETPARAMETERVALUES_def)
  have w: "rt_result ?E t c = RT_OK" "rt_reply ?E t c = method_bytes (mp ?E) refusal_body METHOD_RESPONSE" for t c
    by (simp_all add: std_runtime_def refusal_world_def calm_world_def)
  have b: "refusal_body = enc_int32 (mp ?E) (error_int32 RTMESSAGE_BUS_ERROR_UNSUPPORTED_METHOD) @ []"
    by (simp add: refusal_body_def)
  have f: "method_fits (mp ?E) refusal_body METHOD_RESPONSE"
    by (simp add: refusal_body_def method_fits_def method_bytes_def enc_fields_def cname_ok_def no_nul_def
        char_of_0 mp_str_def mp_int_def METHOD_RESPONSE_def error_int32_def)
  have h: "heap_fresh client_state" "(msgs client_state)(1 := None) = Map.empty"
    by (auto simp: heap_fresh_def client_state_def ready_state_def initial_state_def)
  have e: "RTMESSAGE_BUS_ERROR_UNSUPPORTED_METHOD \<in> set rbus_error_enum" by (simp add: rbus_error_enum_def)
  from pushObj_returns_remote_code [OF std_rbus_runtime [of refusal_world] client_state_facts(1) m(4)
      client_state_facts(3) m(1-3) refl h(1) e w(1) b f w(2)] h(2)
  show ?thesis by simp
qed

text \<open>
  C35. \<open>RTMESSAGE_BUS_SUCCESS_ASYNC\<close> is honoured only for the callback of an object.  When the
  object's callback returns it, nothing is sent; when the callback of a registered method
  returns it and leaves the response to later, rbuscore sends a made-up \<open>UNSUPPORTED_METHOD\<close>
  response at once.
\<close>

theorem async_result_of_method_is_answered:
  assumes "rbus_runtime E" and "registry_wf E s" and "reg_find s n = Some p" and "abs_reg s n = Some a"
    and "idle E s" and "rtMessageHeader_IsRequest E hdr" and "method_fits (mp E) body method"
    and "(case ao_methods a method of None \<Rightarrow> ao_callback a | Some am \<Rightarrow> am) = AM_App g d"
    and "c = App_Rpc g (topic hdr) (Some method)
      (rbusMessage_FromBytes (mp E) (method_bytes (mp E) body method)) d hdr"
    and "rt_nested E (io s) c = []" and "app_response E (io s) c = None"
    and "app_result E (io s) c = rbus_error_code RTMESSAGE_BUS_SUCCESS_ASYNC"
    and "method_fits (mp E) (unsupported_body E) METHOD_RESPONSE"
  shows "\<exists>s'. onMessage (Suc fuel) E hdr (method_bytes (mp E) body method) p s = Some (Some s') \<and>
    io s' = io s @ (if ao_methods a method = None then [c] else [c, Rt_SendBinaryResponse hdr
      (method_bytes (mp E) (unsupported_body E) METHOD_RESPONSE) 1000]) \<and>
    msgs s' = msgs s \<and> registry_wf E s' \<and> abs_reg s' = abs_reg s"
proof (cases "ao_methods a method")
  case (Some am)
  have "response_body E (io s) c = unsupported_body E" using assms(11) by (simp add: response_body_def)
  then obtain s' where "onMessage (Suc fuel) E hdr (method_bytes (mp E) body method) p s = Some (Some s')"
    "io s' = io s @ [c, Rt_SendBinaryResponse hdr
        (method_bytes (mp E) (unsupported_body E) METHOD_RESPONSE) TIMEOUT_VALUE_FIRE_AND_FORGET]"
    "registry_wf E s'" "abs_reg s' = abs_reg s" "msgs s' = msgs s"
    using rbus_runtime.request_handled [OF assms(1-10)] assms(13) Some by (metis option.distinct(1))
  with Some show ?thesis by (simp add: TIMEOUT_VALUE_FIRE_AND_FORGET_def)
next
  case None
  then show ?thesis using rbus_runtime.async_request [OF assms(1-12)] by simp
qed


definition async_world :: world where
  "async_world = calm_world\<lparr>w_app := (\<lambda>_ _. 13)\<rparr>"

theorem async_result_of_method_is_answered_witness:
  "\<exists>s' c b. onMessage 1 (std_runtime async_world) \<lparr>topic = ''obj'', reply_topic = ''r'', flags = 1\<rparr>
       (method_bytes messagepack (enc_fields messagepack [F_String ''key'']) ''get'') 1 service_state =
       Some (Some s') \<and>
     io s' = [c, Rt_SendBinaryResponse \<lparr>topic = ''obj'', reply_topic = ''r'', flags = 1\<rparr> b 1000]"
proof -
  let ?E = "std_runtime async_world" and ?hdr = "\<lparr>topic = ''obj'', reply_topic = ''r'', flags = 1\<rparr>"
  have w: "rtMessageHeader_IsRequest ?E ?hdr" "rt_nested ?E t c = []" "app_response ?E t c = None"
    "app_result ?E t c = rbus_error_code RTMESSAGE_BUS_SUCCESS_ASYNC" for t c
    by (simp_all add: std_runtime_def async_world_def calm_world_def)
  have f: "method_fits (mp ?E) (enc_fields messagepack [F_String ''key'']) ''get''"
    "method_fits (mp ?E) (unsupported_body ?E) METHOD_RESPONSE"
    using demo_fits(1) by (simp_all add: unsupported_body_def method_fits_def method_bytes_def enc_fields_def
        cname_ok_def no_nul_def char_of_0 mp_str_def mp_int_def METHOD_RESPONSE_def error_int32_def)
  have t: "(case ao_methods (abs_object service_object) ''get'' of
      None \<Rightarrow> ao_callback (abs_object service_object) | Some am \<Rightarrow> am) = AM_App 2 (UD_App 5)"
    using service_state_facts(5) by simp
  have io: "io service_state = []" by (simp add: service_state_def ready_state_def initial_state_def)
  show ?thesis
    using async_result_of_method_is_answered [OF std_rbus_runtime service_state_facts(1,3,4,2) w(1) f(1) t refl
        w(2-4) f(2), of 0] io service_state_facts(5) by auto
qed

definition nested_world :: world where
  "nested_world = answer_world\<lparr>w_nested := (\<lambda>_ _. [(\<lparr>topic = ''obj'', reply_topic = ''r'', flags = 1\<rparr>, [], 1)])\<rparr>"

lemma nested_world_facts:
  "rtMessageHeader_IsRequest (std_runtime nested_world) \<lparr>topic = t, reply_topic = r, flags = 1\<rparr>"
  "method_fits messagepack (response_body (std_runtime nested_world) tr c) METHOD_RESPONSE"
  "app_result (std_runtime nested_world) tr c \<noteq> rbus_error_code RTMESSAGE_BUS_SUCCESS_ASYNC"
  "rt_nested (std_runtime nested_world) tr c = [(\<lparr>topic = ''obj'', reply_topic = ''r'', flags = 1\<rparr>, [], 1)]"
  "rtVector_PushBack (reqs_v (std_runtime nested_world)) None = (\<lambda>_. None)"
  "rtVector_Size (reqs_v (std_runtime nested_world)) None = 0"
  using demo_fits(2) by (simp_all add: std_runtime_def nested_world_def answer_world_def calm_world_def response_body_def
      list_vector_def)

lemma service_call_target:
  "(case ao_methods (abs_object service_object) ''get'' of
      None \<Rightarrow> ao_callback (abs_object service_object) | Some am \<Rightarrow> am) = AM_App 2 (UD_App 5)"
  using service_state_facts(5) by simp

text \<open>
  If the vector of queued requests were created, a queued request would refer to a message that is freed when \<open>onMessage\<close> returns; consuming the queue then reads the freed
  message: the behaviour is undefined.
\<close>

lemma nested_request_use_after_free:
  assumes "rbus_runtime E" and "registry_wf E s" and "reg_find s n = Some p" and "abs_reg s n = Some a"
    and "method_fits (mp E) body method"
    and "(case ao_methods a method of None \<Rightarrow> ao_callback a | Some am \<Rightarrow> am) = AM_App g d"
    and "c = App_Rpc g (topic hdr) (Some method)
      (rbusMessage_FromBytes (mp E) (method_bytes (mp E) body method)) d hdr"
    and "rtMessageHeader_IsRequest E hdr" and "method_fits (mp E) (response_body E (io s) c) METHOD_RESPONSE"
    and "app_result E (io s) c \<noteq> rbus_error_code RTMESSAGE_BUS_SUCCESS_ASYNC"
    and "stack_counter s = 0" and "g_queued_requests s = Live (Some [])"
    and "rt_nested E (io s) c = [(hdr2, data2, obj2)]"
  shows "onMessage (Suc fuel) E hdr (method_bytes (mp E) body method) p s = Some None"
  using rbus_runtime.nested_request [OF assms] .

lemma nested_request_use_after_free_witness:
  "onMessage 1 (std_runtime (answer_world\<lparr>w_nested := (\<lambda>_ _. [(\<lparr>topic = ''obj'', reply_topic = ''r'', flags = 1\<rparr>, [], 1)])\<rparr>))
     \<lparr>topic = ''obj'', reply_topic = ''r'', flags = 1\<rparr>
     (method_bytes messagepack (enc_fields messagepack [F_String ''key'']) ''get'') 1
     (service_state\<lparr>g_queued_requests := Live (Some [])\<rparr>) = Some None"
proof -
  let ?E = "std_runtime (answer_world\<lparr>w_nested := (\<lambda>_ _. [(\<lparr>topic = ''obj'', reply_topic = ''r'', flags = 1\<rparr>, [], 1)])\<rparr>)"
  let ?hdr = "\<lparr>topic = ''obj'', reply_topic = ''r'', flags = 1\<rparr>"
  let ?s = "service_state\<lparr>g_queued_requests := Live (Some [])\<rparr>"
  have s: "registry_wf ?E ?s" "reg_find ?s ''obj'' = Some 1" "abs_reg ?s ''obj'' = Some (abs_object service_object)"
    using registry_cong [of ?s service_state] service_state_facts by simp_all
  have i: "stack_counter ?s = 0" "g_queued_requests ?s = Live (Some [])"
    by (simp_all add: service_state_def ready_state_def initial_state_def)
  have w: "rtMessageHeader_IsRequest ?E ?hdr" "method_fits (mp ?E) (response_body ?E t c) METHOD_RESPONSE"
    "app_result ?E t c \<noteq> rbus_error_code RTMESSAGE_BUS_SUCCESS_ASYNC" "rt_nested ?E t c = [(?hdr, [], 1)]" for t c
    using demo_fits(2) by (simp_all add: std_runtime_def answer_world_def calm_world_def response_body_def)
  have t: "(case ao_methods (abs_object service_object) ''get'' of
      None \<Rightarrow> ao_callback (abs_object service_object) | Some am \<Rightarrow> am) = AM_App 2 (UD_App 5)"
    using service_state_facts(5) by simp
  have f: "method_fits (mp ?E) (enc_fields messagepack [F_String ''key'']) ''get''" using demo_fits(1) by simp
  show ?thesis
    using nested_request_use_after_free [OF std_rbus_runtime s f t refl w(1-3) i w(4), of 0] by simp
qed

end
