(* ===== verification/Rbus_Client.thy ===== *)
theory Rbus_Client
  imports Rbus_Rpc
begin

text \<open>
  The client side of events in \<open>rbus-core/lib/rbus_core.c\<close>: the table of subscriptions, the
  subscription request sent to the provider, and the dispatch of an incoming event to the
  callback that subscribed to it.
\<close>

section \<open>Structures\<close>

definition client_event_create ::
    "runtime \<Rightarrow> string \<Rightarrow> fnptr \<Rightarrow> user_data \<Rightarrow> client_event option" where
  "client_event_create E name callback data =
     (if MAX_EVENT_NAME_LENGTH E < length name then None
      else Some \<lparr>ce_name = name, ce_callback = callback, ce_data = data\<rparr>)"

definition client_event_compare :: "runtime \<Rightarrow> client_event \<Rightarrow> string \<Rightarrow> int" where
  "client_event_compare E left right = strncmp (MAX_EVENT_NAME_LENGTH E) (ce_name left) right"

definition client_subscription_compare :: "runtime \<Rightarrow> client_subscription \<Rightarrow> string \<Rightarrow> int" where
  "client_subscription_compare E left right =
     strncmp (MAX_OBJECT_NAME_LENGTH E) (cs_object left) right"

definition client_subscription_create :: "runtime \<Rightarrow> string \<Rightarrow> client_subscription option" where
  "client_subscription_create E object_name =
     (if MAX_OBJECT_NAME_LENGTH E < length object_name then None
      else Some \<lparr>cs_object = object_name, events = rtVector_Create (cevts_v E)\<rparr>)"

text \<open>Changing a subscription in place, through the pointer the table holds.\<close>

definition set_subscription ::
    "client_subscription \<Rightarrow> client_subscription rtVector \<Rightarrow> client_subscription rtVector" where
  "set_subscription sub v = map_option (table_upd cs_object (cs_object sub) (\<lambda>_. sub)) v"

section \<open>The subscription request\<close>

text \<open>
  The request: the event, the sender's address, a flag for the payload and the payload.  The
  writers' codes are ignored.
\<close>

definition build_subscription_request ::
    "runtime \<Rightarrow> string \<Rightarrow> ptr option \<Rightarrow> rbus_state \<Rightarrow> (ptr \<times> rbus_state) option" where
  "build_subscription_request E event_name payload s = do {
     let (req, s1) = msg_alloc rbusMessage_Init s;
     (_, s2) \<leftarrow> msg_write (\<lambda>m. rbusMessage_SetString (mp E) m (Some event_name)) req s1;
     (_, s3) \<leftarrow> msg_write (\<lambda>m. rbusMessage_SetString (mp E) m
                   (rtConnection_GetReturnAddress E (g_connection s2))) req s2;
     (_, s4) \<leftarrow> msg_write (\<lambda>m. rbusMessage_SetInt32 (mp E) m (if payload = None then 0 else 1)) req s3;
     s5 \<leftarrow> (case payload of
         None \<Rightarrow> Some s4
       | Some q \<Rightarrow> do {
           item \<leftarrow> msgs s4 q;
           (_, s') \<leftarrow> msg_write (\<lambda>m. rbusMessage_SetMessage (mp E) m item) req s4;
           Some s'
         });
     Some (req, s5)
   }"

text \<open>The result is the code and the value stored through \<open>providerError\<close>, if any.\<close>

definition send_subscription_request ::
    "runtime \<Rightarrow> string \<Rightarrow> string \<Rightarrow> bool \<Rightarrow> ptr option \<Rightarrow> int \<Rightarrow> rbus_state \<Rightarrow>
     (rbus_error_t \<times> int option \<times> rbus_state) option" where
  "send_subscription_request E object_name event_name activate payload timeout_ms s = do {
     (req, s5) \<leftarrow> build_subscription_request E event_name payload s;
     let timeout = (if timeout_ms \<le> 0 then TIMEOUT_VALUE_FIRE_AND_FORGET else timeout_ms);
     let method = (if activate then METHOD_ADD_EVENT_SUBSCRIPTION else METHOD_REMOVE_EVENT_SUBSCRIPTION);
     (ret, rsp, s6) \<leftarrow> rbus_invokeRemoteMethod E object_name method (Some req) timeout s5;
     if ret = RTMESSAGE_BUS_SUCCESS then do {
       p \<leftarrow> rsp;
       (_, v, s7) \<leftarrow> msg_read (rbusMessage_GetInt32 (mp E)) p s6;
       s8 \<leftarrow> rbusMessage_Release E p s7;
       Some (case v of
           None \<Rightarrow> (RTMESSAGE_BUS_ERROR_MALFORMED_RESPONSE, None, s8)
         | Some w \<Rightarrow> if sint w = rbus_error_code RTMESSAGE_BUS_SUCCESS
                     then (RTMESSAGE_BUS_SUCCESS, None, s8)
                     else (RTMESSAGE_BUS_ERROR_GENERAL, Some (sint w), s8))
     }
     else if ret = RTMESSAGE_BUS_ERROR_DESTINATION_UNREACHABLE then Some (ret, None, s6)
     else Some (RTMESSAGE_BUS_ERROR_REMOTE_END_FAILED_TO_RESPOND, None, s6)
   }"

section \<open>The subscription table\<close>

definition remove_subscription_callback ::
    "runtime \<Rightarrow> string \<Rightarrow> string \<Rightarrow> rbus_state \<Rightarrow> (rbus_error_t \<times> rbus_state) option" where
  "remove_subscription_callback E object_name event_name s = do {
     let s1 = lock s;
     v \<leftarrow> vderef (g_event_subscriptions_for_client s1);
     case rtVector_Find (csubs_v E) v object_name (client_subscription_compare E) of
       None \<Rightarrow> Some (RTMESSAGE_BUS_ERROR_INVALID_PARAM, unlock s1)
     | Some sub \<Rightarrow>
         (case rtVector_Find (cevts_v E) (events sub) event_name (client_event_compare E) of
            None \<Rightarrow> Some (RTMESSAGE_BUS_ERROR_INVALID_PARAM, unlock s1)
          | Some evt \<Rightarrow>
              let sub' = sub\<lparr>events := rtVector_RemoveItem (cevts_v E) (events sub) evt\<rparr>;
                  v1 = set_subscription sub' v;
                  v2 = (if rtVector_Size (cevts_v E) (events sub') = 0
                        then rtVector_RemoveItem (csubs_v E) v1 sub' else v1)
              in Some (RTMESSAGE_BUS_SUCCESS,
                       unlock (s1\<lparr>g_event_subscriptions_for_client := Live v2\<rparr>)))
   }"

text \<open>
  The table part of a subscription, with the mutex held: \<open>None\<close> as its result says that the
  event is subscribed already.
\<close>

definition add_subscription_callback ::
    "runtime \<Rightarrow> string \<Rightarrow> string \<Rightarrow> fnptr \<Rightarrow> user_data \<Rightarrow> rbus_state \<Rightarrow> rbus_state option option" where
  "add_subscription_callback E object_name event_name callback data s = do {
     v \<leftarrow> vderef (g_event_subscriptions_for_client s);
     let found = rtVector_Find (csubs_v E) v object_name (client_subscription_compare E);
     let exists = (case found of None \<Rightarrow> False
        | Some sub \<Rightarrow> rtVector_Find (cevts_v E) (events sub) event_name (client_event_compare E) \<noteq> None);
     if exists then Some None
     else do {
       (sub, v1) \<leftarrow> (case found of
           Some sub \<Rightarrow> Some (sub, v)
         | None \<Rightarrow> do {
             sub \<leftarrow> client_subscription_create E object_name;
             Some (sub, rtVector_PushBack (csubs_v E) v sub)
           });
       evt \<leftarrow> client_event_create E event_name callback data;
       let sub' = sub\<lparr>events := rtVector_PushBack (cevts_v E) (events sub) evt\<rparr>;
       Some (Some (s\<lparr>g_event_subscriptions_for_client := Live (set_subscription sub' v1)\<rparr>))
     }
   }"

text \<open>
  \<open>strnlen(event_name, ...)\<close> comes before the test for \<open>NULL\<close>: a \<open>NULL\<close> event name is
  dereferenced.
\<close>

definition rbus_subscribeToEventInternal ::
    "runtime \<Rightarrow> string option \<Rightarrow> string option \<Rightarrow> fnptr option \<Rightarrow> ptr option \<Rightarrow> user_data \<Rightarrow> int \<Rightarrow>
     rbus_state \<Rightarrow> (rbus_error_t \<times> int option \<times> rbus_state) option" where
  "rbus_subscribeToEventInternal E object_name event_name callback payload data timeout s =
     (let object_name = (if object_name = None then event_name else object_name)
      in if g_connection s = None then Some (RTMESSAGE_BUS_ERROR_INVALID_STATE, None, s)
      else case (object_name, callback) of
        (Some name, Some f) \<Rightarrow>
          if MAX_OBJECT_NAME_LENGTH E \<le> strnlen name (MAX_OBJECT_NAME_LENGTH E)
          then Some (RTMESSAGE_BUS_ERROR_INVALID_PARAM, None, s)
          else do {
            ev \<leftarrow> event_name;
            if MAX_EVENT_NAME_LENGTH E \<le> strnlen ev (MAX_EVENT_NAME_LENGTH E)
            then Some (RTMESSAGE_BUS_ERROR_INVALID_PARAM, None, s)
            else do {
              let s1 = lock s;
              let s2 = (if g_run_event_client_dispatch s1 then s1
                else (snd (rt_do E (Rt_AddDefaultListener Master_Event_Callback) s1))
                       \<lparr>g_run_event_client_dispatch := True\<rparr>);
              added \<leftarrow> (if g_master_event_callback s2 = None
                then add_subscription_callback E name ev f data s2 else Some (Some s2));
              case added of
                None \<Rightarrow> Some (RTMESSAGE_BUS_SUCCESS, None, unlock s2)
              | Some s3 \<Rightarrow> do {
                  (ret, providerError, s4) \<leftarrow>
                    send_subscription_request E name ev True payload timeout (unlock s3);
                  if ret \<noteq> RTMESSAGE_BUS_SUCCESS \<and> g_master_event_callback s4 = None then do {
                    (_, s5) \<leftarrow> remove_subscription_callback E name ev (lock s4);
                    Some (ret, providerError, unlock s5)
                  }
                  else Some (ret, providerError, s4)
                }
            }
          }
      | _ \<Rightarrow> Some (RTMESSAGE_BUS_ERROR_INVALID_PARAM, None, s))"

definition rbus_subscribeToEvent ::
    "runtime \<Rightarrow> string option \<Rightarrow> string option \<Rightarrow> fnptr option \<Rightarrow> ptr option \<Rightarrow> user_data \<Rightarrow>
     rbus_state \<Rightarrow> (rbus_error_t \<times> int option \<times> rbus_state) option" where
  "rbus_subscribeToEvent E object_name event_name callback payload data s =
     rbus_subscribeToEventInternal E object_name event_name callback payload data 0 s"

definition rbus_subscribeToEventTimeout ::
    "runtime \<Rightarrow> string option \<Rightarrow> string option \<Rightarrow> fnptr option \<Rightarrow> ptr option \<Rightarrow> user_data \<Rightarrow> int \<Rightarrow>
     rbus_state \<Rightarrow> (rbus_error_t \<times> int option \<times> rbus_state) option" where
  "rbus_subscribeToEventTimeout E object_name event_name callback payload data timeout s =
     rbus_subscribeToEventInternal E object_name event_name callback payload data timeout s"

definition rbus_unsubscribeFromEvent ::
    "runtime \<Rightarrow> string option \<Rightarrow> string option \<Rightarrow> ptr option \<Rightarrow> rbus_state \<Rightarrow>
     (rbus_error_t \<times> rbus_state) option" where
  "rbus_unsubscribeFromEvent E object_name event_name payload s =
     (case (if object_name = None then event_name else object_name) of
        None \<Rightarrow> Some (RTMESSAGE_BUS_ERROR_INVALID_PARAM, s)
      | Some name \<Rightarrow>
          if MAX_OBJECT_NAME_LENGTH E \<le> strnlen name (MAX_OBJECT_NAME_LENGTH E)
          then Some (RTMESSAGE_BUS_ERROR_INVALID_PARAM, s)
          else do {
            let ev = (case event_name of None \<Rightarrow> DEFAULT_EVENT | Some n \<Rightarrow> n);
            s1 \<leftarrow> (if g_master_event_callback s = None
                   then map_option snd (remove_subscription_callback E name ev s) else Some s);
            (ret, _, s2) \<leftarrow> send_subscription_request E name ev False payload 0 s1;
            Some (ret, s2)
          })"

definition rbus_registerMasterEventHandler ::
    "fnptr option \<Rightarrow> user_data \<Rightarrow> rbus_state \<Rightarrow> rbus_error_t \<times> rbus_state" where
  "rbus_registerMasterEventHandler callback data s =
     (RTMESSAGE_BUS_SUCCESS,
      s\<lparr>g_master_event_callback := callback, g_master_event_user_data := data\<rparr>)"

section \<open>Incoming events\<close>

text \<open>
  The loop over the subscriptions: the first one for the sender or for the event name that has
  the event.  The outer \<open>None\<close> is a \<open>NULL\<close> event name passed to \<open>strncmp\<close>.
\<close>

fun find_event_callback ::
    "runtime \<Rightarrow> client_subscription rtVector \<Rightarrow> string \<Rightarrow> string option \<Rightarrow> nat list \<Rightarrow>
     client_event option option" where
  "find_event_callback E v sender event_name [] = Some None"
| "find_event_callback E v sender event_name (i # is) = do {
     sub \<leftarrow> rtVector_At (csubs_v E) v i;
     hit \<leftarrow> (if strncmp (MAX_OBJECT_NAME_LENGTH E) (cs_object sub) sender = 0 then Some True
            else do {
              ev \<leftarrow> event_name;
              Some (strncmp (MAX_OBJECT_NAME_LENGTH E) (cs_object sub) ev = 0)
            });
     if \<not> hit then find_event_callback E v sender event_name is
     else do {
       ev \<leftarrow> event_name;
       case rtVector_Find (cevts_v E) (events sub) ev (client_event_compare E) of
         Some evt \<Rightarrow> Some (Some evt)
       | None \<Rightarrow> find_event_callback E v sender event_name is
     }
   }"

definition master_event_callback ::
    "runtime \<Rightarrow> rtMessageHeader \<Rightarrow> byte list \<Rightarrow> rbus_state \<Rightarrow> rbus_state option" where
  "master_event_callback E hdr data s =
     (let sender = reply_topic hdr
      in if MAX_OBJECT_NAME_LENGTH E \<le> length sender then Some s
      else do {
        let (msg, s1) = msg_alloc (rbusMessage_FromBytes (mp E) data) s;
        m \<leftarrow> msgs s1 msg;
        let s2 = msg_put msg (rbusMessage_BeginMetaSectionRead (mp E) m) s1;
        (_, event_name, s3) \<leftarrow> msg_read_string E msg s2;
        (_, object_name, s4) \<leftarrow> msg_read_string E msg s3;
        (err, flag, s5) \<leftarrow> msg_read (rbusMessage_GetInt32 (mp E)) msg s4;
        m' \<leftarrow> msgs s5 msg;
        let s6 = msg_put msg (rbusMessage_EndMetaSectionRead m') s5;
        if err \<noteq> RT_OK then rbusMessage_Release E msg s6
        else do {
          m6 \<leftarrow> msgs s6 msg;
          (handled, s7) \<leftarrow>
            (if flag = Some 0 then Some (False, s6)
             else case g_master_event_callback s6 of
               None \<Rightarrow> Some (False, s6)
             | Some f \<Rightarrow> do {
                 let (code, s') =
                   app_do E (App_Event f sender event_name m6 (g_master_event_user_data s6)) s6;
                 Some (code \<noteq> rbus_error_code RTMESSAGE_BUS_EVENT_NOT_HANDLED, s')
               });
          if handled then rbusMessage_Release E msg s7
          else do {
            let s8 = lock s7;
            v \<leftarrow> vderef (g_event_subscriptions_for_client s8);
            evt \<leftarrow> find_event_callback E v sender event_name [0..<rtVector_Size (csubs_v E) v];
            case evt of
              None \<Rightarrow> rbusMessage_Release E msg (unlock s8)
            | Some evt \<Rightarrow> do {
                let (_, s9) =
                  app_do E (App_Event (ce_callback evt) sender event_name m6 (ce_data evt)) (unlock s8);
                rbusMessage_Release E msg s9
              }
          }
        }
      })"

section \<open>The subscription table as a map\<close>

definition subscription_wf :: "runtime \<Rightarrow> client_subscription \<Rightarrow> bool" where
  "subscription_wf E sub \<longleftrightarrow>
     (\<exists>es. events sub = Some es \<and> es \<noteq> [] \<and> table_wf ce_name (MAX_EVENT_NAME_LENGTH E) es)"

text \<open>
  The invariant: one entry per object, no two events of an entry with the same name, no entry
  without events.
\<close>

definition subs_wf :: "runtime \<Rightarrow> rbus_state \<Rightarrow> bool" where
  "subs_wf E s \<longleftrightarrow> (\<exists>cs. g_event_subscriptions_for_client s = Live (Some cs) \<and>
     table_wf cs_object (MAX_OBJECT_NAME_LENGTH E) cs \<and> (\<forall>sub\<in>set cs. subscription_wf E sub))"

definition event_of :: "client_subscription \<Rightarrow> string \<Rightarrow> (fnptr \<times> user_data) option" where
  "event_of sub ev =
     map_option (\<lambda>e. (ce_callback e, ce_data e)) (table_map ce_name (the (events sub)) ev)"

definition subs_list :: "rbus_state \<Rightarrow> client_subscription list" where
  "subs_list s = (case g_event_subscriptions_for_client s of Live (Some cs) \<Rightarrow> cs | _ \<Rightarrow> [])"

text \<open>The callback a client has for an event of an object.\<close>

definition abs_subs :: "rbus_state \<Rightarrow> string \<times> string \<rightharpoonup> fnptr \<times> user_data" where
  "abs_subs s k =
     (case table_map cs_object (subs_list s) (fst k) of None \<Rightarrow> None | Some sub \<Rightarrow> event_of sub (snd k))"

sublocale rbus_runtime \<subseteq> csub: named_table "csubs_v E" cs_object "client_subscription_compare E"
    "MAX_OBJECT_NAME_LENGTH E" "\<lambda>_. True"
  by unfold_locales (simp add: client_subscription_compare_def)

sublocale rbus_runtime \<subseteq> cevt: named_table "cevts_v E" ce_name "client_event_compare E"
    "MAX_EVENT_NAME_LENGTH E" "\<lambda>_. True"
  by unfold_locales (simp add: client_event_compare_def)

lemma subs_frame:
  assumes "g_event_subscriptions_for_client t = g_event_subscriptions_for_client s"
  shows "subs_wf E t = subs_wf E s" and "abs_subs t = abs_subs s"
  using assms by (simp_all add: subs_wf_def abs_subs_def [abs_def] subs_list_def)

lemma subs_lock [simp]:
  "subs_wf E (lock s) = subs_wf E s" "subs_wf E (unlock s) = subs_wf E s"
  "abs_subs (lock s) = abs_subs s" "abs_subs (unlock s) = abs_subs s"
  by (simp_all add: subs_wf_def abs_subs_def [abs_def] subs_list_def)

lemma subs_wfE:
  assumes "subs_wf E s"
  obtains cs where "g_event_subscriptions_for_client s = Live (Some cs)" and "subs_list s = cs"
    and "table_wf cs_object (MAX_OBJECT_NAME_LENGTH E) cs" and "\<forall>sub\<in>set cs. subscription_wf E sub"
  using assms by (auto simp: subs_wf_def subs_list_def)

lemma subscription_in_table:
  assumes "subs_wf E s" and "table_map cs_object (subs_list s) n = Some sub"
  obtains es where "cs_object sub = n" and "events sub = Some es" and "es \<noteq> []"
    and "table_wf ce_name (MAX_EVENT_NAME_LENGTH E) es" and "abs_subs s (n, ev) = event_of sub ev"
    and "sub \<in> set (subs_list s)"
proof -
  from assms(1) have "\<forall>sub\<in>set (subs_list s). subscription_wf E sub" by (auto elim: subs_wfE)
  moreover from assms(2) have sub: "sub \<in> set (subs_list s)" "cs_object sub = n" by (auto dest: table_map_SomeD)
  ultimately obtain es where "events sub = Some es" "es \<noteq> []" "table_wf ce_name (MAX_EVENT_NAME_LENGTH E) es"
    unfolding subscription_wf_def by blast
  with sub assms(2) show thesis by (intro that) (simp_all add: abs_subs_def)
qed

text \<open>Replacing the entry of an object, and removing it.\<close>

lemma set_subscription_map:
  assumes "table_map cs_object cs n = Some sub" and "cs_object sub' = n"
  shows "table_map cs_object (table_upd cs_object n (\<lambda>_. sub') cs) = (table_map cs_object cs)(n \<mapsto> sub')"
  using assms by (subst table_map_upd) auto

lemma abs_subs_replace:
  assumes cs: "g_event_subscriptions_for_client s = Live (Some cs)"
    and t: "g_event_subscriptions_for_client t = Live (Some cs')"
    and m: "table_map cs_object cs' = (table_map cs_object cs)(n := x)"
    and x: "\<And>e. (case x of None \<Rightarrow> None | Some sub \<Rightarrow> event_of sub e) = (if e = ev then y else abs_subs s (n, e))"
  shows "abs_subs t = (abs_subs s)((n, ev) := y)"
proof (rule ext)
  fix k :: "string \<times> string"
  show "abs_subs t k = ((abs_subs s)((n, ev) := y)) k"
    using cs t m x [of "snd k"] by (cases k) (auto simp: abs_subs_def subs_list_def)
qed

context rbus_runtime
begin

lemma find_subscription:
  "subs_wf E s \<Longrightarrow> g_event_subscriptions_for_client s = Live (Some cs) \<Longrightarrow>
   rtVector_Find (csubs_v E) (Some cs) n (client_subscription_compare E) = table_map cs_object cs n"
  by (auto simp: subs_wf_def intro: csub.find_table_map)

lemma find_client_event:
  "table_wf ce_name (MAX_EVENT_NAME_LENGTH E) es \<Longrightarrow>
   rtVector_Find (cevts_v E) (Some es) n (client_event_compare E) = table_map ce_name es n"
  by (auto intro: cevt.find_table_map)

lemma event_of_None:
  "events sub = Some es \<Longrightarrow> event_of sub ev = None \<longleftrightarrow> table_map ce_name es ev = None"
  by (simp add: event_of_def)

lemma add_subscription_exists:
  assumes wf: "subs_wf E s" and ex: "abs_subs s (n, ev) \<noteq> None"
  shows "add_subscription_callback E n ev f data s = Some None"
proof -
  from wf obtain cs where cs: "g_event_subscriptions_for_client s = Live (Some cs)" "subs_list s = cs"
    by (rule subs_wfE)
  from ex cs obtain sub where sub: "table_map cs_object (subs_list s) n = Some sub" "event_of sub ev \<noteq> None"
    by (auto simp: abs_subs_def split: option.splits)
  from wf sub(1) obtain es where "events sub = Some es" "table_wf ce_name (MAX_EVENT_NAME_LENGTH E) es"
    by (rule subscription_in_table)
  with sub cs show ?thesis
    by (simp add: add_subscription_callback_def find_subscription [OF wf cs(1)] find_client_event event_of_def)
qed

lemma add_event_entry:
  assumes tab: "table_wf cs_object (MAX_OBJECT_NAME_LENGTH E) cs" and sub: "table_map cs_object cs n = Some sub"
    and es: "events sub = Some es" "table_wf ce_name (MAX_EVENT_NAME_LENGTH E) es" "table_map ce_name es ev = None"
    and all: "\<forall>sub\<in>set cs. cs_object sub \<noteq> n \<longrightarrow> subscription_wf E sub"
    and len: "length ev < MAX_EVENT_NAME_LENGTH E"
    and e: "e = \<lparr>ce_name = ev, ce_callback = f, ce_data = data\<rparr>"
    and cs': "cs' = table_upd cs_object n (\<lambda>_. sub\<lparr>events := Some (es @ [e])\<rparr>) cs"
  shows "table_wf cs_object (MAX_OBJECT_NAME_LENGTH E) cs'" and "\<forall>sub\<in>set cs'. subscription_wf E sub"
    and "table_map cs_object cs' = (table_map cs_object cs)(n \<mapsto> sub\<lparr>events := Some (es @ [e])\<rparr>)"
    and "event_of (sub\<lparr>events := Some (es @ [e])\<rparr>) x = (if x = ev then Some (f, data) else event_of sub x)"
proof -
  have n: "cs_object sub = n" using sub by (auto dest: table_map_SomeD)
  show "table_wf cs_object (MAX_OBJECT_NAME_LENGTH E) cs'"
    unfolding cs' using tab n by (intro table_wf_upd) simp_all
  have "table_wf ce_name (MAX_EVENT_NAME_LENGTH E) (es @ [e])"
    using es len e by (intro table_wf_snoc) simp_all
  then have "subscription_wf E (sub\<lparr>events := Some (es @ [e])\<rparr>)" by (simp add: subscription_wf_def)
  then show "\<forall>sub\<in>set cs'. subscription_wf E sub"
    using all by (auto simp: cs' table_upd_def)
  show "table_map cs_object cs' = (table_map cs_object cs)(n \<mapsto> sub\<lparr>events := Some (es @ [e])\<rparr>)"
    unfolding cs' using sub n by (intro set_subscription_map) simp_all
  have "table_map ce_name (es @ [e]) = (table_map ce_name es)(ev \<mapsto> e)"
    using table_map_snoc [of ce_name es e] es(3) e by simp
  then show "event_of (sub\<lparr>events := Some (es @ [e])\<rparr>) x = (if x = ev then Some (f, data) else event_of sub x)"
    using es(1) e by (simp add: event_of_def)
qed

lemma add_subscription_new:
  assumes wf: "subs_wf E s" and new: "abs_subs s (n, ev) = None"
    and len: "length n < MAX_OBJECT_NAME_LENGTH E" "length ev < MAX_EVENT_NAME_LENGTH E"
  obtains cs' where
    "add_subscription_callback E n ev f data s =
       Some (Some (s\<lparr>g_event_subscriptions_for_client := Live (Some cs')\<rparr>))"
    and "subs_wf E (s\<lparr>g_event_subscriptions_for_client := Live (Some cs')\<rparr>)"
    and "abs_subs (s\<lparr>g_event_subscriptions_for_client := Live (Some cs')\<rparr>) =
      (abs_subs s)((n, ev) \<mapsto> (f, data))"
proof -
  from wf obtain cs where cs: "g_event_subscriptions_for_client s = Live (Some cs)" "subs_list s = cs"
    and tab: "table_wf cs_object (MAX_OBJECT_NAME_LENGTH E) cs" and all: "\<forall>sub\<in>set cs. subscription_wf E sub"
    by (rule subs_wfE)
  let ?e = "\<lparr>ce_name = ev, ce_callback = f, ce_data = data\<rparr>"
  let ?new = "\<lparr>cs_object = n, events = Some []\<rparr>"
  obtain cs1 sub es where sub: "table_map cs_object cs1 n = Some sub" "events sub = Some es"
      "table_wf ce_name (MAX_EVENT_NAME_LENGTH E) es" "table_map ce_name es ev = None"
    and cs1: "table_wf cs_object (MAX_OBJECT_NAME_LENGTH E) cs1"
      "\<forall>sub\<in>set cs1. cs_object sub \<noteq> n \<longrightarrow> subscription_wf E sub"
      "\<And>y. (table_map cs_object cs1)(n \<mapsto> y) = (table_map cs_object cs)(n \<mapsto> y)"
    and old: "\<And>x. event_of sub x = abs_subs s (n, x)"
    and run: "add_subscription_callback E n ev f data s = Some (Some (s\<lparr>g_event_subscriptions_for_client :=
        Live (Some (table_upd cs_object n (\<lambda>_. sub\<lparr>events := Some (es @ [?e])\<rparr>) cs1))\<rparr>))"
  proof (cases "table_map cs_object cs n")
    case None
    then have "table_map cs_object cs (cs_object ?new) = None" by simp
    note snoc = table_map_snoc [OF this] table_wf_snoc [OF tab this]
    show thesis
    proof (rule that [of "cs @ [?new]" ?new "[]"])
      show "event_of ?new x = abs_subs s (n, x)" for x
        using None cs by (simp add: event_of_def abs_subs_def)
      show "add_subscription_callback E n ev f data s = Some (Some (s\<lparr>g_event_subscriptions_for_client :=
        Live (Some (table_upd cs_object n (\<lambda>_. ?new\<lparr>events := Some ([] @ [?e])\<rparr>) (cs @ [?new])))\<rparr>))"
        using None cs len
        by (simp add: add_subscription_callback_def find_subscription [OF wf cs(1)] client_subscription_create_def
            client_event_create_def csubs.push cevts.create cevts.push set_subscription_def)
    qed (use snoc len all in auto)
  next
    case (Some sub)
    with wf cs obtain es where es: "cs_object sub = n" "events sub = Some es"
        "table_wf ce_name (MAX_EVENT_NAME_LENGTH E) es" "\<And>x. abs_subs s (n, x) = event_of sub x"
      by (metis subscription_in_table)
    show thesis
    proof (rule that [of cs sub es])
      show "add_subscription_callback E n ev f data s = Some (Some (s\<lparr>g_event_subscriptions_for_client :=
        Live (Some (table_upd cs_object n (\<lambda>_. sub\<lparr>events := Some (es @ [?e])\<rparr>) cs))\<rparr>))"
        using Some cs len es new
        by (simp add: add_subscription_callback_def find_subscription [OF wf cs(1)] find_client_event
            event_of_def client_event_create_def cevts.push set_subscription_def)
    qed (use Some es tab all new in \<open>auto simp: event_of_def\<close>)
  qed
  note upd = add_event_entry [OF cs1(1) sub cs1(2) len(2) refl refl, of f data]
  show thesis
  proof (rule that [OF run])
    let ?t = "s\<lparr>g_event_subscriptions_for_client :=
        Live (Some (table_upd cs_object n (\<lambda>_. sub\<lparr>events := Some (es @ [?e])\<rparr>) cs1))\<rparr>"
    show "subs_wf E ?t" using upd(1,2) by (simp add: subs_wf_def)
    show "abs_subs ?t = (abs_subs s)((n, ev) \<mapsto> (f, data))"
      using upd(3) cs1(3) upd(4) old
      by (intro abs_subs_replace [OF cs(1), where x = "Some (sub\<lparr>events := Some (es @ [?e])\<rparr>)"]) simp_all
  qed
qed

lemma remove_subscription_missing:
  assumes wf: "subs_wf E s" and none: "abs_subs s (n, ev) = None"
  shows "remove_subscription_callback E n ev s = Some (RTMESSAGE_BUS_ERROR_INVALID_PARAM, unlock s)"
proof -
  from wf obtain cs where cs: "g_event_subscriptions_for_client s = Live (Some cs)" "subs_list s = cs"
    by (rule subs_wfE)
  show ?thesis
  proof (cases "table_map cs_object cs n")
    case None
    then show ?thesis using cs by (simp add: remove_subscription_callback_def find_subscription [OF wf])
  next
    case (Some sub)
    with wf cs obtain es where "events sub = Some es" "table_wf ce_name (MAX_EVENT_NAME_LENGTH E) es"
        "abs_subs s (n, ev) = event_of sub ev" by (metis subscription_in_table)
    with Some cs none show ?thesis
      by (simp add: remove_subscription_callback_def find_subscription [OF wf] find_client_event event_of_def)
  qed
qed

lemma drop_event_entry:
  assumes tab: "table_wf cs_object (MAX_OBJECT_NAME_LENGTH E) cs" and sub: "table_map cs_object cs n = Some sub"
    and es: "events sub = Some es" "table_wf ce_name (MAX_EVENT_NAME_LENGTH E) es" "table_map ce_name es ev = Some e"
    and all: "\<forall>sub\<in>set cs. subscription_wf E sub"
    and sub': "sub' = sub\<lparr>events := Some (remove1 e es)\<rparr>"
    and cs1: "cs1 = table_upd cs_object n (\<lambda>_. sub') cs"
    and cs': "cs' = (if remove1 e es = [] then remove1 sub' cs1 else cs1)"
  shows "table_wf cs_object (MAX_OBJECT_NAME_LENGTH E) cs1" and "sub' \<in> set cs1"
    and "table_wf cs_object (MAX_OBJECT_NAME_LENGTH E) cs'" and "\<forall>sub\<in>set cs'. subscription_wf E sub"
    and "table_map cs_object cs' =
      (table_map cs_object cs)(n := (if remove1 e es = [] then None else Some sub'))"
    and "(case if remove1 e es = [] then None else Some sub' of None \<Rightarrow> None | Some sub \<Rightarrow> event_of sub x) =
      (if x = ev then None else event_of sub x)"
proof -
  have n: "cs_object sub' = n" "cs_object sub = n" using sub sub' by (auto dest: table_map_SomeD)
  show t1: "table_wf cs_object (MAX_OBJECT_NAME_LENGTH E) cs1"
    unfolding cs1 using tab n by (intro table_wf_upd) simp_all
  have m1: "table_map cs_object cs1 = (table_map cs_object cs)(n \<mapsto> sub')"
    unfolding cs1 using sub n by (intro set_subscription_map) simp_all
  then show in1: "sub' \<in> set cs1" using table_map_SomeD [of cs_object cs1 n sub'] by simp
  show "table_wf cs_object (MAX_OBJECT_NAME_LENGTH E) cs'" using t1 by (simp add: cs' table_wf_remove1)
  have "subscription_wf E sub'" if "remove1 e es \<noteq> []"
    using that es(2) by (simp add: subscription_wf_def sub' table_wf_remove1)
  then show "\<forall>sub\<in>set cs'. subscription_wf E sub"
    using all table_wf_distinct [OF t1] by (auto simp: cs' cs1 table_upd_def)
  show "table_map cs_object cs' =
      (table_map cs_object cs)(n := (if remove1 e es = [] then None else Some sub'))"
    using m1 table_map_remove1 [OF t1 in1] n by (simp add: cs')
  have e: "e \<in> set es" "ce_name e = ev" using es(3) by (auto dest: table_map_SomeD)
  have "table_map ce_name (remove1 e es) = (table_map ce_name es)(ev := None)"
    using table_map_remove1 [OF es(2) e(1)] e(2) by simp
  then have ev: "event_of sub' x = (if x = ev then None else event_of sub x)" for x
    using es(1) by (simp add: sub' event_of_def)
  have none: "event_of sub' x = None" if "remove1 e es = []" for x using that by (simp add: sub' event_of_def)
  show "(case if remove1 e es = [] then None else Some sub' of None \<Rightarrow> None | Some sub \<Rightarrow> event_of sub x) =
      (if x = ev then None else event_of sub x)" using ev [of x] none [of x] by auto
qed

lemma remove_subscription_found:
  assumes wf: "subs_wf E s" and some: "abs_subs s (n, ev) \<noteq> None"
  obtains cs' where
    "remove_subscription_callback E n ev s =
       Some (RTMESSAGE_BUS_SUCCESS, unlock (s\<lparr>g_event_subscriptions_for_client := Live (Some cs')\<rparr>))"
    and "subs_wf E (s\<lparr>g_event_subscriptions_for_client := Live (Some cs')\<rparr>)"
    and "abs_subs (s\<lparr>g_event_subscriptions_for_client := Live (Some cs')\<rparr>) = (abs_subs s)((n, ev) := None)"
proof -
  from wf obtain cs where cs: "g_event_subscriptions_for_client s = Live (Some cs)" "subs_list s = cs"
    and tab: "table_wf cs_object (MAX_OBJECT_NAME_LENGTH E) cs" and all: "\<forall>sub\<in>set cs. subscription_wf E sub"
    by (rule subs_wfE)
  from some cs obtain sub where sub: "table_map cs_object cs n = Some sub"
    by (auto simp: abs_subs_def split: option.splits)
  with wf cs obtain es where es: "events sub = Some es" "table_wf ce_name (MAX_EVENT_NAME_LENGTH E) es"
      "\<And>x. abs_subs s (n, x) = event_of sub x" "cs_object sub = n" by (metis subscription_in_table)
  with some obtain e where e: "table_map ce_name es ev = Some e" by (auto simp: event_of_def)
  let ?sub = "sub\<lparr>events := Some (remove1 e es)\<rparr>"
  let ?cs1 = "table_upd cs_object n (\<lambda>_. ?sub) cs"
  let ?cs = "if remove1 e es = [] then remove1 ?sub ?cs1 else ?cs1"
  note upd = drop_event_entry [OF tab sub es(1,2) e all refl refl refl]
  have rem: "rtVector_RemoveItem (cevts_v E) (Some es) e = Some (remove1 e es)"
    "rtVector_RemoveItem (csubs_v E) (Some ?cs1) ?sub = Some (remove1 ?sub ?cs1)"
    using cevt.remove_found [OF es(2) e] csubs.remove [OF table_wf_distinct [OF upd(1)] upd(2)] .
  show thesis
  proof (rule that [of ?cs])
    show "remove_subscription_callback E n ev s =
       Some (RTMESSAGE_BUS_SUCCESS, unlock (s\<lparr>g_event_subscriptions_for_client := Live (Some ?cs)\<rparr>))"
      using cs sub es e rem
      by (cases "remove1 e es = []")
        (simp_all add: remove_subscription_callback_def find_subscription [OF wf] find_client_event
          cevts.size set_subscription_def Let_def)
    show "subs_wf E (s\<lparr>g_event_subscriptions_for_client := Live (Some ?cs)\<rparr>)"
      using upd(3,4) by (simp add: subs_wf_def)
    show "abs_subs (s\<lparr>g_event_subscriptions_for_client := Live (Some ?cs)\<rparr>) = (abs_subs s)((n, ev) := None)"
      by (rule abs_subs_replace [OF cs(1) _ upd(5)]) (simp, simp only: upd(6) es(3))
  qed
qed

end

section \<open>The subscription request\<close>

text \<open>The fields of a request; the sender is the return address of the connection.\<close>

definition sender_address :: "runtime \<Rightarrow> nat option \<Rightarrow> string" where
  "sender_address R c = (case rtConnection_GetReturnAddress R c of None \<Rightarrow> [] | Some a \<Rightarrow> a)"

definition subscription_fields :: "string \<Rightarrow> string \<Rightarrow> byte list option \<Rightarrow> field list" where
  "subscription_fields ev sender payload =
     (case payload of
        None \<Rightarrow> [F_String ev, F_String sender, F_Int32 0]
      | Some b \<Rightarrow> [F_String ev, F_String sender, F_Int32 1, F_Message b])"

definition subscription_call ::
    "runtime \<Rightarrow> string \<Rightarrow> string \<Rightarrow> bool \<Rightarrow> byte list option \<Rightarrow> int \<Rightarrow> nat option \<Rightarrow> io_call" where
  "subscription_call R n ev activate payload timeout c =
     Rt_SendBinaryRequest
       (method_bytes (mp R) (enc_fields (mp R) (subscription_fields ev (sender_address R c) payload))
         (if activate then METHOD_ADD_EVENT_SUBSCRIPTION else METHOD_REMOVE_EVENT_SUBSCRIPTION))
       n (if timeout \<le> 0 then TIMEOUT_VALUE_FIRE_AND_FORGET else timeout)"

text \<open>The request can be built, and the answer, if there is one, is a message with a method.\<close>

definition subscription_sendable ::
    "runtime \<Rightarrow> string \<Rightarrow> string \<Rightarrow> bool \<Rightarrow> byte list option \<Rightarrow> nat option \<Rightarrow> bool" where
  "subscription_sendable R n ev activate payload c \<longleftrightarrow>
     length n < MAX_OBJECT_NAME_LENGTH R \<and>
     (\<forall>f\<in>set (subscription_fields ev (sender_address R c) payload). field_ok f) \<and>
     method_fits (mp R) (enc_fields (mp R) (subscription_fields ev (sender_address R c) payload))
       (if activate then METHOD_ADD_EVENT_SUBSCRIPTION else METHOD_REMOVE_EVENT_SUBSCRIPTION)"

definition answer_ok :: "runtime \<Rightarrow> io_call list \<Rightarrow> io_call \<Rightarrow> bool" where
  "answer_ok R t c \<longleftrightarrow> rt_result R t c \<noteq> RT_OK \<or>
     (\<exists>body name. rt_reply R t c = method_bytes (mp R) body name \<and> method_fits (mp R) body name)"

lemma put_next [simp]: "(msg_put p m s)\<lparr>next_ptr := k\<rparr> = msg_put p m (s\<lparr>next_ptr := k\<rparr>)"
  by (simp add: msg_put_def)

lemma msgs_fresh: "heap_fresh s \<Longrightarrow> next_ptr s \<le> p \<Longrightarrow> (msgs s)(p := None) = msgs s"
  by (auto simp: heap_fresh_def fun_eq_iff)

context rbus_runtime
begin

lemma msg_write_field:
  assumes "msgs s p = Some m" and "pk m" and "field_ok f" and "\<And>m. F m = put_field (mp E) m f"
  shows "msg_write F p s = Some (RT_OK, msg_put p (m\<lparr>sbuf := sbuf m @ enc_field (mp E) f\<rparr>) s)"
  using assms put_field_appends [of m f] by (simp add: msg_write_def)

lemma request_built:
  assumes ok: "\<forall>f\<in>set (subscription_fields ev (sender_address E (g_connection s)) (map_option sbuf item)). field_ok f"
    and p: "payload = None \<and> item = None \<or> (\<exists>q m. payload = Some q \<and> item = Some m \<and> msgs s q = Some m \<and> q < next_ptr s)"
  shows "build_subscription_request E ev payload s = Some (next_ptr s, msg_put (next_ptr s)
    (rbusMessage_Init\<lparr>sbuf := enc_fields (mp E)
       (subscription_fields ev (sender_address E (g_connection s)) (map_option sbuf item))\<rparr>)
    (s\<lparr>next_ptr := Suc (next_ptr s)\<rparr>))"
proof -
  let ?q = "next_ptr s" and ?addr = "sender_address E (g_connection s)"
  define put where "put b = msg_put ?q (rbusMessage_Init\<lparr>sbuf := b\<rparr>) (s\<lparr>next_ptr := Suc ?q\<rparr>)" for b
  have alloc: "msg_alloc rbusMessage_Init s = (?q, put [])"
    by (simp add: msg_alloc_def msg_put_def rbusMessage_Init_def put_def)
  have w: "msg_write F ?q (put b) = Some (RT_OK, put (b @ enc_field (mp E) f))"
    if "field_ok f" "\<And>m. F m = put_field (mp E) m f" for F f b
    using msg_write_field [of "put b" ?q "rbusMessage_Init\<lparr>sbuf := b\<rparr>" f F] that
    by (simp add: rbusMessage_Init_def put_def)
  have c: "g_connection (put b) = g_connection s" "x < ?q \<Longrightarrow> msgs (put b) x = msgs s x" for b x
    by (simp_all add: put_def)
  have addr: "rbusMessage_SetString (mp E) m (rtConnection_GetReturnAddress E (g_connection s)) =
      put_field (mp E) m (F_String ?addr)" for m
    by (simp add: sender_address_def rbusMessage_SetString_def split: option.split)
  have w1: "msg_write (\<lambda>m. rbusMessage_SetString (mp E) m (Some ev)) ?q (put b) =
      Some (RT_OK, put (b @ enc_field (mp E) (F_String ev)))" for b
    using ok by (intro w) (simp_all add: subscription_fields_def split: option.splits)
  have w2: "msg_write (\<lambda>m. rbusMessage_SetString (mp E) m (rtConnection_GetReturnAddress E (g_connection s))) ?q (put b) =
      Some (RT_OK, put (b @ enc_field (mp E) (F_String ?addr)))" for b
    using ok by (intro w addr) (simp_all add: subscription_fields_def split: option.splits)
  have w3: "msg_write (\<lambda>m. rbusMessage_SetInt32 (mp E) m k) ?q (put b) =
      Some (RT_OK, put (b @ enc_field (mp E) (F_Int32 k)))" for b k
    by (intro w) simp_all
  have w4: "msg_write (\<lambda>m. rbusMessage_SetMessage (mp E) m x) ?q (put b) =
      Some (RT_OK, put (b @ enc_field (mp E) (F_Message (sbuf x))))" if "item = Some x" for b x
    using ok that by (intro w) (simp_all add: subscription_fields_def rbusMessage_SetMessage_def)
  have "build_subscription_request E ev payload s = Some (?q, put (enc_fields (mp E)
      (subscription_fields ev ?addr (map_option sbuf item))))"
    using p
    by (elim disjE exE conjE)
      (simp_all add: build_subscription_request_def alloc w1 w2 w3 w4 c subscription_fields_def enc_fields_def)
  then show ?thesis by (simp add: put_def)
qed

lemma destroy_fresh:
  assumes "heap_fresh s" and "next_ptr s \<le> p" and "msgs t = msgs s"
  shows "rbusMessage_Destroy p t = t"
  using msgs_fresh [OF assms(1,2)] assms(3) by (simp add: rbusMessage_Destroy_def)

lemma sint_0_iff: "sint (w :: int32) = 0 \<longleftrightarrow> w = 0"
  by (metis signed_0 signed_word_eqI)

lemma GetInt32_frame: "\<exists>e v off. rbusMessage_GetInt32 M m = (e, v, m\<lparr>read_offset := off\<rparr>)"
  by (auto simp: rbusMessage_GetInt32_def verify_unpack_def verify_unpack_next_item_def split: prod.split option.split)

text \<open>The part after the call, for the answer \<open>m\<close> at the address \<open>p\<close>.\<close>

lemma read_answer:
  assumes "msgs t p = Some m" and "refCount m = 1"
  obtains ret perr where "do {
       (_, v, s7) \<leftarrow> msg_read (rbusMessage_GetInt32 (mp E)) p t;
       s8 \<leftarrow> rbusMessage_Release E p s7;
       Some (case v of
           None \<Rightarrow> (RTMESSAGE_BUS_ERROR_MALFORMED_RESPONSE, None, s8)
         | Some w \<Rightarrow> if sint w = rbus_error_code RTMESSAGE_BUS_SUCCESS
                     then (RTMESSAGE_BUS_SUCCESS, None, s8)
                     else (RTMESSAGE_BUS_ERROR_GENERAL, Some (sint w), s8))
     } = Some (ret, perr, rbusMessage_Destroy p t)"
    and "\<And>w rest. m = rbusMessage_FromBytes (mp E) (enc_int32 (mp E) w @ rest) \<Longrightarrow>
      ret = (if w = 0 then RTMESSAGE_BUS_SUCCESS else RTMESSAGE_BUS_ERROR_GENERAL) \<and>
      perr = (if w = 0 then None else Some (sint w))"
proof -
  obtain e v off where g: "rbusMessage_GetInt32 (mp E) m = (e, v, m\<lparr>read_offset := off\<rparr>)"
    using GetInt32_frame by blast
  let ?ret = "case v of None \<Rightarrow> RTMESSAGE_BUS_ERROR_MALFORMED_RESPONSE
      | Some w \<Rightarrow> if w = 0 then RTMESSAGE_BUS_SUCCESS else RTMESSAGE_BUS_ERROR_GENERAL"
  let ?perr = "case v of None \<Rightarrow> None | Some w \<Rightarrow> if w = 0 then None else Some (sint w)"
  have "v = Some w" if "m = rbusMessage_FromBytes (mp E) (enc_int32 (mp E) w @ rest)" for w rest
    using read_result_code [of t p w rest] assms(1) g that by (auto simp: msg_read_def)
  then show thesis
    using assms g by (intro that [of ?ret ?perr])
      (auto simp: msg_read_def release_last sint_0_iff split: option.split)
qed

text \<open>
  The request is sent once, both messages are freed, and nothing else changes.
\<close>

lemma send_subscription_run:
  assumes fresh: "heap_fresh s" and c: "g_connection s \<noteq> None"
    and ok: "subscription_sendable E n ev activate (map_option sbuf item) (g_connection s)"
    and p: "payload = None \<and> item = None \<or> (\<exists>q m. payload = Some q \<and> item = Some m \<and> msgs s q = Some m)"
    and req: "req = subscription_call E n ev activate (map_option sbuf item) timeout (g_connection s)"
    and ans: "rt_result E (io s) req \<noteq> RT_OK \<or> rt_reply E (io s) req = method_bytes (mp E) body name \<and>
      method_fits (mp E) body name"
  obtains ret perr k where
    "send_subscription_request E n ev activate payload timeout s = Some (ret, perr, s\<lparr>io := io s @ [req], next_ptr := k\<rparr>)"
    and "next_ptr s \<le> k"
    and "rt_result E (io s) req = RT_OK \<Longrightarrow> name = METHOD_RESPONSE \<Longrightarrow> body = enc_int32 (mp E) w @ rest \<Longrightarrow>
      ret = (if w = 0 then RTMESSAGE_BUS_SUCCESS else RTMESSAGE_BUS_ERROR_GENERAL) \<and>
      perr = (if w = 0 then None else Some (sint w))"
    and "rt_result E (io s) req \<noteq> RT_OK \<Longrightarrow> ret \<noteq> RTMESSAGE_BUS_SUCCESS"
proof -
  let ?q = "next_ptr s" and ?B = "enc_fields (mp E)
      (subscription_fields ev (sender_address E (g_connection s)) (map_option sbuf item))"
  let ?m = "rbusMessage_Init\<lparr>sbuf := ?B\<rparr>"
  let ?s0 = "msg_put ?q ?m (s\<lparr>next_ptr := Suc ?q\<rparr>)"
  let ?M = "if activate then METHOD_ADD_EVENT_SUBSCRIPTION else METHOD_REMOVE_EVENT_SUBSCRIPTION"
  let ?T = "if timeout \<le> 0 then TIMEOUT_VALUE_FIRE_AND_FORGET else timeout"
  have p': "payload = None \<and> item = None \<or> (\<exists>q m. payload = Some q \<and> item = Some m \<and> msgs s q = Some m \<and> q < ?q)"
    using p fresh by (metis heap_fresh_def not_le option.distinct(1))
  have built: "build_subscription_request E ev payload s = Some (?q, ?s0)"
    using ok p' by (intro request_built) (simp_all add: subscription_sendable_def)
  have m: "g_connection ?s0 \<noteq> None" "length n < MAX_OBJECT_NAME_LENGTH E" "msgs ?s0 ?q = Some ?m" "pk ?m"
    "refCount ?m = 1" "method_fits (mp E) (sbuf ?m) ?M" "?q < next_ptr ?s0" "io ?s0 = io s" "next_ptr ?s0 = Suc ?q"
    using c ok by (simp_all add: rbusMessage_Init_def subscription_sendable_def)
  have req': "req = Rt_SendBinaryRequest (method_bytes (mp E) (sbuf ?m) ?M) n ?T"
    by (simp add: req subscription_call_def)
  show thesis
  proof (cases "rt_result E (io s) req = RT_OK")
    case False
    then show thesis
      using invokeRemoteMethod_failed [OF m(1-6) req'] built destroy_fresh [OF fresh, of ?q] m(8)
      by (intro that [of "if rt_result E (io s) req = RT_OBJECT_NO_LONGER_AVAILABLE
            then RTMESSAGE_BUS_ERROR_DESTINATION_UNREACHABLE
            else RTMESSAGE_BUS_ERROR_REMOTE_END_FAILED_TO_RESPOND" None "Suc ?q"])
        (auto simp: send_subscription_request_def)
  next
    case True
    with ans have rep: "rt_reply E (io ?s0) req = method_bytes (mp E) body name" "method_fits (mp E) body name"
      by simp_all
    let ?r = "rbusMessage_FromBytes (mp E) (method_bytes (mp E) body name)"
    let ?u = "s\<lparr>io := io s @ [req], next_ptr := Suc (Suc ?q)\<rparr>"
    note run = invokeRemoteMethod_replied [OF m(1-6) req' _ rep refl m(7)]
    show thesis
    proof (cases "take MAX_METHOD_NAME_LENGTH METHOD_RESPONSE = take MAX_METHOD_NAME_LENGTH name")
      case False
      then show thesis
        using run True built destroy_fresh [OF fresh, of ?q] destroy_fresh [OF fresh, of "Suc ?q"] m(8)
        by (intro that [where k = "Suc (Suc ?q)"]) (auto simp: send_subscription_request_def)
    next
      case eq: True
      let ?t = "rbusMessage_Destroy ?q (msg_put (Suc ?q) ?r ?u)"
      have inv: "rbus_invokeRemoteMethod E n ?M (Some ?q) ?T ?s0 = Some (RTMESSAGE_BUS_SUCCESS, Some (Suc ?q), ?t)"
        using run True eq m(8) by (simp add: rbusMessage_Destroy_def msg_put_def fun_upd_twist)
      have "msgs ?t (Suc ?q) = Some ?r" "refCount ?r = 1" by (simp_all add: rbusMessage_FromBytes_def)
      then obtain ret perr where ret: "do {
           (_, v, s7) \<leftarrow> msg_read (rbusMessage_GetInt32 (mp E)) (Suc ?q) ?t;
           s8 \<leftarrow> rbusMessage_Release E (Suc ?q) s7;
           Some (case v of
               None \<Rightarrow> (RTMESSAGE_BUS_ERROR_MALFORMED_RESPONSE, None, s8)
             | Some w \<Rightarrow> if sint w = rbus_error_code RTMESSAGE_BUS_SUCCESS
                         then (RTMESSAGE_BUS_SUCCESS, None, s8)
                         else (RTMESSAGE_BUS_ERROR_GENERAL, Some (sint w), s8))
         } = Some (ret, perr, rbusMessage_Destroy (Suc ?q) ?t)"
        and val: "\<And>w rest. ?r = rbusMessage_FromBytes (mp E) (enc_int32 (mp E) w @ rest) \<Longrightarrow>
          ret = (if w = 0 then RTMESSAGE_BUS_SUCCESS else RTMESSAGE_BUS_ERROR_GENERAL) \<and>
          perr = (if w = 0 then None else Some (sint w))"
        by (rule read_answer) blast
      have "rbusMessage_Destroy (Suc ?q) ?t = ?u"
        using fresh by (auto simp: rbusMessage_Destroy_def msg_put_def heap_fresh_def fun_eq_iff
            intro!: rbus_state.equality)
      then have "send_subscription_request E n ev activate payload timeout s = Some (ret, perr, ?u)"
        using built inv ret by (simp add: send_subscription_request_def)
      then show thesis
        using val [of w "rest @ enc_fields (mp E) [F_String name] @ meta_trailer (length body)"] True
        by (intro that [where k = "Suc (Suc ?q)"]) (simp_all add: method_bytes_def)
    qed
  qed
qed

end

text \<open>The listener for events, installed with the first subscription.\<close>

definition listener_setup :: "rbus_state \<Rightarrow> io_call list" where
  "listener_setup s =
     (if g_run_event_client_dispatch s then [] else [Rt_AddDefaultListener Master_Event_Callback])"

text \<open>The part of the state that subscriptions and events of the client do not touch.\<close>

definition client_core :: "rbus_state \<Rightarrow> rbus_state" where
  "client_core s = s\<lparr>next_ptr := 0, io := [], g_mutex := False, g_event_subscriptions_for_client := Freed,
     g_run_event_client_dispatch := False\<rparr>"

lemma client_core_simps [simp]:
  "client_core (lock s) = client_core s" "client_core (unlock s) = client_core s"
  "client_core (s\<lparr>io := t\<rparr>) = client_core s" "client_core (s\<lparr>next_ptr := k\<rparr>) = client_core s"
  "client_core (s\<lparr>g_event_subscriptions_for_client := v\<rparr>) = client_core s"
  "client_core (s\<lparr>g_run_event_client_dispatch := b\<rparr>) = client_core s"
  by (simp_all add: client_core_def lock_def unlock_def)

context rbus_runtime
begin

lemma subscribe_run:
  assumes wf: "subs_wf E s" and fresh: "heap_fresh s" and c: "g_connection s \<noteq> None"
    and master: "g_master_event_callback s = None" and new: "abs_subs s (n, ev) = None"
    and len: "length ev < MAX_EVENT_NAME_LENGTH E"
    and ok: "subscription_sendable E n ev True (map_option sbuf item) (g_connection s)"
    and p: "payload = None \<and> item = None \<or> (\<exists>q m. payload = Some q \<and> item = Some m \<and> msgs s q = Some m)"
    and req: "req = subscription_call E n ev True (map_option sbuf item) timeout (g_connection s)"
    and tr: "tr = io s @ listener_setup s"
    and ans: "rt_result E tr req \<noteq> RT_OK \<or> rt_reply E tr req = method_bytes (mp E) body name \<and>
      method_fits (mp E) body name"
  obtains ret perr s' where
    "rbus_subscribeToEventInternal E (Some n) (Some ev) (Some f) payload data timeout s = Some (ret, perr, s')"
    and "subs_wf E s'"
    and "abs_subs s' = (if ret = RTMESSAGE_BUS_SUCCESS then (abs_subs s)((n, ev) \<mapsto> (f, data)) else abs_subs s)"
    and "io s' = tr @ [req]" and "msgs s' = msgs s" and "heap_fresh s'" and "\<not> g_mutex s'"
    and "client_core s' = client_core s" and "next_ptr s \<le> next_ptr s'"
    and "rt_result E tr req = RT_OK \<Longrightarrow> name = METHOD_RESPONSE \<Longrightarrow> body = enc_int32 (mp E) w @ rest \<Longrightarrow>
      ret = (if w = 0 then RTMESSAGE_BUS_SUCCESS else RTMESSAGE_BUS_ERROR_GENERAL)"
    and "rt_result E tr req \<noteq> RT_OK \<Longrightarrow> ret \<noteq> RTMESSAGE_BUS_SUCCESS"
proof -
  have lenn: "length n < MAX_OBJECT_NAME_LENGTH E" using ok by (simp add: subscription_sendable_def)
  define s2 where "s2 = (lock s)\<lparr>io := tr, g_run_event_client_dispatch := True\<rparr>"
  have s2: "(if g_run_event_client_dispatch (lock s) then lock s
      else (snd (rt_do E (Rt_AddDefaultListener Master_Event_Callback) (lock s)))\<lparr>g_run_event_client_dispatch := True\<rparr>) = s2"
    by (simp add: s2_def tr listener_setup_def rt_do_def)
  have wf2: "subs_wf E s2" "abs_subs s2 = abs_subs s"
    using wf subs_frame [of s2 s] by (simp_all add: s2_def)
  obtain cs' where add: "add_subscription_callback E n ev f data s2 =
       Some (Some (s2\<lparr>g_event_subscriptions_for_client := Live (Some cs')\<rparr>))"
    and wf3: "subs_wf E (s2\<lparr>g_event_subscriptions_for_client := Live (Some cs')\<rparr>)"
    and abs3: "abs_subs (s2\<lparr>g_event_subscriptions_for_client := Live (Some cs')\<rparr>) = (abs_subs s)((n, ev) \<mapsto> (f, data))"
    using add_subscription_new [OF wf2(1) _ lenn len] new wf2(2) by metis
  let ?s3 = "unlock (s2\<lparr>g_event_subscriptions_for_client := Live (Some cs')\<rparr>)"
  have s3: "heap_fresh ?s3" "g_connection ?s3 = g_connection s" "msgs ?s3 = msgs s" "io ?s3 = tr"
      "g_master_event_callback ?s3 = None" "next_ptr ?s3 = next_ptr s"
    using fresh master by (simp_all add: s2_def heap_fresh_def)
  obtain ret perr k where send: "send_subscription_request E n ev True payload timeout ?s3 =
      Some (ret, perr, ?s3\<lparr>io := tr @ [req], next_ptr := k\<rparr>)" and k: "next_ptr s \<le> k"
    and val: "rt_result E tr req = RT_OK \<Longrightarrow> name = METHOD_RESPONSE \<Longrightarrow> body = enc_int32 (mp E) w @ rest \<Longrightarrow>
      ret = (if w = 0 then RTMESSAGE_BUS_SUCCESS else RTMESSAGE_BUS_ERROR_GENERAL)"
      "rt_result E tr req \<noteq> RT_OK \<Longrightarrow> ret \<noteq> RTMESSAGE_BUS_SUCCESS"
    by (rule send_subscription_run [OF s3(1), of n ev True item payload req timeout body name w rest])
      (use c ok p req ans s3 in auto)
  let ?s4 = "?s3\<lparr>io := tr @ [req], next_ptr := k\<rparr>"
  have run: "rbus_subscribeToEventInternal E (Some n) (Some ev) (Some f) payload data timeout s =
      (if ret \<noteq> RTMESSAGE_BUS_SUCCESS
       then do { (_, s5) \<leftarrow> remove_subscription_callback E n ev (lock ?s4); Some (ret, perr, unlock s5) }
       else Some (ret, perr, ?s4))"
    using c lenn len s2 add send master s3(5)
    by (auto simp: rbus_subscribeToEventInternal_def strnlen_ge_iff not_le Let_def s2_def)
  have wf4: "subs_wf E ?s4" "abs_subs ?s4 = (abs_subs s)((n, ev) \<mapsto> (f, data))"
    using wf3 abs3 subs_frame [of ?s4 "s2\<lparr>g_event_subscriptions_for_client := Live (Some cs')\<rparr>"] by simp_all
  have f4: "heap_fresh ?s4" using s3(1,3) k fresh by (simp add: heap_fresh_def)
  have core: "client_core s2 = client_core s" by (simp add: s2_def)
  show thesis
  proof (cases "ret = RTMESSAGE_BUS_SUCCESS")
    case True
    then show thesis using run wf4 f4 val s3 core k by (intro that [of ret perr ?s4]) simp_all
  next
    case False
    have "subs_wf E (lock ?s4)" "abs_subs (lock ?s4) (n, ev) \<noteq> None" using wf4 by simp_all
    then obtain cs5 where rem: "remove_subscription_callback E n ev (lock ?s4) = Some (RTMESSAGE_BUS_SUCCESS,
        unlock ((lock ?s4)\<lparr>g_event_subscriptions_for_client := Live (Some cs5)\<rparr>))"
      and wf5: "subs_wf E ((lock ?s4)\<lparr>g_event_subscriptions_for_client := Live (Some cs5)\<rparr>)"
        "abs_subs ((lock ?s4)\<lparr>g_event_subscriptions_for_client := Live (Some cs5)\<rparr>) = (abs_subs (lock ?s4))((n, ev) := None)"
      by (rule remove_subscription_found)
    have "(abs_subs s)((n, ev) := None) = abs_subs s" using new by (simp add: fun_upd_idem)
    with False show thesis
      using run rem wf5 wf4 val s3 f4 core k
      by (intro that [of ret perr "unlock ((lock ?s4)\<lparr>g_event_subscriptions_for_client := Live (Some cs5)\<rparr>)"])
        (simp_all add: heap_fresh_def)
  qed
qed

end

section \<open>Facts on incoming events\<close>

definition event_bytes :: "msgpack \<Rightarrow> byte list \<Rightarrow> string \<Rightarrow> string \<Rightarrow> int32 \<Rightarrow> byte list" where
  "event_bytes M body ev n is_rbus =
     body @ enc_fields M (event_fields ev n is_rbus) @ meta_trailer (length body)"

definition event_fits :: "msgpack \<Rightarrow> byte list \<Rightarrow> string \<Rightarrow> string \<Rightarrow> int32 \<Rightarrow> bool" where
  "event_fits M body ev n is_rbus \<longleftrightarrow> cname_ok ev \<and> cname_ok n \<and> length body < 2 ^ 31 - 2 ^ 15 \<and>
     length (event_bytes M body ev n is_rbus) < 2 ^ 32"

text \<open>
  The event table is searched in its order for an entry of the sender or of the event name that
  has the event.
\<close>

definition event_target :: "rbus_state \<Rightarrow> string \<Rightarrow> string \<Rightarrow> (fnptr \<times> user_data) option" where
  "event_target s sender ev =
     (case List.find (\<lambda>sub. (cs_object sub = sender \<or> cs_object sub = ev) \<and> event_of sub ev \<noteq> None) (subs_list s) of
        None \<Rightarrow> None | Some sub \<Rightarrow> event_of sub ev)"

text \<open>The call of the callback found in the table.\<close>

definition listed_calls :: "rbus_state \<Rightarrow> string \<Rightarrow> string \<Rightarrow> rbusMessage \<Rightarrow> io_call list" where
  "listed_calls s sender ev m =
     (case event_target s sender ev of None \<Rightarrow> [] | Some (f, d) \<Rightarrow> [App_Event f sender (Some ev) m d])"

text \<open>With one candidate it is the callback subscribed for the sender's event.\<close>

lemma event_target_subscribed:
  assumes wf: "subs_wf E s" and f: "abs_subs s (sender, ev) = Some x"
    and other: "sender = ev \<or> abs_subs s (ev, ev) = None"
  shows "event_target s sender ev = Some x"
proof -
  let ?P = "\<lambda>sub. (cs_object sub = sender \<or> cs_object sub = ev) \<and> event_of sub ev \<noteq> None"
  from wf have d: "distinct (map cs_object (subs_list s))" by (auto elim!: subs_wfE simp: table_wf_def)
  from f obtain sub where sub: "table_map cs_object (subs_list s) sender = Some sub" "event_of sub ev = Some x"
    by (auto simp: abs_subs_def split: option.splits)
  have uniq: "sub' = sub" if "sub' \<in> set (subs_list s)" "?P sub'" for sub'
  proof -
    have "abs_subs s (cs_object sub', ev) = event_of sub' ev"
      using that(1) d by (simp add: abs_subs_def table_map_eq_find find_Some_iff_distinct [THEN iffD2])
    with that(2) other have "cs_object sub' = sender" by auto
    with that(1) have "table_map cs_object (subs_list s) sender = Some sub'"
      using d by (simp add: table_map_eq_find find_Some_iff_distinct)
    with sub(1) show ?thesis by simp
  qed
  have "sub \<in> set (subs_list s)" "?P sub" using sub by (auto dest: table_map_SomeD)
  then have "List.find ?P (subs_list s) \<noteq> None" unfolding find_None_iff by blast
  then obtain y where y: "List.find ?P (subs_list s) = Some y" by blast
  then have "y \<in> set (subs_list s)" "?P y" by (auto simp: find_Some_iff)
  from uniq [OF this] y have "List.find ?P (subs_list s) = Some sub" by simp
  then show ?thesis using sub(2) by (simp add: event_target_def)
qed

lemma event_target_none:
  assumes "subs_wf E s" and "abs_subs s (sender, ev) = None" and "abs_subs s (ev, ev) = None"
  shows "event_target s sender ev = None"
proof -
  from assms(1) have d: "distinct (map cs_object (subs_list s))" by (auto elim!: subs_wfE simp: table_wf_def)
  have "abs_subs s (cs_object sub, ev) = event_of sub ev" if "sub \<in> set (subs_list s)" for sub
    using that d by (simp add: abs_subs_def table_map_eq_find find_Some_iff_distinct [THEN iffD2])
  with assms(2,3) have "List.find (\<lambda>sub. (cs_object sub = sender \<or> cs_object sub = ev) \<and> event_of sub ev \<noteq> None)
      (subs_list s) = None"
    by (auto simp: find_None_iff)
  then show ?thesis by (simp add: event_target_def)
qed

context rbus_runtime
begin

lemma read_string_run:
  assumes "msgs s p = Some m" and "sbuf m = pre @ enc_field (mp E) (F_String x) @ post"
    and "read_offset m = length pre" and "cname_ok x"
  shows "msg_read_string E p s = Some (RT_OK, Some x,
    msg_put p (m\<lparr>read_offset := length pre + length (enc_field (mp E) (F_String x))\<rparr>) s)"
proof -
  have "get_field (mp E) m (F_String x) =
      (RT_OK, Some (F_String x), m\<lparr>read_offset := length pre + length (enc_field (mp E) (F_String x))\<rparr>)"
    using assms by (intro get_field_reads) (simp_all add: cname_ok_def)
  then have "\<exists>q. rbusMessage_GetString (mp E) m =
      (RT_OK, Some q, m\<lparr>read_offset := length pre + length (enc_field (mp E) (F_String x))\<rparr>) \<and>
      message_cstr m q = Some x"
    by (auto simp: rbusMessage_GetString_def verify_unpack_def message_cstr_def
        split: prod.splits option.splits)
  then show ?thesis
    using assms(1) by (auto simp: msg_read_string_def msg_read_def message_cstr_def)
qed

lemma read_int32_run:
  assumes "msgs s p = Some m" and "sbuf m = pre @ enc_field (mp E) (F_Int32 w) @ post"
    and "read_offset m = length pre"
  shows "msg_read (rbusMessage_GetInt32 (mp E)) p s = Some (RT_OK, Some w,
    msg_put p (m\<lparr>read_offset := length pre + length (enc_field (mp E) (F_Int32 w))\<rparr>) s)"
proof -
  have "get_field (mp E) m (F_Int32 w) =
      (RT_OK, Some (F_Int32 w), m\<lparr>read_offset := length pre + length (enc_field (mp E) (F_Int32 w))\<rparr>)"
    using assms by (intro get_field_reads) simp_all
  then have "rbusMessage_GetInt32 (mp E) m =
      (RT_OK, Some w, m\<lparr>read_offset := length pre + length (enc_field (mp E) (F_Int32 w))\<rparr>)"
    by (auto simp: rbusMessage_GetInt32_def verify_unpack_def split: prod.splits option.splits)
  then show ?thesis using assms(1) by (simp add: msg_read_def)
qed

lemma find_event_run:
  assumes wf: "subs_wf E s" and cs: "g_event_subscriptions_for_client s = Live (Some cs)"
    and "\<forall>i\<in>set is. i < length cs"
  shows "\<exists>e. find_event_callback E (Some cs) sender (Some ev) is = Some e \<and>
    map_option (\<lambda>e. (ce_callback e, ce_data e)) e =
    (case List.find (\<lambda>sub. (cs_object sub = sender \<or> cs_object sub = ev) \<and> event_of sub ev \<noteq> None)
       (map ((!) cs) is) of None \<Rightarrow> None | Some sub \<Rightarrow> event_of sub ev)"
  using assms(3)
proof (induction "is")
  case (Cons i js)
  let ?sub = "cs ! i"
  have "?sub \<in> set cs" using Cons.prems by simp
  with wf cs obtain es where es: "events ?sub = Some es" "table_wf ce_name (MAX_EVENT_NAME_LENGTH E) es"
    and "length (cs_object ?sub) < MAX_OBJECT_NAME_LENGTH E"
    by (auto simp: subs_wf_def subscription_wf_def table_wf_def)
  then have "strncmp (MAX_OBJECT_NAME_LENGTH E) (cs_object ?sub) k = 0 \<longleftrightarrow> cs_object ?sub = k" for k
    by (simp add: strncmp_short_iff)
  then show ?case
    using Cons es csubs.at [of i cs]
    by (cases "table_map ce_name es ev") (auto simp: find_client_event event_of_def)
qed simp

lemma event_callback_found:
  assumes "subs_wf E s" and "g_event_subscriptions_for_client s = Live (Some cs)"
  obtains e where "find_event_callback E (Some cs) sender (Some ev) [0..<length cs] = Some e"
    and "map_option (\<lambda>e. (ce_callback e, ce_data e)) e = event_target s sender ev"
  using find_event_run [OF assms, of "[0..<length cs]" sender ev] assms(2) map_nth [of cs]
  by (auto simp: event_target_def subs_list_def)

text \<open>An incoming event: the master handler, if there is one and the event is one of its own, then the table.\<close>

lemma incoming_event_run:
  assumes wf: "subs_wf E s" and fresh: "heap_fresh s" and len: "length (reply_topic hdr) < MAX_OBJECT_NAME_LENGTH E"
    and fits: "event_fits (mp E) body ev n k"
    and m: "m = rbusMessage_FromBytes (mp E) (event_bytes (mp E) body ev n k)"
  shows "master_event_callback E hdr (event_bytes (mp E) body ev n k) s = Some
    (case (if k = 0 then None else g_master_event_callback s) of
       None \<Rightarrow> unlock (s\<lparr>next_ptr := Suc (next_ptr s), io := io s @ listed_calls s (reply_topic hdr) ev m\<rparr>)
     | Some f \<Rightarrow>
         let c = App_Event f (reply_topic hdr) (Some ev) m (g_master_event_user_data s)
         in if app_result E (io s) c \<noteq> rbus_error_code RTMESSAGE_BUS_EVENT_NOT_HANDLED
            then s\<lparr>next_ptr := Suc (next_ptr s), io := io s @ [c]\<rparr>
            else unlock (s\<lparr>next_ptr := Suc (next_ptr s), io := io s @ c # listed_calls s (reply_topic hdr) ev m\<rparr>))"
proof -
  let ?q = "next_ptr s" and ?sender = "reply_topic hdr" and ?M = "mp E"
  let ?f1 = "enc_field ?M (F_String ev)" and ?f2 = "enc_field ?M (F_String n)" and ?f3 = "enc_field ?M (F_Int32 k)"
  let ?u = "s\<lparr>next_ptr := Suc ?q\<rparr>"
  have b: "sbuf m = body @ ?f1 @ ?f2 @ ?f3 @ meta_trailer (length body)" "read_offset m = 0" "refCount m = 1"
    "meta_offset m = 0"
    using FromBytes_sbuf by (simp_all add: m event_bytes_def event_fields_def enc_fields_def rbusMessage_FromBytes_def)
  have lens: "length body < 2 ^ 31" "length (sbuf m) < 2 ^ 64"
    using fits b(1) by (simp_all add: event_fits_def event_bytes_def event_fields_def enc_fields_def)
  have seek: "rbusMessage_BeginMetaSectionRead ?M m = m\<lparr>read_offset := length body\<rparr>"
    using BeginMetaSectionRead_seeks [of m "body @ ?f1 @ ?f2 @ ?f3" "length body"] b lens
    by (simp add: int32_of_size_def)
  have r1: "msg_read_string E ?q (msg_put ?q (m\<lparr>read_offset := length body\<rparr>) ?u) =
      Some (RT_OK, Some ev, msg_put ?q (m\<lparr>read_offset := length body + length ?f1\<rparr>) ?u)"
    using read_string_run [of "msg_put ?q (m\<lparr>read_offset := length body\<rparr>) ?u" ?q _ body ev] b fits
    by (simp add: event_fits_def)
  have r2: "msg_read_string E ?q (msg_put ?q (m\<lparr>read_offset := length body + length ?f1\<rparr>) ?u) =
      Some (RT_OK, Some n, msg_put ?q (m\<lparr>read_offset := length body + length ?f1 + length ?f2\<rparr>) ?u)"
    using read_string_run [of "msg_put ?q (m\<lparr>read_offset := length body + length ?f1\<rparr>) ?u" ?q _ "body @ ?f1" n] b fits
    by (simp add: event_fits_def)
  have r3: "msg_read (rbusMessage_GetInt32 ?M) ?q (msg_put ?q (m\<lparr>read_offset := length body + length ?f1 + length ?f2\<rparr>) ?u) =
      Some (RT_OK, Some k, msg_put ?q (m\<lparr>read_offset := length body + length ?f1 + length ?f2 + length ?f3\<rparr>) ?u)"
    using read_int32_run [of "msg_put ?q (m\<lparr>read_offset := length body + length ?f1 + length ?f2\<rparr>) ?u" ?q _
        "body @ ?f1 @ ?f2" k] b by (simp add: add.assoc)
  have fin: "rbusMessage_EndMetaSectionRead (m\<lparr>read_offset := x\<rparr>) = m" for x
    using b(2,4) size_of_int32_of_size [of 0]
    by (simp add: rbusMessage_EndMetaSectionRead_def int32_of_size_def)
  have alloc: "msg_alloc m s = (?q, msg_put ?q m ?u)" by (simp add: msg_alloc_def msg_put_def)
  from wf obtain cs where cs: "g_event_subscriptions_for_client s = Live (Some cs)" by (rule subs_wfE)
  obtain e where e: "find_event_callback E (Some cs) ?sender (Some ev) [0..<length cs] = Some e"
    "map_option (\<lambda>e. (ce_callback e, ce_data e)) e = event_target s ?sender ev"
    by (rule event_callback_found [OF wf cs])
  have free: "rbusMessage_Destroy ?q (unlock (msg_put ?q x ?u)) = unlock ?u"
    "rbusMessage_Destroy ?q ((unlock (msg_put ?q x ?u))\<lparr>io := t\<rparr>) = unlock (?u\<lparr>io := t\<rparr>)"
    "rbusMessage_Destroy ?q (msg_put ?q x (?u\<lparr>io := t\<rparr>)) = ?u\<lparr>io := t\<rparr>"
    "rbusMessage_Destroy ?q (unlock (msg_put ?q x (?u\<lparr>io := t\<rparr>))) = unlock (?u\<lparr>io := t\<rparr>)"
    "rbusMessage_Destroy ?q ((unlock (msg_put ?q x (?u\<lparr>io := t\<rparr>)))\<lparr>io := t'\<rparr>) = unlock (?u\<lparr>io := t'\<rparr>)" for t t' x
    using msgs_fresh [OF fresh, of ?q]
    by (simp_all add: rbusMessage_Destroy_def msg_put_def unlock_def)
  obtain o1 o2 o3 where r:
    "msg_read_string E ?q (msg_put ?q (m\<lparr>read_offset := length body\<rparr>) ?u) =
       Some (RT_OK, Some ev, msg_put ?q (m\<lparr>read_offset := o1\<rparr>) ?u)"
    "msg_read_string E ?q (msg_put ?q (m\<lparr>read_offset := o1\<rparr>) ?u) =
       Some (RT_OK, Some n, msg_put ?q (m\<lparr>read_offset := o2\<rparr>) ?u)"
    "msg_read (rbusMessage_GetInt32 ?M) ?q (msg_put ?q (m\<lparr>read_offset := o2\<rparr>) ?u) =
       Some (RT_OK, Some k, msg_put ?q (m\<lparr>read_offset := o3\<rparr>) ?u)"
    using r1 r2 r3 by blast
  show ?thesis
    using len cs e free
    by (cases e) (auto simp: listed_calls_def master_event_callback_def m [symmetric] alloc seek r fin b(3) csubs.size app_do_def
        release_last Let_def split: option.split)
qed

lemma master_event_run:
  assumes "subs_wf E s" and "heap_fresh s" and "length (reply_topic hdr) < MAX_OBJECT_NAME_LENGTH E"
    and "event_fits (mp E) body ev n k"
    and "k = 0 \<or> g_master_event_callback s = None"
    and "m = rbusMessage_FromBytes (mp E) (event_bytes (mp E) body ev n k)"
  shows "master_event_callback E hdr (event_bytes (mp E) body ev n k) s =
    Some (unlock (s\<lparr>next_ptr := Suc (next_ptr s), io := io s @
      (case event_target s (reply_topic hdr) ev of None \<Rightarrow> []
       | Some (f, d) \<Rightarrow> [App_Event f (reply_topic hdr) (Some ev) m d])\<rparr>))"
  using incoming_event_run [OF assms(1-4,6)] assms(5) by (auto simp: listed_calls_def)

end

section \<open>Subscription requests at the provider\<close>

definition subscription_method :: "bool \<Rightarrow> string" where
  "subscription_method activate =
     (if activate then METHOD_ADD_EVENT_SUBSCRIPTION else METHOD_REMOVE_EVENT_SUBSCRIPTION)"

lemma subscription_method_added:
  "strncmp MAX_METHOD_NAME_LENGTH (subscription_method activate) METHOD_ADD_EVENT_SUBSCRIPTION = 0 \<longleftrightarrow> activate"
  by (cases activate) (simp_all add: subscription_method_def METHOD_ADD_EVENT_SUBSCRIPTION_def
      METHOD_REMOVE_EVENT_SUBSCRIPTION_def MAX_METHOD_NAME_LENGTH_def strncmp_0_iff)

lemma put_put_other: "p \<noteq> q \<Longrightarrow> msg_put p a (msg_put q b (msg_put p c s)) = msg_put p a (msg_put q b s)"
  by (simp add: msg_put_def fun_eq_iff)

context rbus_runtime
begin

lemma subscription_handler_run:
  assumes wf: "registry_wf E s" and f: "reg_find s n = Some p" and a: "abs_reg s n = Some a"
    and m: "msgs s q = Some m" "read_offset m = 0"
      "sbuf m = enc_fields (mp E) (subscription_fields ev sub None) @ post"
    and q: "q < next_ptr s" and names: "cname_ok ev" "cname_ok sub"
    and res: "subscription_result E (io s) n a ev sub activate = (ret, calls, a')"
  obtains h off where
    "subscription_handler E (subscription_method activate) q (UD_Object p) s = Some (0, Some (next_ptr s),
       msg_put (next_ptr s) (rbusMessage_Init\<lparr>sbuf := enc_int32 (mp E) (error_int32 ret)\<rparr>)
         (msg_put q (m\<lparr>read_offset := off\<rparr>) (s\<lparr>next_ptr := Suc (next_ptr s), objs := h, io := io s @ calls\<rparr>)))"
    and "registry_wf E (s\<lparr>next_ptr := Suc (next_ptr s), objs := h, io := io s @ calls\<rparr>)"
    and "reg_find (s\<lparr>next_ptr := Suc (next_ptr s), objs := h, io := io s @ calls\<rparr>) = reg_find s"
    and "abs_reg (s\<lparr>next_ptr := Suc (next_ptr s), objs := h, io := io s @ calls\<rparr>) = (abs_reg s)(n \<mapsto> a')"
proof -
  let ?o = "next_ptr s" and ?M = "mp E"
  let ?f1 = "enc_field ?M (F_String ev)" and ?f2 = "enc_field ?M (F_String sub)" and ?f3 = "enc_field ?M (F_Int32 0)"
  let ?u = "msg_put ?o rbusMessage_Init (s\<lparr>next_ptr := Suc ?o\<rparr>)"
  have b: "sbuf m = ?f1 @ ?f2 @ ?f3 @ post" using m(3) by (simp add: subscription_fields_def enc_fields_def)
  have mq: "msgs ?u q = Some m" using m(1) q by simp
  obtain o1 where r1: "msg_read_string E q ?u = Some (RT_OK, Some ev, msg_put q (m\<lparr>read_offset := o1\<rparr>) ?u)"
    and o1: "o1 = length ?f1"
    using read_string_run [of ?u q m "[]" ev] mq b m(2) names by simp
  obtain o2 where r2: "msg_read_string E q (msg_put q (m\<lparr>read_offset := o1\<rparr>) ?u) =
      Some (RT_OK, Some sub, msg_put q (m\<lparr>read_offset := o2\<rparr>) ?u)" and o2: "o2 = length ?f1 + length ?f2"
    using read_string_run [of "msg_put q (m\<lparr>read_offset := o1\<rparr>) ?u" q _ "?f1" sub] b names o1 by simp
  obtain o3 where r3: "msg_read (rbusMessage_GetInt32 ?M) q (msg_put q (m\<lparr>read_offset := o2\<rparr>) ?u) =
      Some (RT_OK, Some 0, msg_put q (m\<lparr>read_offset := o3\<rparr>) ?u)"
    using read_int32_run [of "msg_put q (m\<lparr>read_offset := o2\<rparr>) ?u" q _ "?f1 @ ?f2" 0] b o2 by simp
  let ?v = "msg_put q (m\<lparr>read_offset := o3\<rparr>) ?u"
  have wfv: "registry_wf E ?v" "reg_find ?v n = Some p" "abs_reg ?v n = Some a"
    using registry_cong [of "s\<lparr>next_ptr := Suc ?o\<rparr>" s] wf f a by simp_all
  have "subscription_result E (io ?v) n a ev sub activate = (ret, calls, a')" using res by simp
  from subscription_request_result [OF wfv this]
  obtain h where h: "server_object_subscription_handler E p (Some ev) (Some sub) activate None ?v =
       Some (ret, ?v\<lparr>objs := h, io := io ?v @ calls\<rparr>)"
    "registry_wf E (?v\<lparr>objs := h, io := io ?v @ calls\<rparr>)" "reg_find (?v\<lparr>objs := h, io := io ?v @ calls\<rparr>) = reg_find ?v"
    "abs_reg (?v\<lparr>objs := h, io := io ?v @ calls\<rparr>) = (abs_reg ?v)(n \<mapsto> a')"
    by blast
  let ?w = "s\<lparr>next_ptr := Suc ?o, objs := h, io := io s @ calls\<rparr>"
  have s6: "?v\<lparr>objs := h, io := io ?v @ calls\<rparr> =
      msg_put q (m\<lparr>read_offset := o3\<rparr>) (msg_put ?o rbusMessage_Init ?w)"
    by (simp add: msg_put_def)
  have "msg_write (\<lambda>m. rbusMessage_SetInt32 ?M m (error_int32 ret)) ?o
      (msg_put q (m\<lparr>read_offset := o3\<rparr>) (msg_put ?o rbusMessage_Init ?w)) =
      Some (RT_OK, msg_put ?o (rbusMessage_Init\<lparr>sbuf := enc_int32 ?M (error_int32 ret)\<rparr>)
        (msg_put q (m\<lparr>read_offset := o3\<rparr>) ?w))"
    using msg_write_field [of "msg_put q (m\<lparr>read_offset := o3\<rparr>) (msg_put ?o rbusMessage_Init ?w)" ?o rbusMessage_Init
        "F_Int32 (error_int32 ret)"] q put_put_other [of ?o q]
    by (simp add: rbusMessage_Init_def)
  then have "subscription_handler E (subscription_method activate) q (UD_Object p) s = Some (0, Some ?o,
       msg_put ?o (rbusMessage_Init\<lparr>sbuf := enc_int32 ?M (error_int32 ret)\<rparr>) (msg_put q (m\<lparr>read_offset := o3\<rparr>) ?w))"
    using r1 r2 r3 h(1) [unfolded s6]
    by (simp add: subscription_handler_def msg_alloc_def msg_put_def [symmetric] subscription_method_added)
  moreover have "registry_wf E ?w" "reg_find ?w = reg_find s" "abs_reg ?w = (abs_reg s)(n \<mapsto> a')"
    using h(2-4) [unfolded s6] registry_cong [of "s\<lparr>next_ptr := Suc ?o\<rparr>" s] by simp_all
  ultimately show thesis using that by blast
qed

lemma dispatch_subscription:
  assumes wf: "registry_wf E s" and f: "reg_find s n = Some p" and a: "abs_reg s n = Some a"
    and m: "msgs s q = Some m" "sbuf m = method_bytes (mp E) body name" "method_fits (mp E) body name"
      "read_offset m = 0" "meta_offset m = 0"
    and am: "ao_methods a name = Some AM_Subscription"
    and h: "subscription_handler E name q (UD_Object p) (unlock s) = Some (0, r, s2)"
  shows "dispatch_method_call E q hdr p s = map_option snd (rbus_sendResponse E hdr r s2)"
proof -
  from wf f obtain ob ms where ob: "objs s p = Some ob" "abs_reg s n = Some (abs_object ob)"
    and ms: "methods ob = Some ms" "methods_wf p ms"
    by (rule reg_find_abs)
  have "a = abs_object ob" using a ob(2) by simp
  with am ms obtain meth where meth: "table_map sm_name ms name = Some meth" "sm_callback meth = Subscription_Handler"
    by (auto simp: abs_object_def abs_methods_def elim!: abs_callback.elims)
  moreover from this ms(2) have "sm_data meth = UD_Object p" by (auto simp: methods_wf_def dest!: table_map_SomeD)
  moreover have "0 < length ms" using meth by (cases ms) auto
  moreover have "m\<lparr>meta_offset := int32_of_size (read_offset m)\<rparr> = m" using m(4,5) by (simp add: int32_of_size_def)
  then have "get_message_method E q s = Some (RT_OK, Some name, s)"
    using get_message_method_run [OF m(1-3)] m(1,4) by (simp add: msg_put_def fun_upd_idem)
  moreover have "unlock (lock s) = unlock s" by (simp add: lock_def unlock_def)
  ultimately show ?thesis
    using ob(1) ms h by (simp add: dispatch_method_call_def find_method meths.size call_rpc_def)
qed

lemma subscription_message_served:
  assumes wf: "registry_wf E s" and f: "reg_find s n = Some p" and a: "abs_reg s n = Some a"
    and idle: "idle E s" and hdr: "rtMessageHeader_IsRequest E hdr"
    and am: "ao_methods a (subscription_method activate) = Some AM_Subscription"
    and bytes: "bytes = method_bytes (mp E) (enc_fields (mp E) (subscription_fields ev sub None))
      (subscription_method activate)"
    and fits: "method_fits (mp E) (enc_fields (mp E) (subscription_fields ev sub None)) (subscription_method activate)"
      "method_fits (mp E) (enc_int32 (mp E) (error_int32 ret)) METHOD_RESPONSE"
    and names: "cname_ok ev" "cname_ok sub"
    and res: "subscription_result E (io s) n a ev sub activate = (ret, calls, a')"
  obtains s' where "onMessage (Suc fuel) E hdr bytes p s = Some (Some s')"
    and "io s' = io s @ calls @ [Rt_SendBinaryResponse hdr
        (method_bytes (mp E) (enc_int32 (mp E) (error_int32 ret)) METHOD_RESPONSE) TIMEOUT_VALUE_FIRE_AND_FORGET]"
    and "registry_wf E s'" and "abs_reg s' = (abs_reg s)(n \<mapsto> a')"
    and "msgs s' = msgs s" and "\<not> g_mutex s'" and "idle E s'"
    and "server_core s' = server_core s"
proof -
  let ?q = "next_ptr s" and ?m = "rbusMessage_FromBytes (mp E) bytes"
  let ?s0 = "msg_put ?q ?m (s\<lparr>next_ptr := Suc ?q, stack_counter := 1\<rparr>)"
  let ?t = "io s @ calls" and ?r = "enc_int32 (mp E) (error_int32 ret)"
  let ?d = "Rt_SendBinaryResponse hdr (method_bytes (mp E) ?r METHOD_RESPONSE) TIMEOUT_VALUE_FIRE_AND_FORGET"
  have reg: "registry_wf E ?s0" "reg_find ?s0 = reg_find s" "abs_reg ?s0 = abs_reg s"
    using registry_cong [of "s\<lparr>next_ptr := Suc ?q, stack_counter := 1\<rparr>" s] wf by simp_all
  have m: "sbuf ?m = bytes" "read_offset ?m = 0" "meta_offset ?m = 0" "refCount ?m = 1"
    using FromBytes_sbuf by (simp_all add: rbusMessage_FromBytes_def)
  obtain h off where run: "subscription_handler E (subscription_method activate) ?q (UD_Object p) (unlock ?s0) =
      Some (0, Some (Suc ?q), msg_put (Suc ?q) (rbusMessage_Init\<lparr>sbuf := ?r\<rparr>)
       (msg_put ?q (?m\<lparr>read_offset := off\<rparr>) ((unlock ?s0)\<lparr>next_ptr := Suc (Suc ?q), objs := h, io := ?t\<rparr>)))"
    and h: "registry_wf E ((unlock ?s0)\<lparr>next_ptr := Suc (Suc ?q), objs := h, io := ?t\<rparr>)"
      "abs_reg ((unlock ?s0)\<lparr>next_ptr := Suc (Suc ?q), objs := h, io := ?t\<rparr>) = (abs_reg s)(n \<mapsto> a')"
    by (rule subscription_handler_run [of "unlock ?s0" n p a ?q ?m ev sub
          "enc_fields (mp E) [F_String (subscription_method activate)] @
            meta_trailer (length (enc_fields (mp E) (subscription_fields ev sub None)))" activate ret calls a'])
      (use reg f a m names res in \<open>auto simp: bytes method_bytes_def\<close>)
  let ?w = "msg_put ?q (?m\<lparr>read_offset := off\<rparr>) ((unlock ?s0)\<lparr>next_ptr := Suc (Suc ?q), objs := h, io := ?t @ [?d]\<rparr>)"
  have "map_option snd (rbus_sendResponse E hdr (Some (Suc ?q)) (msg_put (Suc ?q) (rbusMessage_Init\<lparr>sbuf := ?r\<rparr>)
       (msg_put ?q (?m\<lparr>read_offset := off\<rparr>) ((unlock ?s0)\<lparr>next_ptr := Suc (Suc ?q), objs := h, io := ?t\<rparr>)))) =
      Some (rbusMessage_Destroy (Suc ?q) ?w)"
    using sendResponse_given [OF hdr, of _ "Suc ?q" "rbusMessage_Init\<lparr>sbuf := ?r\<rparr>"] fits(2)
    by (simp add: rbusMessage_Init_def)
  then have disp: "dispatch_method_call E ?q hdr p ?s0 = Some (rbusMessage_Destroy (Suc ?q) ?w)"
    using dispatch_subscription [of ?s0 n p a ?q ?m _ "subscription_method activate", OF _ _ _ _ _ fits(1) _ _ am run]
      reg f a m by (simp add: bytes)
  let ?s' = "rbusMessage_Destroy ?q ((rbusMessage_Destroy (Suc ?q) ?w)\<lparr>stack_counter := 0\<rparr>)"
  have "onMessage (Suc fuel) E hdr bytes p s = Some (Some ?s')"
    using idle disp m(4) by (auto simp: idle_def intro!: onMessage_run)
  moreover have "registry_wf E ?s'" "abs_reg ?s' = (abs_reg s)(n \<mapsto> a')"
    using registry_cong [of ?s' "(unlock ?s0)\<lparr>next_ptr := Suc (Suc ?q), objs := h, io := ?t\<rparr>"] h by simp_all
  moreover have "msgs ?s' = msgs s" using idle by (auto simp: idle_def heap_fresh_def fun_eq_iff)
  moreover from this have "idle E ?s'" using idle by (simp add: idle_def heap_fresh_def)
  moreover from \<open>msgs ?s' = msgs s\<close> have "server_core ?s' = server_core s"
    using idle by (simp add: server_core_def idle_def unlock_def rbusMessage_Destroy_def msg_put_def)
  ultimately show thesis using that by simp
qed

end

text \<open>
  Subscribing again to an event that is subscribed already returns \<open>SUCCESS\<close>, sends no request,
  and keeps the first callback.
\<close>

lemma subscribe_twice_is_idempotent:
  assumes "rbus_runtime E" and "subs_wf E s" and "g_connection s \<noteq> None"
    and "g_master_event_callback s = None" and "abs_subs s (n, ev) = Some old"
    and "length n < MAX_OBJECT_NAME_LENGTH E" and "length ev < MAX_EVENT_NAME_LENGTH E"
  shows "\<exists>s'. rbus_subscribeToEventInternal E (Some n) (Some ev) (Some f) payload data timeout s =
      Some (RTMESSAGE_BUS_SUCCESS, None, s') \<and> abs_subs s' = abs_subs s \<and> subs_wf E s' \<and>
    io s' = io s @ listener_setup s \<and> msgs s' = msgs s \<and> \<not> g_mutex s' \<and>
    client_core s' = client_core s \<and> next_ptr s' = next_ptr s"
proof -
  define s2 where "s2 = (lock s)\<lparr>io := io s @ listener_setup s, g_run_event_client_dispatch := True\<rparr>"
  have s2: "(if g_run_event_client_dispatch (lock s) then lock s
      else (snd (rt_do E (Rt_AddDefaultListener Master_Event_Callback) (lock s)))\<lparr>g_run_event_client_dispatch := True\<rparr>) = s2"
    by (simp add: s2_def listener_setup_def rt_do_def)
  have wf2: "subs_wf E s2" "abs_subs s2 = abs_subs s"
    using assms(2) subs_frame [of s2 s] by (simp_all add: s2_def)
  have "add_subscription_callback E n ev f data s2 = Some None"
    using assms(5) wf2 by (intro rbus_runtime.add_subscription_exists [OF assms(1)]) simp_all
  then have "rbus_subscribeToEventInternal E (Some n) (Some ev) (Some f) payload data timeout s =
      Some (RTMESSAGE_BUS_SUCCESS, None, unlock s2)"
    using assms(3,4,6,7) s2
    by (auto simp: rbus_subscribeToEventInternal_def strnlen_ge_iff not_le Let_def s2_def)
  moreover have "client_core s2 = client_core s" by (simp add: s2_def)
  ultimately show ?thesis using wf2 by (simp add: s2_def)
qed

text \<open>Unsubscribing.\<close>

lemma unsubscribe_run:
  assumes "rbus_runtime E" and "subs_wf E s" and "heap_fresh s" and "g_connection s \<noteq> None"
    and "g_master_event_callback s = None"
    and "subscription_sendable E n ev False None (g_connection s)"
    and "req = subscription_call E n ev False None 0 (g_connection s)"
    and "rt_result E (io s) req \<noteq> RT_OK \<or> rt_reply E (io s) req = method_bytes (mp E) body name \<and>
      method_fits (mp E) body name"
  shows "\<exists>ret s'. rbus_unsubscribeFromEvent E (Some n) (Some ev) None s = Some (ret, s') \<and>
    subs_wf E s' \<and> abs_subs s' = (abs_subs s)((n, ev) := None) \<and>
    io s' = io s @ [req] \<and> msgs s' = msgs s \<and> \<not> g_mutex s' \<and>
    heap_fresh s' \<and> client_core s' = client_core s \<and> next_ptr s \<le> next_ptr s'"
proof -
  obtain s1 where rem: "map_option snd (remove_subscription_callback E n ev s) = Some s1"
    and wf: "subs_wf E s1" and abs: "abs_subs s1 = (abs_subs s)((n, ev) := None)"
    and frame: "heap_fresh s1" "g_connection s1 = g_connection s" "io s1 = io s" "msgs s1 = msgs s" "\<not> g_mutex s1"
      "client_core s1 = client_core s" "next_ptr s1 = next_ptr s"
  proof (cases "abs_subs s (n, ev)")
    case None
    then show thesis
      using rbus_runtime.remove_subscription_missing [OF assms(1,2) None] assms(2,3)
      by (intro that [of "unlock s"]) (simp_all add: fun_upd_idem heap_fresh_def)
  next
    case (Some x)
    then have some: "abs_subs s (n, ev) \<noteq> None" by simp
    obtain cs where "remove_subscription_callback E n ev s =
       Some (RTMESSAGE_BUS_SUCCESS, unlock (s\<lparr>g_event_subscriptions_for_client := Live (Some cs)\<rparr>))"
      "subs_wf E (s\<lparr>g_event_subscriptions_for_client := Live (Some cs)\<rparr>)"
      "abs_subs (s\<lparr>g_event_subscriptions_for_client := Live (Some cs)\<rparr>) = (abs_subs s)((n, ev) := None)"
      by (rule rbus_runtime.remove_subscription_found [OF assms(1,2) some])
    then show thesis
      using assms(3) by (intro that [of "unlock (s\<lparr>g_event_subscriptions_for_client := Live (Some cs)\<rparr>)"])
        (simp_all add: heap_fresh_def)
  qed
  have len: "length n < MAX_OBJECT_NAME_LENGTH E" using assms(6) by (simp add: subscription_sendable_def)
  obtain ret perr k where send: "send_subscription_request E n ev False None 0 s1 =
      Some (ret, perr, s1\<lparr>io := io s1 @ [req], next_ptr := k\<rparr>)" and k: "next_ptr s1 \<le> k"
    by (rule rbus_runtime.send_subscription_run [OF assms(1) frame(1), of n ev False None None req 0 body name])
      (use assms(4,6-8) frame in auto)
  have "subs_wf E (s1\<lparr>io := io s1 @ [req], next_ptr := k\<rparr>)"
    "abs_subs (s1\<lparr>io := io s1 @ [req], next_ptr := k\<rparr>) = (abs_subs s)((n, ev) := None)"
    using wf abs subs_frame [of "s1\<lparr>io := io s1 @ [req], next_ptr := k\<rparr>" s1] by simp_all
  moreover have "heap_fresh (s1\<lparr>io := io s1 @ [req], next_ptr := k\<rparr>)" using frame(1) k by (simp add: heap_fresh_def)
  ultimately show ?thesis
    using len assms(5) rem send frame k
    by (auto simp: rbus_unsubscribeFromEvent_def strnlen_ge_iff not_le Let_def)
qed

text \<open>With a master handler installed, the table is left alone: a subscription only sends its request.\<close>

lemma subscribe_mastered:
  assumes "rbus_runtime E" and fresh: "heap_fresh s" and c: "g_connection s \<noteq> None"
    and master: "g_master_event_callback s = Some g"
    and ok: "subscription_sendable E n ev True None (g_connection s)" and len: "length ev < MAX_EVENT_NAME_LENGTH E"
    and req: "req = subscription_call E n ev True None timeout (g_connection s)"
    and tr: "tr = io s @ listener_setup s"
    and ans: "rt_result E tr req \<noteq> RT_OK \<or> rt_reply E tr req = method_bytes (mp E) body name \<and>
      method_fits (mp E) body name"
  shows "\<exists>ret perr k. rbus_subscribeToEventInternal E (Some n) (Some ev) (Some f) None data timeout s = Some (ret, perr,
      unlock (s\<lparr>io := tr @ [req], g_run_event_client_dispatch := True, next_ptr := k\<rparr>)) \<and> next_ptr s \<le> k \<and>
    (rt_result E tr req \<noteq> RT_OK \<longrightarrow> ret \<noteq> RTMESSAGE_BUS_SUCCESS)"
proof -
  have lenn: "length n < MAX_OBJECT_NAME_LENGTH E" using ok by (simp add: subscription_sendable_def)
  define s2 where "s2 = (lock s)\<lparr>io := tr, g_run_event_client_dispatch := True\<rparr>"
  have s2: "(if g_run_event_client_dispatch (lock s) then lock s
      else (snd (rt_do E (Rt_AddDefaultListener Master_Event_Callback) (lock s)))\<lparr>g_run_event_client_dispatch := True\<rparr>) = s2"
    by (simp add: s2_def tr listener_setup_def rt_do_def)
  have f2: "heap_fresh (unlock s2)" "g_connection (unlock s2) = g_connection s" "io (unlock s2) = tr"
      "next_ptr (unlock s2) = next_ptr s" "g_master_event_callback s2 = Some g"
    using fresh master by (simp_all add: s2_def heap_fresh_def)
  obtain ret perr k where send: "send_subscription_request E n ev True None timeout (unlock s2) =
      Some (ret, perr, (unlock s2)\<lparr>io := tr @ [req], next_ptr := k\<rparr>)" and k: "next_ptr s \<le> k"
    and err: "rt_result E tr req \<noteq> RT_OK \<Longrightarrow> ret \<noteq> RTMESSAGE_BUS_SUCCESS"
    by (rule rbus_runtime.send_subscription_run [OF assms(1) f2(1), of n ev True None None req timeout body name 0 "[]"])
      (use c ok req ans f2 in auto)
  have "rbus_subscribeToEventInternal E (Some n) (Some ev) (Some f) None data timeout s =
      Some (ret, perr, (unlock s2)\<lparr>io := tr @ [req], next_ptr := k\<rparr>)"
    using c lenn len s2 send f2(5)
    by (auto simp: rbus_subscribeToEventInternal_def strnlen_ge_iff not_le Let_def)
  moreover have "(unlock s2)\<lparr>io := tr @ [req], next_ptr := k\<rparr> =
      unlock (s\<lparr>io := tr @ [req], g_run_event_client_dispatch := True, next_ptr := k\<rparr>)"
    by (simp add: s2_def lock_def unlock_def)
  ultimately show ?thesis using k err by auto
qed

lemma unsubscribe_mastered:
  assumes "rbus_runtime E" and fresh: "heap_fresh s" and c: "g_connection s \<noteq> None"
    and master: "g_master_event_callback s = Some g"
    and ok: "subscription_sendable E n ev False None (g_connection s)"
    and req: "req = subscription_call E n ev False None 0 (g_connection s)"
    and ans: "rt_result E (io s) req \<noteq> RT_OK \<or> rt_reply E (io s) req = method_bytes (mp E) body name \<and>
      method_fits (mp E) body name"
  shows "\<exists>ret k. rbus_unsubscribeFromEvent E (Some n) (Some ev) None s =
      Some (ret, s\<lparr>io := io s @ [req], next_ptr := k\<rparr>) \<and> next_ptr s \<le> k"
proof -
  have len: "length n < MAX_OBJECT_NAME_LENGTH E" using ok by (simp add: subscription_sendable_def)
  obtain ret perr k where "send_subscription_request E n ev False None 0 s =
      Some (ret, perr, s\<lparr>io := io s @ [req], next_ptr := k\<rparr>)" "next_ptr s \<le> k"
    by (rule rbus_runtime.send_subscription_run [OF assms(1) fresh c, of n ev False None None req 0 body name 0 "[]"])
      (use ok req ans in auto)
  then show ?thesis
    using len master by (auto simp: rbus_unsubscribeFromEvent_def strnlen_ge_iff not_le Let_def)
qed

section \<open>Properties\<close>

text \<open>
  C9. A subscription is all or nothing.  For an event that is not subscribed yet one request goes to the
  provider (after the installation of the event listener, if it is the first
  subscription).  If the call succeeds, the table is the old one with the callback added; if not, it is
  the old table.  The code is \<open>SUCCESS\<close> when the provider answers 0, a general error when it answers
  something else, and never \<open>SUCCESS\<close> when the router fails.  The request and the answer are
  freed and the mutex is free.
\<close>

theorem subscribe_all_or_nothing:
  assumes "rbus_runtime E" and "subs_wf E s" and "heap_fresh s" and "g_connection s \<noteq> None"
    and "g_master_event_callback s = None" and "abs_subs s (n, ev) = None"
    and "length ev < MAX_EVENT_NAME_LENGTH E"
    and "subscription_sendable E n ev True (map_option sbuf item) (g_connection s)"
    and "payload = None \<and> item = None \<or> (\<exists>q m. payload = Some q \<and> item = Some m \<and> msgs s q = Some m)"
    and "req = subscription_call E n ev True (map_option sbuf item) timeout (g_connection s)"
    and "tr = io s @ listener_setup s"
    and "rt_result E tr req \<noteq> RT_OK \<or> rt_reply E tr req = method_bytes (mp E) body name \<and>
      method_fits (mp E) body name"
  shows "\<exists>ret perr s'.
    rbus_subscribeToEventInternal E (Some n) (Some ev) (Some f) payload data timeout s = Some (ret, perr, s') \<and>
    subs_wf E s' \<and>
    abs_subs s' = (if ret = RTMESSAGE_BUS_SUCCESS then (abs_subs s)((n, ev) \<mapsto> (f, data)) else abs_subs s) \<and>
    (rt_result E tr req = RT_OK \<and> name = METHOD_RESPONSE \<and> body = enc_int32 (mp E) w @ rest \<longrightarrow>
      ret = (if w = 0 then RTMESSAGE_BUS_SUCCESS else RTMESSAGE_BUS_ERROR_GENERAL)) \<and>
    (rt_result E tr req \<noteq> RT_OK \<longrightarrow> ret \<noteq> RTMESSAGE_BUS_SUCCESS) \<and>
    io s' = tr @ [req] \<and> msgs s' = msgs s \<and> \<not> g_mutex s'"
  by (rule rbus_runtime.subscribe_run [OF assms, of f data w rest]) blast

text \<open>
  C10. Unsubscribing drops the event from the table, whatever the provider answers, keeps every other
  subscription, sends one request with the payload flag 0 and leaves the messages as they were.
\<close>

theorem unsubscribe_drops_event:
  assumes "rbus_runtime E" and "subs_wf E s" and "heap_fresh s" and "g_connection s \<noteq> None"
    and "g_master_event_callback s = None"
    and "subscription_sendable E n ev False None (g_connection s)"
    and "req = subscription_call E n ev False None 0 (g_connection s)"
    and "rt_result E (io s) req \<noteq> RT_OK \<or> rt_reply E (io s) req = method_bytes (mp E) body name \<and>
      method_fits (mp E) body name"
  shows "\<exists>ret s'. rbus_unsubscribeFromEvent E (Some n) (Some ev) None s = Some (ret, s') \<and>
    subs_wf E s' \<and> abs_subs s' = (abs_subs s)((n, ev) := None) \<and>
    io s' = io s @ [req] \<and> msgs s' = msgs s \<and> \<not> g_mutex s'"
  using unsubscribe_run [OF assms] by blast

text \<open>
  A \<open>NULL\<close> event name is not refused: with an object name and a callback the call reaches
  \<open>strnlen\<close> with a null pointer.
\<close>

lemma null_event_name_is_dereferenced:
  assumes "g_connection s \<noteq> None" and "length n < MAX_OBJECT_NAME_LENGTH E"
  shows "rbus_subscribeToEvent E (Some n) None (Some f) payload data s = None"
  using assms by (simp add: rbus_subscribeToEvent_def rbus_subscribeToEventInternal_def strnlen_ge_iff not_le)

text \<open>
  C6. A subscription, end to end.  The client sends one request to the object; the provider that gets its
  bytes adds the client's address to the listeners of the event (and changes nothing else
  of its registry) and answers; the client that gets the bytes of the answer returns \<open>SUCCESS\<close> and
  has its callback in its table.
\<close>

theorem subscription_end_to_end:
  fixes Ec Ep :: runtime
  assumes "rbus_runtime Ec" and "rbus_runtime Ep" and "mp Ec = M" and "mp Ep = M"
    \<comment> \<open>the client\<close>
    and "subs_wf Ec cs" and "heap_fresh cs" and "g_connection cs \<noteq> None"
    and "g_master_event_callback cs = None" and "abs_subs cs (n, ev) = None"
    and "length ev < MAX_EVENT_NAME_LENGTH Ec"
    and "subscription_sendable Ec n ev True None (g_connection cs)"
    and "sub = sender_address Ec (g_connection cs)"
    and "req = subscription_call Ec n ev True None timeout (g_connection cs)"
    and "tr = io cs @ listener_setup cs"
    \<comment> \<open>the provider\<close>
    and "registry_wf Ep s" and "idle Ep s" and "reg_find s n = Some p" and "abs_reg s n = Some a"
    and "rtMessageHeader_IsRequest Ep hdr"
    and "ao_methods a METHOD_ADD_EVENT_SUBSCRIPTION = Some AM_Subscription"
    and "ao_events a ev = Some ae" and "ao_override a = None"
    and "length sub < MAX_SUBSCRIBER_NAME_LENGTH Ep" and "length ev < MAX_EVENT_NAME_LENGTH Ep"
    and "method_fits M (enc_int32 M 0) METHOD_RESPONSE"
  shows "\<exists>bytes t s' b. req = Rt_SendBinaryRequest bytes n t \<and>
    onMessage (Suc fuel) Ep hdr bytes p s = Some (Some s') \<and>
    abs_reg s' = (abs_reg s)(n \<mapsto> a\<lparr>ao_events := (ao_events a)(ev \<mapsto>
      ae\<lparr>ae_listeners := listener_update True sub (ae_listeners ae)\<rparr>)\<rparr>) \<and> registry_wf Ep s' \<and>
    io s' = io s @ listener_calls n ev True sub ae @ [Rt_SendBinaryResponse hdr b 1000] \<and>
    b = method_bytes M (enc_int32 M 0) METHOD_RESPONSE \<and>
    (rt_result Ec tr req = RT_OK \<and> rt_reply Ec tr req = b \<longrightarrow>
      (\<exists>perr cs'. rbus_subscribeToEventInternal Ec (Some n) (Some ev) (Some f) None data timeout cs =
          Some (RTMESSAGE_BUS_SUCCESS, perr, cs') \<and>
        abs_subs cs' = (abs_subs cs)((n, ev) \<mapsto> (f, data)) \<and> io cs' = tr @ [req]))"
proof -
  note Ec = assms(1) and Ep = assms(2) and M = assms(3,4)
  let ?b = "method_bytes M (enc_int32 M 0) METHOD_RESPONSE"
  let ?bytes = "method_bytes M (enc_fields M (subscription_fields ev sub None)) (subscription_method True)"
  have send: "cname_ok ev" "cname_ok sub"
    "method_fits M (enc_fields M (subscription_fields ev sub None)) (subscription_method True)"
    using assms(11,12) M by (simp_all add: subscription_sendable_def subscription_fields_def subscription_method_def cname_ok_def)
  have "req = Rt_SendBinaryRequest ?bytes n (if timeout \<le> 0 then TIMEOUT_VALUE_FIRE_AND_FORGET else timeout)"
    using assms(12,13) M by (simp add: subscription_call_def subscription_method_def)
  moreover obtain s' where "onMessage (Suc fuel) Ep hdr ?bytes p s = Some (Some s')"
    "io s' = io s @ [] @ listener_calls n ev True sub ae @ [Rt_SendBinaryResponse hdr ?b TIMEOUT_VALUE_FIRE_AND_FORGET]"
    "registry_wf Ep s'" "abs_reg s' = (abs_reg s)(n \<mapsto> a\<lparr>ao_events := (ao_events a)(ev \<mapsto>
       ae\<lparr>ae_listeners := listener_update True sub (ae_listeners ae)\<rparr>)\<rparr>)"
    by (rule rbus_runtime.subscription_message_served [OF Ep assms(15,17,18,16,19), of True ?bytes ev sub
          RTMESSAGE_BUS_SUCCESS "listener_calls n ev True sub ae" _ fuel])
      (use assms(20-25) send M in \<open>auto simp: subscription_method_def override_calls_def declined_def
        subscription_result_def error_int32_def\<close>)
  moreover have "\<exists>perr cs'. rbus_subscribeToEventInternal Ec (Some n) (Some ev) (Some f) None data timeout cs =
          Some (RTMESSAGE_BUS_SUCCESS, perr, cs') \<and>
        abs_subs cs' = (abs_subs cs)((n, ev) \<mapsto> (f, data)) \<and> io cs' = tr @ [req]"
    if "rt_result Ec tr req = RT_OK" "rt_reply Ec tr req = ?b"
    by (rule rbus_runtime.subscribe_run [OF Ec assms(5-10), of None None req timeout tr "enc_int32 M 0"
          METHOD_RESPONSE f data 0 "[]"])
      (use that assms(11,13,14,25) M in auto)
  ultimately show ?thesis
    by (intro exI [of _ ?bytes] exI [of _ ?b] exI [of _ s'] exI
        [of _ "if timeout \<le> 0 then TIMEOUT_VALUE_FIRE_AND_FORGET else timeout"])
      (simp add: TIMEOUT_VALUE_FIRE_AND_FORGET_def)
qed

text \<open>
  C5. An event, end to end.  What \<open>rbus_publishEvent\<close> sends to a listener makes the client's
  dispatcher call the callback subscribed for that object and event, once, with the event's
  name and with a message from which the payload fields are read exactly; the client's table and
  messages are unchanged and its mutex is free.
\<close>

theorem event_delivery:
  fixes Ec Ep :: runtime
  assumes "rbus_runtime Ec" and "rbus_runtime Ep" and "mp Ec = M" and "mp Ep = M"
    \<comment> \<open>the provider\<close>
    and "registry_wf Ep s" and "g_connection s \<noteq> None" and "abs_reg s n = Some a" and "ao_events a ev = Some ae"
    and "msgs s out = Some m" and "pk m" and "sbuf m = enc_fields M fs" and "\<forall>f\<in>set fs. field_ok f"
    and "event_fits M (enc_fields M fs) ev n 0"
    \<comment> \<open>the client\<close>
    and "subs_wf Ec cs" and "heap_fresh cs" and "abs_subs cs (n, ev) = Some (f, d)"
    and "n = ev \<or> abs_subs cs (ev, ev) = None"
    and "reply_topic hdr = n" and "length n < MAX_OBJECT_NAME_LENGTH Ec"
    and "b = event_bytes M (enc_fields M fs) ev n 0"
  shows "\<exists>s' cs' mi. rbus_publishEvent Ep n (Some ev) out s = Some (RTMESSAGE_BUS_SUCCESS, s') \<and>
    io s' = io s @ map (\<lambda>l. Rt_SendBinaryDirect b l n) (ae_listeners ae) \<and>
    master_event_callback Ec hdr b cs = Some cs' \<and>
    io cs' = io cs @ [App_Event f n (Some ev) mi d] \<and> get_fields M mi fs = Some fs \<and>
    abs_subs cs' = abs_subs cs \<and> msgs cs' = msgs cs \<and> \<not> g_mutex cs'"
proof -
  note Ec = assms(1) and Ep = assms(2) and M = assms(3,4)
  let ?b = "event_bytes M (enc_fields M fs) ev n 0"
  let ?mi = "rbusMessage_FromBytes M ?b"
  have api: "msgpack_api M" using Ec M by (auto simp: rbus_runtime_def)
  have fits: "cname_ok ev" "cname_ok n" "length (sbuf m) < 2 ^ 31 - 2 ^ 15" "length ?b < 2 ^ 32"
    using assms(11,13) by (simp_all add: event_fits_def)
  let ?m = "m\<lparr>meta_offset := int32_of_size (length (sbuf m)), sbuf := ?b\<rparr>"
  have bytes: "message_bytes ?m = ?b" using fits(4) by (subst message_bytes_small) simp_all
  have pub: "rbus_publishEvent Ep n (Some ev) out s = Some (RTMESSAGE_BUS_SUCCESS,
    unlock ((msg_put out ?m s)\<lparr>io := io s @
      map (\<lambda>l. Rt_SendBinaryDirect ?b l n) (ae_listeners ae)\<rparr>))"
    using rbus_runtime.publishEvent_run [OF Ep assms(5,6,9,10) fits(3) assms(7,8) fits(1,2)] bytes M assms(11)
    by (simp add: event_bytes_def)
  have target: "event_target cs n ev = Some (f, d)"
    by (rule event_target_subscribed [OF assms(14,16,17)])
  have run: "master_event_callback Ec hdr ?b cs =
    Some (unlock (cs\<lparr>next_ptr := Suc (next_ptr cs), io := io cs @ [App_Event f n (Some ev) ?mi d]\<rparr>))"
    using rbus_runtime.master_event_run [OF Ec assms(14,15), of hdr "enc_fields M fs" ev n 0 ?mi] assms(13,18,19) M target
    by simp
  have "get_fields M ?mi fs = Some fs"
    using assms(12) msgpack_api.FromBytes_sbuf [OF api]
    by (intro msgpack_api.get_fields_reads [OF api, where pre = "[]"
        and post = "enc_fields M (event_fields ev n 0) @ meta_trailer (length (enc_fields M fs))"])
      (simp_all add: event_bytes_def rbusMessage_FromBytes_def)
  then show ?thesis
    using pub run subs_frame [of "cs\<lparr>next_ptr := Suc (next_ptr cs), io := io cs @ [App_Event f n (Some ev) ?mi d]\<rparr>" cs]
    by (simp add: assms(20))
qed

text \<open>
  A provider that answers 0 to every request, a client with one subscription, and a provider of the
  event \<open>e\<close> with its subscription methods.
\<close>

definition accept_world :: world where
  "accept_world = calm_world\<lparr>w_reply := (\<lambda>_ _. method_bytes messagepack (enc_int32 messagepack 0) METHOD_RESPONSE)\<rparr>"

definition subscribed_state :: rbus_state where
  "subscribed_state = ready_state\<lparr>g_run_event_client_dispatch := True, g_event_subscriptions_for_client :=
     Live (Some [\<lparr>cs_object = ''obj'', events = Some [\<lparr>ce_name = ''e'', ce_callback = 4, ce_data = UD_App 8\<rparr>]\<rparr>])\<rparr>"

definition event_provider_object :: server_object where
  "event_provider_object = (provider_object None)\<lparr>methods := Some
     [\<lparr>sm_name = METHOD_ADD_EVENT_SUBSCRIPTION, sm_callback = Subscription_Handler, sm_data = UD_Object 1\<rparr>]\<rparr>"

definition event_provider_state :: rbus_state where
  "event_provider_state = (provider_state None)\<lparr>objs := [1 \<mapsto> event_provider_object],
     msgs := [5 \<mapsto> rbusMessage_Init\<lparr>sbuf := enc_fields messagepack [F_Int32 7]\<rparr>]\<rparr>"

lemma accept_facts:
  "rt_result (std_runtime accept_world) t c = RT_OK"
  "rt_reply (std_runtime accept_world) t c = method_bytes messagepack (enc_int32 messagepack 0) METHOD_RESPONSE"
  "method_fits messagepack (enc_int32 messagepack 0) METHOD_RESPONSE"
  by (simp_all add: std_runtime_def accept_world_def calm_world_def method_fits_def method_bytes_def
      enc_fields_def cname_ok_def no_nul_def char_of_0 mp_str_def mp_int_def METHOD_RESPONSE_def)

lemma subscriber_facts:
  "subs_wf (std_runtime w) ready_state" "heap_fresh ready_state" "g_connection ready_state \<noteq> None"
  "g_master_event_callback ready_state = None" "abs_subs ready_state k = None" "io ready_state = []"
  "subs_wf (std_runtime w) subscribed_state" "heap_fresh subscribed_state" "g_connection subscribed_state \<noteq> None"
  "g_master_event_callback subscribed_state = None" "io subscribed_state = []"
  "abs_subs subscribed_state (''obj'', ''e'') = Some (4, UD_App 8)" "abs_subs subscribed_state (''e'', ''e'') = None"
  by (simp_all add: subs_wf_def subscription_wf_def subscribed_state_def ready_state_def initial_state_def
      table_wf_def heap_fresh_def abs_subs_def subs_list_def event_of_def table_map_def)

lemma listener_setup_subscribed: "listener_setup subscribed_state = []"
  by (simp add: listener_setup_def subscribed_state_def)

lemma subscribe_call_facts:
  "subscription_sendable (std_runtime w) ''obj'' ''e'' activate None (g_connection ready_state)"
  "subscription_sendable (std_runtime w) ''obj'' ''e'' activate None (g_connection subscribed_state)"
  "sender_address (std_runtime w) (g_connection ready_state) = ''inbox''"
  by (simp_all add: subscription_sendable_def subscribed_state_def ready_state_def initial_state_def
      sender_address_def std_runtime_def subscription_fields_def method_fits_def method_bytes_def
      enc_fields_def cname_ok_def no_nul_def char_of_0 mp_str_def mp_int_def METHOD_ADD_EVENT_SUBSCRIPTION_def
      METHOD_REMOVE_EVENT_SUBSCRIPTION_def)

theorem subscribe_all_or_nothing_witness:
  "\<exists>ret perr s'. rbus_subscribeToEventInternal (std_runtime accept_world) (Some ''obj'') (Some ''e'') (Some 4)
      None (UD_App 8) 0 ready_state = Some (ret, perr, s') \<and> ret = RTMESSAGE_BUS_SUCCESS \<and>
    abs_subs s' (''obj'', ''e'') = Some (4, UD_App 8) \<and> length (io s') = 2"
proof -
  have "length ''e'' < MAX_EVENT_NAME_LENGTH (std_runtime accept_world)" by simp
  from subscribe_all_or_nothing [OF std_rbus_runtime [of accept_world] subscriber_facts(1-4) subscriber_facts(5) this,
      of "''obj''" None None _ 0 _ "enc_int32 messagepack 0" METHOD_RESPONSE 4 "UD_App 8" 0 "[]", simplified,
      OF subscribe_call_facts(1) refl refl] accept_facts
  show ?thesis by (auto simp: subscriber_facts listener_setup_def ready_state_def initial_state_def)
qed

lemma subscribe_twice_is_idempotent_witness:
  "\<exists>s'. rbus_subscribeToEventInternal (std_runtime calm_world) (Some ''obj'') (Some ''e'') (Some 5)
      None UD_NULL 0 subscribed_state = Some (RTMESSAGE_BUS_SUCCESS, None, s') \<and>
    abs_subs s' (''obj'', ''e'') = Some (4, UD_App 8) \<and> io s' = []"
  using subscribe_twice_is_idempotent [OF std_rbus_runtime [of calm_world] subscriber_facts(7,9,10,12),
      of 5 None UD_NULL 0]
  by (auto simp: subscriber_facts listener_setup_subscribed)

theorem unsubscribe_drops_event_witness:
  "\<exists>ret s'. rbus_unsubscribeFromEvent (std_runtime accept_world) (Some ''obj'') (Some ''e'') None subscribed_state =
      Some (ret, s') \<and> abs_subs s' (''obj'', ''e'') = None \<and> length (io s') = 1"
  using unsubscribe_drops_event [OF std_rbus_runtime [of accept_world] subscriber_facts(7-10)
      subscribe_call_facts(2) refl, of "enc_int32 messagepack 0" METHOD_RESPONSE]
    accept_facts by (auto simp: subscriber_facts)

lemma null_event_name_is_dereferenced_witness:
  "rbus_subscribeToEvent (std_runtime calm_world) (Some ''obj'') None (Some 4) None UD_NULL ready_state = None"
  by (rule null_event_name_is_dereferenced [OF subscriber_facts(3)]) simp

lemma event_provider_facts:
  "registry_wf (std_runtime w) event_provider_state" "idle (std_runtime w) event_provider_state"
  "reg_find event_provider_state ''obj'' = Some 1" "g_connection event_provider_state \<noteq> None"
  "abs_reg event_provider_state ''obj'' = Some (abs_object event_provider_object)" "io event_provider_state = []"
  "ao_methods (abs_object event_provider_object) METHOD_ADD_EVENT_SUBSCRIPTION = Some AM_Subscription"
  "ao_events (abs_object event_provider_object) ''e'' =
     Some \<lparr>ae_listeners = [''inbox1''], ae_callback = Some 7, ae_data = UD_NULL\<rparr>"
  "ao_override (abs_object event_provider_object) = None"
  "msgs event_provider_state 5 = Some (rbusMessage_Init\<lparr>sbuf := enc_fields messagepack [F_Int32 7]\<rparr>)"
  by (auto simp: registry_wf_def event_provider_state_def event_provider_object_def provider_state_def
      provider_object_def ready_state_def initial_state_def table_wf_def obj_name_def object_wf_def methods_wf_def
      events_wf_def abs_reg_def reg_find_def objects_of_def table_map_def idle_def heap_fresh_def list_vector_def
      abs_object_def abs_methods_def abs_events_def abs_server_event_def MAX_METHOD_NAME_LENGTH_def
      MAX_SUPPORTED_METHODS_def METHOD_ADD_EVENT_SUBSCRIPTION_def)

theorem subscription_end_to_end_witness:
  "\<exists>s' bytes perr cs'. onMessage 1 (std_runtime accept_world) \<lparr>topic = ''obj'', reply_topic = ''r'', flags = 1\<rparr>
      bytes 1 event_provider_state = Some (Some s') \<and>
    io s' = [App_Subscribe 7 ''obj'' ''e'' ''inbox'' True None UD_NULL, Rt_SendBinaryResponse
      \<lparr>topic = ''obj'', reply_topic = ''r'', flags = 1\<rparr>
      (method_bytes messagepack (enc_int32 messagepack 0) METHOD_RESPONSE) 1000] \<and>
    rbus_subscribeToEventInternal (std_runtime accept_world) (Some ''obj'') (Some ''e'') (Some 4) None
      (UD_App 8) 0 ready_state = Some (RTMESSAGE_BUS_SUCCESS, perr, cs') \<and>
    abs_subs cs' (''obj'', ''e'') = Some (4, UD_App 8)"
proof -
  let ?E = "std_runtime accept_world" and ?hdr = "\<lparr>topic = ''obj'', reply_topic = ''r'', flags = 1\<rparr>"
  have l: "length ''e'' < MAX_EVENT_NAME_LENGTH ?E" "mp ?E = messagepack" "rtMessageHeader_IsRequest ?E ?hdr"
    "length (sender_address ?E (g_connection ready_state)) < MAX_SUBSCRIBER_NAME_LENGTH ?E"
    using subscribe_call_facts(3) by (simp_all add: std_runtime_def)
  show ?thesis
    using subscription_end_to_end [OF std_rbus_runtime [of accept_world] std_rbus_runtime [of accept_world] l(2,2)
        subscriber_facts(1-4) subscriber_facts(5) l(1) subscribe_call_facts(1) refl refl refl
        event_provider_facts(1-3,5) l(3) event_provider_facts(7-9) l(4,1) accept_facts(3), of 0 0 4 "UD_App 8"]
      accept_facts(1,2)
    by (auto simp: event_provider_facts(6) subscribe_call_facts(3) listener_calls_def)
qed

theorem event_delivery_witness:
  "\<exists>b s' cs' mi. rbus_publishEvent (std_runtime calm_world) ''obj'' (Some ''e'') 5 event_provider_state =
      Some (RTMESSAGE_BUS_SUCCESS, s') \<and> io s' = [Rt_SendBinaryDirect b ''inbox1'' ''obj''] \<and>
    master_event_callback (std_runtime calm_world) \<lparr>topic = ''inbox1'', reply_topic = ''obj'', flags = 0\<rparr> b
      subscribed_state = Some cs' \<and>
    io cs' = [App_Event 4 ''obj'' (Some ''e'') mi (UD_App 8)] \<and>
    get_fields messagepack mi [F_Int32 7] = Some [F_Int32 7]"
proof -
  let ?E = "std_runtime calm_world" and ?hdr = "\<lparr>topic = ''inbox1'', reply_topic = ''obj'', flags = 0\<rparr>"
  have m: "pk (rbusMessage_Init\<lparr>sbuf := x\<rparr>)" "sbuf (rbusMessage_Init\<lparr>sbuf := x\<rparr>) = x" for x
    by (simp_all add: rbusMessage_Init_def)
  have fits: "event_fits messagepack (enc_fields messagepack [F_Int32 7]) ''e'' ''obj'' 0"
    by (simp add: event_fits_def event_bytes_def event_fields_def enc_fields_def cname_ok_def no_nul_def char_of_0
        mp_int_def mp_str_def)
  have l: "mp ?E = messagepack" "length ''obj'' < MAX_OBJECT_NAME_LENGTH ?E" "\<forall>f\<in>set [F_Int32 7]. field_ok f"
    "reply_topic ?hdr = ''obj''" "''obj'' = ''e'' \<or> abs_subs subscribed_state (''e'', ''e'') = None"
    by (simp_all add: subscriber_facts)
  show ?thesis
    using event_delivery [OF std_rbus_runtime [of calm_world] std_rbus_runtime [of calm_world] l(1,1)
        event_provider_facts(1,4,5,8,10) m l(3) fits subscriber_facts(7,8,12) l(5,4,2) refl]
    by (auto simp: event_provider_facts(6) subscriber_facts)
qed

end
