(* ===== verification/Rbus_Connection.thy ===== *)
theory Rbus_Connection
  imports Rbus_Client
begin

text \<open>
  The life cycle of the connection in \<open>rbus-core/lib/rbus_core.c\<close>: where the router's address
  comes from, opening and closing, and the handler for disconnected clients.
\<close>

section \<open>The router's address\<close>

definition MAX_DAEMON_ADDRESS_LEN :: nat where "MAX_DAEMON_ADDRESS_LEN = 256"

definition isspace :: "char \<Rightarrow> bool" where
  "isspace c \<longleftrightarrow> c \<in> {CHR '' '', CHR 0x09, CHR 0x0A, CHR 0x0B, CHR 0x0C, CHR 0x0D}"

text \<open>
  \<open>fgets(buff, n, f)\<close>: at most \<open>n - 1\<close> characters, up to and including a newline; \<open>None\<close>
  at the end of the file.  The result is the line and what is left of the file.
\<close>

fun fgets_line :: "nat \<Rightarrow> string \<Rightarrow> string \<times> string" where
  "fgets_line 0 cs = ([], cs)"
| "fgets_line (Suc n) [] = ([], [])"
| "fgets_line (Suc n) (c # cs) =
     (if c = CHR 0x0A then ([c], cs)
      else case fgets_line n cs of (l, rest) \<Rightarrow> (c # l, rest))"

definition fgets :: "nat \<Rightarrow> string \<Rightarrow> (string \<times> string) option" where
  "fgets n cs = (if cs = [] then None else Some (fgets_line (n - 1) cs))"

text \<open>\<open>while(idx < len && isspace(buff[idx]) = b) idx++;\<close>\<close>

function scan_while :: "bool \<Rightarrow> string \<Rightarrow> nat \<Rightarrow> nat \<Rightarrow> nat" where
  "scan_while b buff idx len =
     (if idx < len \<and> isspace (buff ! idx) = b then scan_while b buff (Suc idx) len else idx)"
  by pat_completeness auto
termination
  by (relation "measure (\<lambda>(b, buff, idx, len). len - idx)") auto

declare scan_while.simps [simp del]

text \<open>The first word of a line, if it has one.\<close>

definition line_word :: "string \<Rightarrow> string option" where
  "line_word buff =
     (let len = length (takeWhile (\<lambda>c. c \<noteq> char_of (0 :: nat)) buff);
          idx1 = scan_while True buff 0 len
      in if len > 0 \<and> idx1 < len
         then let idx2 = scan_while False buff (idx1 + 1) len
           in if idx2 - idx1 > 0 then Some (take (idx2 - idx1) (drop idx1 buff)) else None
         else None)"

lemma fgets_line_le: "length (snd (fgets_line n cs)) \<le> length cs"
  by (induction n cs rule: fgets_line.induct) (auto split: prod.splits)

lemma fgets_shorter:
  assumes "1 < n" and "fgets n cs = Some (l, rest)"
  shows "length rest < length cs"
proof -
  obtain m c cs' where n: "n - 1 = Suc m" and cs: "cs = c # cs'"
    using assms by (cases "n - 1"; cases cs) (auto simp: fgets_def)
  have "length (snd (fgets_line (Suc m) (c # cs'))) < Suc (length cs')"
    using fgets_line_le [of m cs'] by (auto split: prod.splits)
  then show ?thesis using assms(2) n cs by (simp add: fgets_def)
qed

function configure_loop :: "string \<Rightarrow> string \<Rightarrow> string" where
  "configure_loop address conf =
     (case fgets MAX_DAEMON_ADDRESS_LEN conf of
        None \<Rightarrow> address
      | Some (buff, rest) \<Rightarrow>
          (case line_word buff of Some w \<Rightarrow> w | None \<Rightarrow> configure_loop address rest))"
  by pat_completeness auto
termination
proof (relation "measure (\<lambda>(address, conf). length conf)")
  fix address conf x buff rest
  assume "fgets MAX_DAEMON_ADDRESS_LEN conf = Some x" and "(buff, rest) = x"
  then show "((address, rest), address, conf) \<in> measure (\<lambda>(address, conf). length conf)"
    using fgets_shorter [of MAX_DAEMON_ADDRESS_LEN conf buff rest]
    by (simp add: MAX_DAEMON_ADDRESS_LEN_def)
qed simp

declare configure_loop.simps [simp del]

definition configure_router_address :: "runtime \<Rightarrow> rbus_state \<Rightarrow> rbus_state" where
  "configure_router_address E s =
     (case rbus_client_conf E of
        None \<Rightarrow> s
      | Some file \<Rightarrow> s\<lparr>g_daemon_address := configure_loop (g_daemon_address s) file\<rparr>)"

section \<open>Initialisation and clean-up\<close>

definition perform_init :: "runtime \<Rightarrow> rbus_state \<Rightarrow> rbus_state" where
  "perform_init E s =
     s\<lparr>g_server_objects := Live (rtVector_Create (objs_v E)),
       g_event_subscriptions_for_client := Live (rtVector_Create (csubs_v E))\<rparr>"

fun cancel_events ::
    "runtime \<Rightarrow> string \<Rightarrow> client_event rtVector \<Rightarrow> nat list \<Rightarrow> rbus_state \<Rightarrow> rbus_state option" where
  "cancel_events E object v [] s = Some s"
| "cancel_events E object v (i # is) s = do {
     evt \<leftarrow> rtVector_At (cevts_v E) v i;
     (_, _, s') \<leftarrow> send_subscription_request E object (ce_name evt) False None 0 s;
     cancel_events E object v is s'
   }"

fun cancel_subscriptions ::
    "runtime \<Rightarrow> client_subscription rtVector \<Rightarrow> nat list \<Rightarrow> rbus_state \<Rightarrow> rbus_state option" where
  "cancel_subscriptions E v [] s = Some s"
| "cancel_subscriptions E v (i # is) s = do {
     sub \<leftarrow> rtVector_At (csubs_v E) v i;
     s' \<leftarrow> cancel_events E (cs_object sub) (events sub)
             [0..<rtVector_Size (cevts_v E) (events sub)] s;
     cancel_subscriptions E v is s'
   }"

text \<open>\<open>rtVector_Destroy(v, cleanup)\<close> on the registry: every object is freed.\<close>

fun destroy_objects :: "runtime \<Rightarrow> ptr rtVector \<Rightarrow> nat list \<Rightarrow> rbus_state \<Rightarrow> rbus_state" where
  "destroy_objects E v [] s = s"
| "destroy_objects E v (i # is) s =
     (case rtVector_At (objs_v E) v i of
        None \<Rightarrow> destroy_objects E v is s
      | Some p \<Rightarrow> destroy_objects E v is (server_object_destroy p s))"

definition perform_cleanup :: "runtime \<Rightarrow> rbus_state \<Rightarrow> rbus_state option" where
  "perform_cleanup E s = do {
     let s1 = lock s;
     ov \<leftarrow> vderef (g_server_objects s1);
     let s2 = (destroy_objects E ov [0..<rtVector_Size (objs_v E) ov] s1)\<lparr>g_server_objects := Freed\<rparr>;
     cv \<leftarrow> vderef (g_event_subscriptions_for_client s2);
     let sz = rtVector_Size (csubs_v E) cv;
     s3 \<leftarrow> (if sz > 0 then map_option lock (cancel_subscriptions E cv [0..<sz] (unlock s2)) else Some s2);
     Some (unlock (s3\<lparr>g_event_subscriptions_for_client := Freed\<rparr>))
   }"

section \<open>Opening and closing\<close>

text \<open>
  \<open>int length = strlen(component_name); pTempBuff = rt_calloc(1, length + 10); sprintf(pTempBuff, "rbus.%s",
  component_name)\<close>: undefined when the signed sum overflows, and when the buffer is too small for the
  text and its terminator, which it is for a name whose length wraps.
\<close>

definition connection_name :: "string \<Rightarrow> string option" where
  "connection_name component_name =
     (let size = strlen_int component_name + 10; text = ''rbus.'' @ component_name
      in if 2 ^ 31 \<le> size \<or> size < int (length text) + 1 then None else Some text)"

definition rbus_openBrokerConnection2 ::
    "runtime \<Rightarrow> string option \<Rightarrow> string option \<Rightarrow> rbus_state \<Rightarrow> (rbus_error_t \<times> rbus_state) option" where
  "rbus_openBrokerConnection2 E component_name broker_address s =
     (case component_name of
        None \<Rightarrow> Some (RTMESSAGE_BUS_ERROR_INVALID_PARAM, s)
      | Some name \<Rightarrow>
          let s1 = lock (if g_mutex_init s then s else s\<lparr>g_mutex := False, g_mutex_init := True\<rparr>)
          in if g_connection s1 \<noteq> None then Some (RTMESSAGE_BUS_SUCCESS, unlock s1)
          else do {
            let s2 = (if broker_address = None then configure_router_address E s1 else s1);
            let address = (case broker_address of None \<Rightarrow> g_daemon_address s2 | Some a \<Rightarrow> a);
            buff \<leftarrow> connection_name name;
            let s3 = perform_init E s2;
            let c = Rt_Create buff address;
            let (err, s4) = rt_do E c s3;
            if err \<noteq> RT_OK then do {
              s5 \<leftarrow> perform_cleanup E (s4\<lparr>g_connection := None\<rparr>);
              Some (RTMESSAGE_BUS_ERROR_GENERAL, unlock s5)
            }
            else Some (RTMESSAGE_BUS_SUCCESS, unlock (s4\<lparr>g_connection := Some (rt_handle E (io s3) c)\<rparr>))
          })"

datatype rbuscore_bus_status_t =
    RBUSCORE_ENABLED
  | RBUSCORE_ENABLED_PENDING
  | RBUSCORE_DISABLED_PENDING
  | RBUSCORE_DISABLED

text \<open>Without \<open>RBUS_ALWAYS_ON\<close>.\<close>

definition rbuscore_checkBusStatus :: "runtime \<Rightarrow> rbuscore_bus_status_t" where
  "rbuscore_checkBusStatus E =
     (if \<not> nvram_rbus_disable E then RBUSCORE_ENABLED else RBUSCORE_DISABLED)"

text \<open>
  The test is \<open>RBUSCORE_DISABLED == rbuscore_checkBusStatus\<close>, without a call: it compares the
  enum's value 3 with the address of the function.
\<close>

definition rbus_openBrokerConnection ::
    "runtime \<Rightarrow> string option \<Rightarrow> rbus_state \<Rightarrow> (rbus_error_t \<times> rbus_state) option" where
  "rbus_openBrokerConnection E component_name s =
     (if 3 = rbuscore_checkBusStatus_address E then Some (RTMESSAGE_BUS_ERROR_GENERAL, s)
      else rbus_openBrokerConnection2 E component_name None s)"

text \<open>The return without a connection keeps the mutex.\<close>

definition rbus_closeBrokerConnection ::
    "runtime \<Rightarrow> rbus_state \<Rightarrow> (rbus_error_t \<times> rbus_state) option" where
  "rbus_closeBrokerConnection E s =
     (let s1 = lock s
      in case g_connection s1 of
        None \<Rightarrow> Some (RTMESSAGE_BUS_ERROR_INVALID_STATE, s1)
      | Some c \<Rightarrow> do {
          s2 \<leftarrow> perform_cleanup E s1;
          let (err, s3) = rt_do E (Rt_Destroy c) s2;
          if err \<noteq> RT_OK then Some (RTMESSAGE_BUS_ERROR_GENERAL, s3)
          else Some (RTMESSAGE_BUS_SUCCESS, (unlock (s3\<lparr>g_connection := None\<rparr>))\<lparr>g_mutex_init := False\<rparr>)
        })"

definition rbus_getConnection :: "rbus_state \<Rightarrow> nat option" where
  "rbus_getConnection s = g_connection s"

section \<open>Disconnected clients\<close>

definition RTMSG_ADVISORY_TOPIC_call :: "string \<Rightarrow> io_call" where
  "RTMSG_ADVISORY_TOPIC_call advisory_topic = Rt_AddListener advisory_topic Advisory_Callback"

text \<open>\<open>advisory_topic\<close> is rtMessage's \<open>RTMSG_ADVISORY_TOPIC\<close>.\<close>

definition rbus_registerClientDisconnectHandler ::
    "runtime \<Rightarrow> string \<Rightarrow> fnptr option \<Rightarrow> rbus_state \<Rightarrow> rbus_error_t \<times> rbus_state" where
  "rbus_registerClientDisconnectHandler E advisory_topic callback s =
     (let s1 = lock s
      in if g_advisory_listener_installed s1 then (RTMESSAGE_BUS_SUCCESS, unlock s1)
      else case rt_do E (RTMSG_ADVISORY_TOPIC_call advisory_topic) s1 of (err, s2) \<Rightarrow>
        if err \<noteq> RT_OK then (RTMESSAGE_BUS_ERROR_GENERAL, unlock s2)
        else (RTMESSAGE_BUS_SUCCESS,
              unlock (s2\<lparr>g_advisory_listener_installed := True,
                          g_client_disconnect_callback := callback\<rparr>)))"

definition rbus_unregisterClientDisconnectHandler ::
    "runtime \<Rightarrow> string \<Rightarrow> rbus_state \<Rightarrow> rbus_error_t \<times> rbus_state" where
  "rbus_unregisterClientDisconnectHandler E advisory_topic s =
     (let s1 = lock s
      in if g_advisory_listener_installed s1
         then case rt_do E (Rt_RemoveListener advisory_topic) s1 of (err, s2) \<Rightarrow>
           (RTMESSAGE_BUS_SUCCESS, unlock (s2\<lparr>g_advisory_listener_installed := False\<rparr>))
         else (RTMESSAGE_BUS_SUCCESS, unlock s1))"

text \<open>
  An advisory message, read by rtMessage: \<open>event\<close> is its event field (\<open>None\<close>: missing),
  \<open>inbox\<close> its inbox field, \<open>disconnect\<close> the value \<open>rtAdviseClientDisconnect\<close>.
\<close>

definition rtrouted_advisory_callback ::
    "runtime \<Rightarrow> int \<Rightarrow> int option \<Rightarrow> string option \<Rightarrow> rbus_state \<Rightarrow> rbus_state" where
  "rtrouted_advisory_callback E disconnect event inbox s =
     (case g_client_disconnect_callback s of
        None \<Rightarrow> s
      | Some f \<Rightarrow>
          (case (event, inbox) of
             (Some e, Some listener) \<Rightarrow>
               if e = disconnect then snd (app_do E (App_Disconnect f listener) s) else s
           | _ \<Rightarrow> s))"

section \<open>Facts on the router's address\<close>

definition word_of :: "string \<Rightarrow> string" where
  "word_of cs = takeWhile (\<lambda>c. \<not> isspace c) (dropWhile isspace cs)"

lemma scan_while_eq:
  assumes "len \<le> length buff"
  shows "scan_while b buff idx len =
    idx + length (takeWhile (\<lambda>c. isspace c = b) (take (len - idx) (drop idx buff)))"
  using assms
proof (induction b buff idx len rule: scan_while.induct)
  case (1 b buff idx len)
  show ?case
  proof (cases "idx < len")
    case True
    then have "take (len - idx) (drop idx buff) = buff ! idx # take (len - Suc idx) (drop (Suc idx) buff)"
      using 1(2) by (metis Cons_nth_drop_Suc Suc_diff_Suc order_less_le_trans take_Suc_Cons)
    then show ?thesis using 1 True by (subst scan_while.simps) simp
  next
    case False
    then show ?thesis by (subst scan_while.simps) simp
  qed
qed

lemma line_word_eq:
  fixes buff :: string
  defines "l \<equiv> takeWhile (\<lambda>c. c \<noteq> char_of (0 :: nat)) buff"
  shows "line_word buff = (if word_of l = [] then None else Some (word_of l))"
proof -
  let ?i = "length (takeWhile isspace l)"
  have pre: "take (length l) buff = l" by (simp add: l_def takeWhile_eq_take [symmetric])
  have len: "length l \<le> length buff" by (simp add: l_def length_takeWhile_le)
  have i: "scan_while True buff 0 (length l) = ?i" using scan_while_eq [OF len, of True 0] pre by simp
  have w: "dropWhile isspace l = drop ?i l" by (rule dropWhile_eq_drop)
  show ?thesis
  proof (cases "dropWhile isspace l")
    case Nil
    then have "length l \<le> ?i" using w by simp
    moreover have "word_of l = []" using Nil by (simp only: word_of_def takeWhile.simps)
    ultimately show ?thesis using i by (simp add: line_word_def l_def [symmetric])
  next
    case (Cons c w')
    then have c: "\<not> isspace c" by (metis hd_dropWhile list.discI list.sel(1))
    have lt: "?i < length l" using Cons w by (metis drop_eq_Nil linorder_not_le list.discI)
    have tl: "take (length l - Suc ?i) (drop (Suc ?i) buff) = w'"
    proof -
      have "take (length l - Suc ?i) (drop (Suc ?i) buff) = drop (Suc ?i) l" by (metis drop_take pre)
      also have "\<dots> = tl (drop ?i l)" by (simp add: drop_Suc tl_drop)
      finally show ?thesis using Cons w by simp
    qed
    let ?k = "length (takeWhile (\<lambda>c. \<not> isspace c) w')"
    have j: "scan_while False buff (?i + 1) (length l) = ?i + 1 + ?k"
      using scan_while_eq [OF len, of False "?i + 1"] tl by simp
    have "take (Suc ?k) (drop ?i buff) = take (Suc ?k) (take (length l - ?i) (drop ?i buff))"
    proof -
      have "?k \<le> length w'" by (simp add: length_takeWhile_le)
      also have "length w' = length l - Suc ?i" using Cons w by (metis length_drop length_tl list.sel(3) Suc_diff_Suc diff_Suc_1 lt)
      finally show ?thesis using lt by simp
    qed
    also have "take (length l - ?i) (drop ?i buff) = c # w'" using Cons w pre by (metis drop_take)
    also have "take (Suc ?k) (c # w') = word_of l"
      using Cons c by (simp add: word_of_def takeWhile_eq_take [symmetric])
    finally have "take (Suc ?k) (drop ?i buff) = word_of l" .
    moreover have "word_of l \<noteq> []" using Cons c by (simp add: word_of_def)
    ultimately show ?thesis
      using i j lt by (auto simp: line_word_def l_def [symmetric] Let_def)
  qed
qed

text \<open>A file whose lines are shorter than \<open>fgets\<close>'s buffer.\<close>

fun short_lines :: "nat \<Rightarrow> nat \<Rightarrow> string \<Rightarrow> bool" where
  "short_lines m k [] = True"
| "short_lines m k (c # cs) =
     (if c = CHR 0x0A then short_lines m m cs else 0 < k \<and> short_lines m (k - 1) cs)"

lemma fgets_line_splits: "fgets_line n cs = (l, r) \<Longrightarrow> cs = l @ r \<and> length l \<le> n"
  by (induction n cs arbitrary: l r rule: fgets_line.induct) (auto split: if_splits prod.splits)

lemma fgets_line_short:
  assumes "short_lines m k cs" and "k < n" and "fgets_line n cs = (l, r)"
  shows "short_lines m m r \<and> (r = [] \<or> l \<noteq> [] \<and> last l = CHR 0x0A)"
  using assms
proof (induction m k cs arbitrary: n l r rule: short_lines.induct)
  case (1 m k)
  then show ?case by (cases n) auto
next
  case (2 m k c cs)
  then obtain n' where n: "n = Suc n'" by (cases n) auto
  show ?case
  proof (cases "c = CHR 0x0A")
    case False
    obtain l' r' where lr: "fgets_line n' cs = (l', r')" by fastforce
    have "short_lines m m r' \<and> (r' = [] \<or> l' \<noteq> [] \<and> last l' = CHR 0x0A)"
      using 2(3,4) n by (intro 2(2) [OF False _ _ lr]) (auto simp: False)
    then show ?thesis using 2(5) n False lr by auto
  qed (use 2 n in auto)
qed

lemma isspace_newline [simp]: "isspace (CHR 0x0A)"
  by (simp add: isspace_def)

lemma word_of_append:
  assumes "r = [] \<or> l \<noteq> [] \<and> last l = CHR 0x0A"
  shows "word_of (l @ r) = (if word_of l = [] then word_of r else word_of l)"
proof (cases "\<forall>c\<in>set l. isspace c")
  case True
  then have "dropWhile isspace l = []" by simp
  then have "word_of l = []" by (simp only: word_of_def takeWhile.simps)
  then show ?thesis using True by (simp add: word_of_def dropWhile_append2)
next
  case False
  then obtain c w where w: "dropWhile isspace l = c # w" "dropWhile isspace (l @ r) = (c # w) @ r"
    by (metis dropWhile_eq_Nil_conv dropWhile_append1 list.exhaust)
  then have c: "\<not> isspace c" by (metis hd_dropWhile list.discI list.sel(1))
  have "takeWhile (\<lambda>c. \<not> isspace c) ((c # w) @ r) = takeWhile (\<lambda>c. \<not> isspace c) (c # w)"
  proof (cases "r = []")
    case False
    with assms have l: "l \<noteq> []" "last l = CHR 0x0A" by simp_all
    have "last (c # w) = last l" using w(1) by (metis last_appendR list.discI takeWhile_dropWhile_id)
    with l have "CHR 0x0A \<in> set (c # w)" by (metis last_in_set list.discI)
    then show ?thesis by (rule takeWhile_append1) simp
  qed simp
  then show ?thesis using w c by (simp add: word_of_def)
qed

lemma configure_loop_word:
  assumes "short_lines 254 254 conf" and "char_of (0 :: nat) \<notin> set conf"
  shows "configure_loop address conf = (if word_of conf = [] then address else word_of conf)"
  using assms
proof (induction address conf rule: configure_loop.induct)
  case (1 address conf)
  show ?case
  proof (cases "conf = []")
    case True
    then show ?thesis by (subst configure_loop.simps) (simp add: fgets_def word_of_def)
  next
    case False
    obtain l r where lr: "fgets_line 255 conf = (l, r)" by fastforce
    then have get: "fgets MAX_DAEMON_ADDRESS_LEN conf = Some (l, r)"
      using False by (simp add: fgets_def MAX_DAEMON_ADDRESS_LEN_def)
    from fgets_line_splits [OF lr] have conf: "conf = l @ r" by simp
    have short: "short_lines 254 254 r" "r = [] \<or> l \<noteq> [] \<and> last l = CHR 0x0A"
      using fgets_line_short [OF 1(2) _ lr] by simp_all
    have "takeWhile (\<lambda>c. c \<noteq> char_of (0 :: nat)) l = l" using 1(3) conf by (simp add: takeWhile_eq_all_conv) metis
    then have lw: "line_word l = (if word_of l = [] then None else Some (word_of l))"
      using line_word_eq [of l] by (simp only:)
    have ih: "word_of l = [] \<Longrightarrow> configure_loop address r = (if word_of r = [] then address else word_of r)"
      using 1(1) [OF get refl] lw short(1) 1(3) conf by simp
    show ?thesis
      using ih by (subst configure_loop.simps) (auto simp: get [unfolded conf] lw conf word_of_append [OF short(2)])
  qed
qed

lemma configure_loop_fits:
  "length address < MAX_DAEMON_ADDRESS_LEN \<Longrightarrow> length (configure_loop address conf) < MAX_DAEMON_ADDRESS_LEN"
proof (induction address conf rule: configure_loop.induct)
  case (1 address conf)
  have "length w < MAX_DAEMON_ADDRESS_LEN"
    if get: "fgets MAX_DAEMON_ADDRESS_LEN conf = Some (l, r)" and w: "line_word l = Some w" for l r w
  proof -
    have "length l \<le> MAX_DAEMON_ADDRESS_LEN - 1"
      using get fgets_line_splits [of "MAX_DAEMON_ADDRESS_LEN - 1" conf l r] by (auto simp: fgets_def split: if_splits)
    moreover have "length w \<le> length l"
      using w by (auto simp: line_word_def Let_def split: if_splits)
    ultimately show ?thesis by (simp add: MAX_DAEMON_ADDRESS_LEN_def)
  qed
  then show ?case
    using 1 by (subst configure_loop.simps) (auto split: option.split prod.split)
qed

section \<open>Facts on closing\<close>

text \<open>The requests that cancel the subscriptions of the client.\<close>

definition cancel_calls :: "runtime \<Rightarrow> nat option \<Rightarrow> client_subscription \<Rightarrow> io_call list" where
  "cancel_calls R c sub =
     map (\<lambda>e. subscription_call R (cs_object sub) (ce_name e) False None 0 c) (the (events sub))"

definition cancellable :: "runtime \<Rightarrow> nat option \<Rightarrow> client_subscription \<Rightarrow> bool" where
  "cancellable R c sub \<longleftrightarrow>
     (\<forall>e\<in>set (the (events sub)). subscription_sendable R (cs_object sub) (ce_name e) False None c)"

context rbus_runtime
begin

lemma cancel_events_run:
  assumes "heap_fresh s" and "g_connection s = Some c" and "\<forall>t r. answer_ok E t r"
    and "\<forall>i\<in>set is. i < length es \<and> subscription_sendable E n (ce_name (es ! i)) False None (Some c)"
  shows "\<exists>k\<ge>next_ptr s. cancel_events E n (Some es) is s = Some (s\<lparr>next_ptr := k,
    io := io s @ map (\<lambda>i. subscription_call E n (ce_name (es ! i)) False None 0 (Some c)) is\<rparr>)"
  using assms
proof (induction "is" arbitrary: s)
  case Nil
  show ?case by (rule exI [of _ "next_ptr s"]) simp
next
  case (Cons i js)
  let ?r = "subscription_call E n (ce_name (es ! i)) False None 0 (Some c)"
  have at: "rtVector_At (cevts_v E) (Some es) i = Some (es ! i)" using Cons.prems(4) by (simp add: cevts.at)
  from Cons.prems(3) obtain body name where ans: "rt_result E (io s) ?r \<noteq> RT_OK \<or>
      rt_reply E (io s) ?r = method_bytes (mp E) body name \<and> method_fits (mp E) body name"
    unfolding answer_ok_def by blast
  obtain ret perr k where send: "send_subscription_request E n (ce_name (es ! i)) False None 0 s =
      Some (ret, perr, s\<lparr>io := io s @ [?r], next_ptr := k\<rparr>)" and k: "next_ptr s \<le> k"
    by (rule send_subscription_run [OF Cons.prems(1), of n "ce_name (es ! i)" False None None ?r 0 body name])
      (use Cons.prems(2,4) ans in auto)
  let ?s = "s\<lparr>io := io s @ [?r], next_ptr := k\<rparr>"
  have "heap_fresh ?s" using Cons.prems(1) k by (simp add: heap_fresh_def)
  then obtain k' where "k' \<ge> k" "cancel_events E n (Some es) js ?s = Some (?s\<lparr>next_ptr := k',
      io := io ?s @ map (\<lambda>i. subscription_call E n (ce_name (es ! i)) False None 0 (Some c)) js\<rparr>)"
    using Cons.IH [of ?s] Cons.prems by auto
  then show ?case using at send k by (intro exI [of _ k']) simp
qed

lemma cancel_subscriptions_run:
  assumes "heap_fresh s" and "g_connection s = Some c" and "\<forall>t r. answer_ok E t r"
    and "\<forall>i\<in>set is. i < length cs \<and> cancellable E (Some c) (cs ! i) \<and> events (cs ! i) \<noteq> None"
  shows "\<exists>k\<ge>next_ptr s. cancel_subscriptions E (Some cs) is s = Some (s\<lparr>next_ptr := k,
    io := io s @ concat (map (\<lambda>i. cancel_calls E (Some c) (cs ! i)) is)\<rparr>)"
  using assms
proof (induction "is" arbitrary: s)
  case Nil
  show ?case by (rule exI [of _ "next_ptr s"]) simp
next
  case (Cons i js)
  from Cons.prems(4) obtain es where es: "events (cs ! i) = Some es" by auto
  have at: "rtVector_At (csubs_v E) (Some cs) i = Some (cs ! i)" using Cons.prems(4) by (simp add: csubs.at)
  have ok: "\<forall>j\<in>set [0..<length es]. j < length es \<and>
      subscription_sendable E (cs_object (cs ! i)) (ce_name (es ! j)) False None (Some c)"
    using Cons.prems(4) es by (simp add: cancellable_def)
  obtain k where k: "k \<ge> next_ptr s" and run: "cancel_events E (cs_object (cs ! i)) (Some es) [0..<length es] s =
      Some (s\<lparr>next_ptr := k, io := io s @ cancel_calls E (Some c) (cs ! i)\<rparr>)"
    using cancel_events_run [OF Cons.prems(1-3) ok]
      map_nth_range [of "\<lambda>e. subscription_call E (cs_object (cs ! i)) (ce_name e) False None 0 (Some c)" es] es
    by (auto simp: cancel_calls_def)
  let ?s = "s\<lparr>next_ptr := k, io := io s @ cancel_calls E (Some c) (cs ! i)\<rparr>"
  have "heap_fresh ?s" using Cons.prems(1) k by (simp add: heap_fresh_def)
  then obtain k' where "k' \<ge> k" "cancel_subscriptions E (Some cs) js ?s = Some (?s\<lparr>next_ptr := k',
      io := io ?s @ concat (map (\<lambda>i. cancel_calls E (Some c) (cs ! i)) js)\<rparr>)"
    using Cons.IH [of ?s] Cons.prems by auto
  then show ?case using at run k es by (intro exI [of _ k']) (simp add: cevts.size)
qed

lemma destroy_objects_run:
  assumes "\<forall>i\<in>set is. i < length ps"
  shows "destroy_objects E (Some ps) is s = s\<lparr>objs := (\<lambda>q. if q \<in> (!) ps ` set is then None else objs s q)\<rparr>"
  using assms
proof (induction "is" arbitrary: s)
  case (Cons i js)
  then show ?case by (auto simp: objs.at server_object_destroy_def fun_eq_iff)
qed simp

lemma perform_cleanup_run:
  assumes objs: "g_server_objects s = Live (Some ps)" and subs: "subs_wf E s" and fresh: "heap_fresh s"
    and ok: "subs_list s = [] \<or> (\<exists>c. g_connection s = Some c \<and> (\<forall>t r. answer_ok E t r) \<and>
      (\<forall>sub\<in>set (subs_list s). cancellable E (Some c) sub))"
  shows "\<exists>k\<ge>next_ptr s. perform_cleanup E s = Some (unlock (s\<lparr>next_ptr := k,
    io := io s @ concat (map (cancel_calls E (g_connection s)) (subs_list s)),
    objs := (\<lambda>q. if q \<in> set ps then None else objs s q),
    g_server_objects := Freed, g_event_subscriptions_for_client := Freed\<rparr>))"
proof -
  from subs obtain cs where cs: "g_event_subscriptions_for_client s = Live (Some cs)" "subs_list s = cs"
    and all: "\<forall>sub\<in>set cs. subscription_wf E sub" by (rule subs_wfE)
  let ?h = "\<lambda>q. if q \<in> set ps then None else objs s q"
  have img: "(!) ps ` {..<length ps} = set ps" by (auto simp: set_conv_nth)
  have d: "destroy_objects E (Some ps) [0..<length ps] (lock s) = (lock s)\<lparr>objs := ?h\<rparr>"
    by (subst destroy_objects_run) (simp_all add: img atLeast0LessThan cong: if_cong)
  show ?thesis
  proof (cases "cs = []")
    case True
    then show ?thesis
      using objs cs d by (intro exI [of _ "next_ptr s"])
        (simp add: perform_cleanup_def objs.size csubs.size lock_def unlock_def)
  next
    case False
    with ok cs obtain c where c: "g_connection s = Some c" "\<forall>t r. answer_ok E t r"
      "\<forall>sub\<in>set cs. cancellable E (Some c) sub" by auto
    let ?s = "unlock ((lock s)\<lparr>objs := ?h, g_server_objects := Freed\<rparr>)"
    have "heap_fresh ?s" "g_connection ?s = Some c" using fresh c(1) by (simp_all add: heap_fresh_def)
    moreover have "\<forall>i\<in>set [0..<length cs]. i < length cs \<and> cancellable E (Some c) (cs ! i) \<and> events (cs ! i) \<noteq> None"
      using all c(3) by (auto simp: subscription_wf_def)
    moreover note cancel_subscriptions_run [of ?s c "[0..<length cs]" cs]
    ultimately obtain k where "k \<ge> next_ptr s"
      "cancel_subscriptions E (Some cs) [0..<length cs] ?s = Some (?s\<lparr>next_ptr := k,
        io := io s @ concat (map (cancel_calls E (Some c)) cs)\<rparr>)"
      using c(2) map_nth_range [of "cancel_calls E (Some c)" cs] by auto
    then show ?thesis
      using objs cs d False c(1) by (intro exI [of _ k])
        (simp add: perform_cleanup_def objs.size csubs.size lock_def unlock_def)
  qed
qed

end

context rbus_runtime
begin

lemma connection_name_fits: "length name < 2 ^ 31 - 10 \<Longrightarrow> connection_name name = Some (''rbus.'' @ name)"
  by (simp add: connection_name_def strlen_int_small Let_def)

text \<open>A longer name is undefined behaviour: the sum overflows, or the buffer is too small.\<close>

lemma long_connection_name:
  assumes "2 ^ 31 - 10 \<le> length name" and "length name < 2 ^ 32"
  shows "connection_name name = None"
proof (cases "length name < 2 ^ 31")
  case True
  with assms(1) show ?thesis by (simp add: connection_name_def strlen_int_small Let_def)
next
  case False
  with assms(2) show ?thesis by (simp add: connection_name_def strlen_int_negative Let_def)
qed

lemma open_connection_run:
  assumes fits: "length name < 2 ^ 31 - 10" and "g_connection s = None" and "\<forall>p\<ge>next_ptr s. objs s p = None" and "heap_fresh s"
    and "a = (case address of None \<Rightarrow> g_daemon_address (configure_router_address E s) | Some a \<Rightarrow> a)"
    and "c = Rt_Create (''rbus.'' @ name) a"
  shows "\<exists>s'. rbus_openBrokerConnection2 E (Some name) address s =
      Some (if rt_result E (io s) c = RT_OK then RTMESSAGE_BUS_SUCCESS else RTMESSAGE_BUS_ERROR_GENERAL, s') \<and>
    io s' = io s @ [c] \<and> msgs s' = msgs s \<and> \<not> g_mutex s' \<and>
    next_ptr s \<le> next_ptr s' \<and> (\<forall>p. objs s p = None \<longrightarrow> objs s' p = None) \<and>
    g_run_event_client_dispatch s' = g_run_event_client_dispatch s \<and>
    g_master_event_callback s' = g_master_event_callback s \<and>
    g_queued_requests s' = g_queued_requests s \<and> stack_counter s' = stack_counter s \<and>
    (if rt_result E (io s) c = RT_OK
     then g_connection s' = Some (rt_handle E (io s) c) \<and> registry_wf E s' \<and> abs_reg s' = Map.empty \<and>
       subs_wf E s' \<and> abs_subs s' = Map.empty
     else g_connection s' = None \<and> g_server_objects s' = Freed \<and> g_event_subscriptions_for_client s' = Freed)"
proof -
  define s1 where "s1 = lock (if g_mutex_init s then s else s\<lparr>g_mutex := False, g_mutex_init := True\<rparr>)"
  define s2 where "s2 = (if address = None then configure_router_address E s1 else s1)"
  define s3 where "s3 = perform_init E s2"
  have vec: "rtVector_Create (objs_v E) = Some []" "rtVector_Create (csubs_v E) = Some []"
    by (simp_all add: objs.create csubs.create)
  have s3_facts: "g_server_objects s3 = Live (Some [])" "g_event_subscriptions_for_client s3 = Live (Some [])"
    "io s3 = io s" "msgs s3 = msgs s" "objs s3 = objs s" "next_ptr s3 = next_ptr s" "g_connection s3 = None"
    "g_daemon_address s3 = (if address = None then g_daemon_address (configure_router_address E s) else g_daemon_address s)"
    "g_run_event_client_dispatch s3 = g_run_event_client_dispatch s" "g_master_event_callback s3 = g_master_event_callback s"
    "g_queued_requests s3 = g_queued_requests s" "stack_counter s3 = stack_counter s"
    using vec assms(2) by (simp_all add: s1_def s2_def s3_def perform_init_def configure_router_address_def split: option.split)
  have "g_daemon_address s3 = g_daemon_address s2" by (simp add: s3_def perform_init_def)
  then have a: "(case address of None \<Rightarrow> g_daemon_address s2 | Some a \<Rightarrow> a) = a"
    using s3_facts(8) by (cases address) (simp_all add: assms(5))
  have c1: "g_connection s1 = None" using assms(2) by (simp add: s1_def)
  have create: "rt_do E c s3 = (rt_result E (io s) c, s3\<lparr>io := io s @ [c]\<rparr>)" using s3_facts(3) by (simp add: rt_do_def)
  have run: "rbus_openBrokerConnection2 E (Some name) address s =
      (if rt_result E (io s) c = RT_OK
       then Some (RTMESSAGE_BUS_SUCCESS, unlock (s3\<lparr>io := io s @ [c], g_connection := Some (rt_handle E (io s) c)\<rparr>))
       else do {
         s5 \<leftarrow> perform_cleanup E (s3\<lparr>io := io s @ [c], g_connection := None\<rparr>);
         Some (RTMESSAGE_BUS_ERROR_GENERAL, unlock s5)
       })"
    using c1 a create s3_facts(3)
    by (simp add: rbus_openBrokerConnection2_def s1_def [symmetric] s2_def [symmetric] s3_def [symmetric]
        assms(6) connection_name_fits [OF fits] Let_def)
  show ?thesis
  proof (cases "rt_result E (io s) c = RT_OK")
    case True
    let ?s' = "unlock (s3\<lparr>io := io s @ [c], g_connection := Some (rt_handle E (io s) c)\<rparr>)"
    have "registry_wf E ?s'" "abs_reg ?s' = Map.empty" "subs_wf E ?s'" "abs_subs ?s' = Map.empty"
      using s3_facts assms(3) by (simp_all add: registry_wf_def table_wf_def subs_wf_def abs_reg_def [abs_def] reg_find_def
          objects_of_def table_map_def abs_subs_def [abs_def] subs_list_def fun_eq_iff)
    with True show ?thesis using run s3_facts by simp
  next
    case False
    let ?u = "s3\<lparr>io := io s @ [c], g_connection := None\<rparr>"
    have "subs_wf E ?u" "subs_list ?u = []" "heap_fresh ?u"
      using s3_facts assms(4) by (simp_all add: subs_wf_def table_wf_def subs_list_def heap_fresh_def)
    with perform_cleanup_run [of ?u "[]"] s3_facts(1,6)
    obtain k where "next_ptr s \<le> k" "perform_cleanup E ?u = Some (unlock (?u\<lparr>next_ptr := k, io := io s @ [c],
        objs := (\<lambda>q. if q \<in> set [] then None else objs ?u q),
        g_server_objects := Freed, g_event_subscriptions_for_client := Freed\<rparr>))" by auto
    with False show ?thesis using run s3_facts by simp
  qed
qed

lemma close_connection_run:
  assumes "g_connection s = Some c" and "registry_wf E s" and "subs_wf E s" and "heap_fresh s"
    and "\<forall>t r. answer_ok E t r" and "\<forall>sub\<in>set (subs_list s). cancellable E (Some c) sub"
    and "t = io s @ concat (map (cancel_calls E (Some c)) (subs_list s))" and "length m < MAX_METHOD_NAME_LENGTH"
  shows "\<exists>s'. rbus_closeBrokerConnection E s = Some (if rt_result E t (Rt_Destroy c) = RT_OK
      then RTMESSAGE_BUS_SUCCESS else RTMESSAGE_BUS_ERROR_GENERAL, s') \<and>
    io s' = t @ [Rt_Destroy c] \<and> (\<forall>n p. reg_find s n = Some p \<longrightarrow> objs s' p = None) \<and>
    g_server_objects s' = Freed \<and> g_event_subscriptions_for_client s' = Freed \<and> msgs s' = msgs s \<and> \<not> g_mutex s' \<and>
    next_ptr s \<le> next_ptr s' \<and> (\<forall>p. objs s p = None \<longrightarrow> objs s' p = None) \<and>
    g_run_event_client_dispatch s' = g_run_event_client_dispatch s \<and>
    g_master_event_callback s' = g_master_event_callback s \<and>
    (if rt_result E t (Rt_Destroy c) = RT_OK then g_connection s' = None \<and> \<not> g_mutex_init s'
     else g_connection s' = Some c \<and>
       rbus_registerMethod E n m f d s' = None)"
proof -
  from assms(2) obtain ps where ps: "g_server_objects s = Live (Some ps)" by (rule registry_wfE)
  have lock: "g_server_objects (lock s) = Live (Some ps)" "subs_wf E (lock s)" "heap_fresh (lock s)"
    "subs_list (lock s) = subs_list s" "io (lock s) = io s"
    using ps assms(3,4) by (simp_all add: heap_fresh_def subs_list_def)
  obtain k where k: "next_ptr s \<le> k" and run: "perform_cleanup E (lock s) = Some (unlock ((lock s)\<lparr>next_ptr := k, io := t,
      objs := (\<lambda>q. if q \<in> set ps then None else objs (lock s) q),
      g_server_objects := Freed, g_event_subscriptions_for_client := Freed\<rparr>))"
    using perform_cleanup_run [OF lock(1-3)] assms(1,5-7) lock(4,5) by auto
  have reg: "p \<in> set ps" if "reg_find s n = Some p" for n p
    using that ps by (auto simp: reg_find_def objects_of_def dest: table_map_SomeD)
  show ?thesis
    using run assms(1,8) reg k
    by (auto simp: rbus_closeBrokerConnection_def rt_do_def Let_def rbus_registerMethod_def
        get_object_def)
qed

end

section \<open>Properties\<close>

text \<open>
  C25. The router's address.  For a configuration file without \<open>NUL\<close> characters whose lines fit the
  buffer of \<open>fgets\<close>, the address is the first word of the file, and the built-in address
  if there is no file or no word in it.
\<close>

theorem router_address_is_first_word:
  assumes "case rbus_client_conf E of None \<Rightarrow> True
    | Some conf \<Rightarrow> short_lines 254 254 conf \<and> char_of (0 :: nat) \<notin> set conf"
  shows "configure_router_address E s =
    (case rbus_client_conf E of None \<Rightarrow> s
     | Some conf \<Rightarrow> if word_of conf = [] then s else s\<lparr>g_daemon_address := word_of conf\<rparr>)"
  using assms by (auto simp: configure_router_address_def configure_loop_word split: option.split)

text \<open>
  C26. The \<open>strcpy\<close> into \<open>g_daemon_address\<close> stays in its 256 bytes for every file, with lines of any length.
\<close>

theorem router_address_fits:
  assumes "length (g_daemon_address s) < MAX_DAEMON_ADDRESS_LEN"
  shows "length (g_daemon_address (configure_router_address E s)) < MAX_DAEMON_ADDRESS_LEN"
  using assms configure_loop_fits by (auto simp: configure_router_address_def split: option.split)

text \<open>
  C15. Opening a connection: one request to the router, under the name \<open>rbus.\<close> and the component's, at the
  address given or configured.  On success the connection is the router's, and the registry and the table of
  subscriptions are empty and well-formed; on failure there is no connection, and both
  vectors are freed.  The mutex is free in both cases.  The name has less than \<open>2 ^ 31 - 10\<close> characters, so that its
  length and the size of the buffer it is copied to fit an \<open>int\<close>.
\<close>

theorem open_connection:
  assumes "rbus_runtime E" and "length name < 2 ^ 31 - 10" and "g_connection s = None" and "\<forall>p\<ge>next_ptr s. objs s p = None" and "heap_fresh s"
    and "a = (case address of None \<Rightarrow> g_daemon_address (configure_router_address E s) | Some a \<Rightarrow> a)"
    and "c = Rt_Create (''rbus.'' @ name) a"
  shows "\<exists>s'. rbus_openBrokerConnection2 E (Some name) address s =
      Some (if rt_result E (io s) c = RT_OK then RTMESSAGE_BUS_SUCCESS else RTMESSAGE_BUS_ERROR_GENERAL, s') \<and>
    io s' = io s @ [c] \<and> msgs s' = msgs s \<and> \<not> g_mutex s' \<and>
    (if rt_result E (io s) c = RT_OK
     then g_connection s' = Some (rt_handle E (io s) c) \<and> registry_wf E s' \<and> abs_reg s' = Map.empty \<and>
       subs_wf E s' \<and> abs_subs s' = Map.empty
     else g_connection s' = None \<and> g_server_objects s' = Freed \<and> g_event_subscriptions_for_client s' = Freed)"
  using rbus_runtime.open_connection_run [OF assms] by blast

text \<open>
  C16. Closing the connection sends one request to cancel every subscription of the client, in the order of the
  table, then destroys the connection; the registered objects and both vectors are freed.  If the
  router refuses the last step, the connection stays while the vectors are freed: a
  registration after that uses freed memory.
\<close>

theorem close_connection:
  assumes "rbus_runtime E" and "g_connection s = Some c" and "registry_wf E s" and "subs_wf E s" and "heap_fresh s"
    and "\<forall>t r. answer_ok E t r" and "\<forall>sub\<in>set (subs_list s). cancellable E (Some c) sub"
    and "t = io s @ concat (map (cancel_calls E (Some c)) (subs_list s))" and "length m < MAX_METHOD_NAME_LENGTH"
  shows "\<exists>s'. rbus_closeBrokerConnection E s = Some (if rt_result E t (Rt_Destroy c) = RT_OK
      then RTMESSAGE_BUS_SUCCESS else RTMESSAGE_BUS_ERROR_GENERAL, s') \<and>
    io s' = t @ [Rt_Destroy c] \<and> (\<forall>n p. reg_find s n = Some p \<longrightarrow> objs s' p = None) \<and>
    g_server_objects s' = Freed \<and> g_event_subscriptions_for_client s' = Freed \<and> msgs s' = msgs s \<and> \<not> g_mutex s' \<and>
    (if rt_result E t (Rt_Destroy c) = RT_OK then g_connection s' = None \<and> \<not> g_mutex_init s'
     else g_connection s' = Some c \<and>
       rbus_registerMethod E n m f d s' = None)"
  using rbus_runtime.close_connection_run [OF assms] by blast

text \<open>
  Closing without a connection returns an error with the mutex held.
\<close>

lemma close_unconnected_keeps_mutex:
  assumes "g_connection s = None"
  shows "\<exists>s'. rbus_closeBrokerConnection E s = Some (RTMESSAGE_BUS_ERROR_INVALID_STATE, s') \<and> g_mutex s'"
  using assms by (simp add: rbus_closeBrokerConnection_def)

text \<open>
  C39. A disabled bus is opened all the same.  The function that reads the status is compared, not called: with the
  file that disables the bus present, \<open>rbus_openBrokerConnection\<close> connects to the router and reports
  success.
\<close>

theorem disabled_bus_is_opened:
  assumes "rbus_runtime E" and "length name < 2 ^ 31 - 10" and "g_connection s = None" and "\<forall>p\<ge>next_ptr s. objs s p = None" and "heap_fresh s"
    and "rbuscore_checkBusStatus E = RBUSCORE_DISABLED" and "3 < rbuscore_checkBusStatus_address E"
    and "\<forall>c. rt_result E (io s) c = RT_OK"
  shows "\<exists>s'. rbus_openBrokerConnection E (Some name) s = Some (RTMESSAGE_BUS_SUCCESS, s') \<and> g_connection s' \<noteq> None"
  using rbus_runtime.open_connection_run [OF assms(1-5) refl refl, of None] assms(7,8)
  by (auto simp: rbus_openBrokerConnection_def)

text \<open>
  C40. After a connection is closed and opened again, no subscription installs the event listener: the flag
  that says it is there survives the close.  A first subscription on the new connection sends its request and
  nothing else, so from the new connection on the router has no listener for events of this process.
\<close>

theorem reopened_connection_has_no_event_listener:
  assumes "rbus_runtime E" and "g_connection s = Some c" and "registry_wf E s" and "subs_wf E s" and "heap_fresh s"
    and "\<forall>t r. answer_ok E t r" and "\<forall>sub\<in>set (subs_list s). cancellable E (Some c) sub"
    and "\<forall>t c. rt_result E t c = RT_OK" and "g_run_event_client_dispatch s" and "g_master_event_callback s = None"
    and "length ev < MAX_EVENT_NAME_LENGTH E" and "\<forall>h. subscription_sendable E n ev True None (Some h)"
    and "length name < 2 ^ 31 - 10"
  shows "\<exists>s1 s2 a ret perr s3 req. rbus_closeBrokerConnection E s = Some (RTMESSAGE_BUS_SUCCESS, s1) \<and>
    rbus_openBrokerConnection2 E (Some name) address s1 = Some (RTMESSAGE_BUS_SUCCESS, s2) \<and>
    rbus_subscribeToEventInternal E (Some n) (Some ev) (Some f) None d t s2 = Some (ret, perr, s3) \<and>
    io s3 = io s1 @ [Rt_Create (''rbus.'' @ name) a, req] \<and>
    req \<noteq> Rt_AddDefaultListener Master_Event_Callback"
proof -
  obtain s1 where s1: "rbus_closeBrokerConnection E s = Some (RTMESSAGE_BUS_SUCCESS, s1)" "g_connection s1 = None"
      "msgs s1 = msgs s" "next_ptr s \<le> next_ptr s1" "\<forall>p. objs s p = None \<longrightarrow> objs s1 p = None"
      "g_run_event_client_dispatch s1" "g_master_event_callback s1 = None"
    using rbus_runtime.close_connection_run [OF assms(1-7) refl, of "[]"] assms(8-10)
    by (auto simp: MAX_METHOD_NAME_LENGTH_def)
  have "\<forall>p\<ge>next_ptr s1. objs s1 p = None" "heap_fresh s1"
    using assms(3,5) s1(3-5) by (auto simp: heap_fresh_def elim!: registry_wfE)
  from rbus_runtime.open_connection_run [OF assms(1,13) s1(2) this refl refl, of address] assms(8) s1(6,7)
  obtain a s2 where s2: "rbus_openBrokerConnection2 E (Some name) address s1 = Some (RTMESSAGE_BUS_SUCCESS, s2)"
      "io s2 = io s1 @ [Rt_Create (''rbus.'' @ name) a]" "msgs s2 = msgs s1" "next_ptr s1 \<le> next_ptr s2"
      "g_run_event_client_dispatch s2" "g_master_event_callback s2 = None" "g_connection s2 \<noteq> None"
      "subs_wf E s2" "abs_subs s2 = Map.empty"
    by auto
  have h: "heap_fresh s2" "abs_subs s2 (n, ev) = None"
    using \<open>heap_fresh s1\<close> s2(3,4,9) by (simp_all add: heap_fresh_def)
  let ?req = "subscription_call E n ev True None t (g_connection s2)" and ?tr = "io s2 @ listener_setup s2"
  have "answer_ok E ?tr ?req" using assms(6) by blast
  then obtain body m where ans: "rt_result E ?tr ?req \<noteq> RT_OK \<or>
      rt_reply E ?tr ?req = method_bytes (mp E) body m \<and> method_fits (mp E) body m"
    by (auto simp: answer_ok_def)
  obtain ret perr s3 where "rbus_subscribeToEventInternal E (Some n) (Some ev) (Some f) None d t s2 = Some (ret, perr, s3)"
      "io s3 = ?tr @ [?req]"
    by (rule rbus_runtime.subscribe_run [OF assms(1) s2(8) h(1) s2(7,6) h(2) assms(11), of None None ?req t ?tr body m f d])
      (use assms(12) ans s2(7) in auto)
  with s1(1) s2(1,2,5) show ?thesis by (auto simp: listener_setup_def subscription_call_def)
qed

text \<open>
  C34. The handler of disconnected clients.  After a registration the router accepts, a message that says that a client
  has gone calls the handler once with that client's address, and any other message does nothing; a
  second registration reports success and leaves the first handler in place.
\<close>

theorem disconnect_handler:
  assumes "\<not> g_advisory_listener_installed s"
    and "rt_result E (io s) (RTMSG_ADVISORY_TOPIC_call adv) = RT_OK"
  shows "\<exists>s1. rbus_registerClientDisconnectHandler E adv (Some f) s = (RTMESSAGE_BUS_SUCCESS, s1) \<and> \<not> g_mutex s1 \<and>
    io (rtrouted_advisory_callback E gone (Some gone) (Some x) s1) = io s1 @ [App_Disconnect f x] \<and>
    (e \<noteq> Some gone \<longrightarrow> rtrouted_advisory_callback E gone e (Some x) s1 = s1) \<and>
    (\<exists>s2. rbus_registerClientDisconnectHandler E adv (Some g) s1 = (RTMESSAGE_BUS_SUCCESS, s2) \<and>
      g_client_disconnect_callback s2 = Some f \<and> io s2 = io s1)"
  using assms
  by (auto simp: rbus_registerClientDisconnectHandler_def rtrouted_advisory_callback_def rt_do_def app_do_def
      split: option.split)

section \<open>Concrete runs\<close>

definition conf_world :: world where
  "conf_world = calm_world\<lparr>w_conf := Some (CHR 0x0A # ''  tcp://10.0.0.1:10001 x'')\<rparr>"

definition disabled_world :: world where
  "disabled_world = calm_world\<lparr>w_disabled := True\<rparr>"

lemma initial_facts:
  "g_connection initial_state = None" "\<forall>p\<ge>next_ptr initial_state. objs initial_state p = None"
  "heap_fresh initial_state" "io initial_state = []" "\<not> g_advisory_listener_installed initial_state"
  "length (g_daemon_address initial_state) < MAX_DAEMON_ADDRESS_LEN"
  by (simp_all add: initial_state_def heap_fresh_def MAX_DAEMON_ADDRESS_LEN_def)

lemma calm_result: "rt_result (std_runtime calm_world) t c = RT_OK" "rt_result (std_runtime disabled_world) t c = RT_OK"
  by (simp_all add: std_runtime_def calm_world_def disabled_world_def)

lemma closing_facts:
  "g_connection subscribed_state = Some 1" "registry_wf (std_runtime w) subscribed_state"
  "subs_list subscribed_state = [\<lparr>cs_object = ''obj'', events = Some [\<lparr>ce_name = ''e'', ce_callback = 4, ce_data = UD_App 8\<rparr>]\<rparr>]"
  "\<forall>sub\<in>set (subs_list subscribed_state). cancellable (std_runtime w) (Some 1) sub"
  "\<forall>t r. answer_ok (std_runtime accept_world) t r" "g_run_event_client_dispatch subscribed_state"
proof -
  show c: "g_connection subscribed_state = Some 1"
    by (simp add: subscribed_state_def ready_state_def initial_state_def)
  show l: "subs_list subscribed_state = [\<lparr>cs_object = ''obj'', events = Some [\<lparr>ce_name = ''e'', ce_callback = 4, ce_data = UD_App 8\<rparr>]\<rparr>]"
    by (simp add: subscribed_state_def subs_list_def)
  show "\<forall>sub\<in>set (subs_list subscribed_state). cancellable (std_runtime w) (Some 1) sub"
    using subscribe_call_facts(2) [of w False] c l by (simp add: cancellable_def)
  show "registry_wf (std_runtime w) subscribed_state" "g_run_event_client_dispatch subscribed_state"
    by (simp_all add: subscribed_state_def ready_state_def initial_state_def registry_wf_def table_wf_def)
  show "\<forall>t r. answer_ok (std_runtime accept_world) t r" using accept_facts by (auto simp: answer_ok_def)
qed

theorem router_address_is_first_word_witness:
  "g_daemon_address (configure_router_address (std_runtime conf_world) initial_state) = ''tcp://10.0.0.1:10001''"
proof -
  have conf: "rbus_client_conf (std_runtime conf_world) = Some (CHR 0x0A # ''  tcp://10.0.0.1:10001 x'')"
    by (simp add: std_runtime_def conf_world_def)
  have "case rbus_client_conf (std_runtime conf_world) of None \<Rightarrow> True
    | Some conf \<Rightarrow> short_lines 254 254 conf \<and> char_of (0 :: nat) \<notin> set conf"
    by (simp add: conf char_of_0)
  from router_address_is_first_word [OF this, of initial_state] show ?thesis
    by (simp add: conf word_of_def isspace_def)
qed

theorem router_address_fits_witness:
  "length (g_daemon_address (configure_router_address (std_runtime conf_world) initial_state)) < 256"
  using router_address_fits [OF initial_facts(6), of "std_runtime conf_world"] by (simp add: MAX_DAEMON_ADDRESS_LEN_def)

theorem open_connection_witness:
  "\<exists>s'. rbus_openBrokerConnection2 (std_runtime calm_world) (Some ''app'') (Some ''tcp://a'') initial_state =
      Some (RTMESSAGE_BUS_SUCCESS, s') \<and> io s' = [Rt_Create ''rbus.app'' ''tcp://a''] \<and> abs_reg s' = Map.empty"
  using open_connection [OF std_rbus_runtime [of calm_world] _ initial_facts(1-3) refl refl,
      of "''app''" "Some ''tcp://a''"]
  by (auto simp: calm_result initial_facts(4))

theorem close_connection_witness:
  "\<exists>s'. rbus_closeBrokerConnection (std_runtime accept_world) subscribed_state = Some (RTMESSAGE_BUS_SUCCESS, s') \<and>
    io s' = [subscription_call (std_runtime accept_world) ''obj'' ''e'' False None 0 (Some 1), Rt_Destroy 1] \<and>
    g_connection s' = None"
  using close_connection [OF std_rbus_runtime [of accept_world] closing_facts(1,2) subscriber_facts(7,8)
      closing_facts(5,4) refl, of "[]"] accept_facts(1)
  by (auto simp: MAX_METHOD_NAME_LENGTH_def closing_facts(3) cancel_calls_def subscriber_facts(11))

lemma close_unconnected_keeps_mutex_witness:
  "\<exists>s'. rbus_closeBrokerConnection (std_runtime calm_world) initial_state =
    Some (RTMESSAGE_BUS_ERROR_INVALID_STATE, s') \<and> g_mutex s'"
  by (rule close_unconnected_keeps_mutex [OF initial_facts(1)])

theorem disabled_bus_is_opened_witness:
  "\<exists>s'. rbus_openBrokerConnection (std_runtime disabled_world) (Some ''app'') initial_state =
    Some (RTMESSAGE_BUS_SUCCESS, s') \<and> g_connection s' \<noteq> None"
  by (rule disabled_bus_is_opened [OF std_rbus_runtime _ initial_facts(1-3)])
    (simp_all add: rbuscore_checkBusStatus_def std_runtime_def disabled_world_def calm_world_def)

theorem reopened_connection_has_no_event_listener_witness:
  "\<exists>s1 s2 a ret perr s3 req. rbus_closeBrokerConnection (std_runtime accept_world) subscribed_state =
      Some (RTMESSAGE_BUS_SUCCESS, s1) \<and>
    rbus_openBrokerConnection2 (std_runtime accept_world) (Some ''app'') None s1 = Some (RTMESSAGE_BUS_SUCCESS, s2) \<and>
    rbus_subscribeToEventInternal (std_runtime accept_world) (Some ''obj'') (Some ''e'') (Some 4) None UD_NULL 0 s2 =
      Some (ret, perr, s3) \<and>
    io s3 = io s1 @ [Rt_Create ''rbus.app'' a, req] \<and> req \<noteq> Rt_AddDefaultListener Master_Event_Callback"
proof -
  have "\<forall>h. subscription_sendable (std_runtime accept_world) ''obj'' ''e'' True None (Some h)"
    using subscribe_call_facts(1) [of accept_world True]
    by (simp add: ready_state_def subscription_sendable_def sender_address_def std_runtime_def)
  from reopened_connection_has_no_event_listener [OF std_rbus_runtime [of accept_world] closing_facts(1,2)
      subscriber_facts(7,8) closing_facts(5,4) _ closing_facts(6) subscriber_facts(10) _ this, of "''app''" None 4 UD_NULL 0]
  show ?thesis using accept_facts(1) by simp
qed

theorem disconnect_handler_witness:
  "\<exists>s1. rbus_registerClientDisconnectHandler (std_runtime calm_world) ''adv'' (Some 3) initial_state =
      (RTMESSAGE_BUS_SUCCESS, s1) \<and>
    io (rtrouted_advisory_callback (std_runtime calm_world) 1 (Some 1) (Some ''inbox7'') s1) =
      io s1 @ [App_Disconnect 3 ''inbox7'']"
  using disconnect_handler [OF initial_facts(5) calm_result(1), of "''adv''" 3 1 "''inbox7''" None 4] by auto

end
