(* ===== verification/Rbus_Tables.thy ===== *)
theory Rbus_Tables
  imports Rbus_Rpc
begin

text \<open>
  Method tables (\<open>rbus_registerMethodTable\<close> and \<open>rbus_unregisterMethodTable\<close> of
  \<open>rbus-core/lib/rbus_core.c\<close>): their runs on the registry as sequences of single
  registrations, their closed form when every entry is accepted, and what they leave, for any table, up to the
  first entry that is refused.
\<close>

section \<open>Entries\<close>

definition entry_method :: "rbus_method_table_entry_t \<Rightarrow> abs_method" where
  "entry_method t = abs_callback (mt_callback t) (mt_user_data t)"

text \<open>The entries of an application: its own callbacks, names within the limit, no name twice.\<close>

definition table_ok :: "rbus_method_table_entry_t list \<Rightarrow> bool" where
  "table_ok table \<longleftrightarrow> distinct (map mt_method table) \<and>
     (\<forall>t\<in>set table. mt_callback t \<noteq> Subscription_Handler \<and> length (mt_method t) < MAX_METHOD_NAME_LENGTH)"

definition table_methods :: "rbus_method_table_entry_t list \<Rightarrow> (string \<rightharpoonup> abs_method)" where
  "table_methods table = map_of (map (\<lambda>t. (mt_method t, entry_method t)) table)"

lemma table_methods_Nil [simp]: "table_methods [] = Map.empty"
  by (simp add: table_methods_def)

lemma table_methods_Cons: "table_methods (t # table) = (table_methods table)(mt_method t \<mapsto> entry_method t)"
  by (simp add: table_methods_def)

lemma table_methods_None: "table_methods table m = None \<longleftrightarrow> m \<notin> mt_method ` set table"
  by (force simp: table_methods_def map_of_eq_None_iff image_image)

lemma table_ok_Cons:
  "table_ok (t # table) \<longleftrightarrow> mt_callback t \<noteq> Subscription_Handler \<and> length (mt_method t) < MAX_METHOD_NAME_LENGTH \<and>
     mt_method t \<notin> mt_method ` set table \<and> table_ok table"
  by (auto simp: table_ok_def)

lemma add_entry:
  "mt_method t \<notin> mt_method ` set table \<Longrightarrow>
   M(mt_method t \<mapsto> entry_method t) ++ table_methods table = M ++ table_methods (t # table)"
  using table_methods_None [of table "mt_method t"]
  by (auto simp: table_methods_Cons map_add_def fun_eq_iff split: option.split)

lemma drop_entry:
  "mt_method t \<notin> mt_method ` set table \<Longrightarrow> M (mt_method t) = None \<Longrightarrow>
   (M ++ table_methods (t # table))(mt_method t := None) = M ++ table_methods table"
  using table_methods_None [of table "mt_method t"]
  by (auto simp: table_methods_Cons map_add_def fun_eq_iff split: option.split)

lemma methods_finite:
  assumes "registry_wf E s" and "abs_reg s n = Some a"
  shows "finite (dom (ao_methods a))"
proof -
  from assms(2) obtain p where "reg_find s n = Some p" by (auto simp: abs_reg_def)
  with assms(1) obtain ob ms where "abs_reg s n = Some (abs_object ob)" "methods ob = Some ms"
    by (rule reg_find_abs)
  with assms(2) have "ao_methods a = abs_methods ms" by (auto simp: abs_object_def)
  then show ?thesis by (simp add: abs_methods_dom)
qed

context rbus_runtime
begin

lemma register_entry:
  assumes wf: "registry_wf E s" and a: "abs_reg s n = Some a"
    and t: "mt_callback t \<noteq> Subscription_Handler" "length (mt_method t) < MAX_METHOD_NAME_LENGTH"
    and new: "ao_methods a (mt_method t) = None" and room: "card (dom (ao_methods a)) < MAX_SUPPORTED_METHODS"
  obtains s1 where "rbus_registerMethod E n (mt_method t) (mt_callback t) (mt_user_data t) s =
      Some (RTMESSAGE_BUS_SUCCESS, s1)"
    and "registry_wf E s1"
    and "abs_reg s1 = (abs_reg s)(n \<mapsto> a\<lparr>ao_methods := (ao_methods a)(mt_method t \<mapsto> entry_method t)\<rparr>)"
    and "\<forall>k q. reg_find s k = Some q \<longrightarrow> reg_find s1 k = Some q"
    and "g_mutex s1 \<longrightarrow> g_mutex s" and "server_core s1 = server_core s"
proof -
  have "reg_step E s (rbus_registerMethod E n (mt_method t) (mt_callback t) (mt_user_data t) s)
      (on_object n (spec_add_method (mt_method t) (entry_method t)) (abs_reg s))"
    using registerMethod_step [OF wf, of "mt_callback t" n "mt_user_data t" "mt_method t"] t
    by (simp add: spec_registerMethod_def entry_method_def)
  from a this show thesis
    by (rule reg_step_objectE) (use that new room in \<open>simp add: spec_add_method_def\<close>)
qed

lemma unregister_entry:
  assumes wf: "registry_wf E s" and a: "abs_reg s n = Some a" and m: "ao_methods a m \<noteq> None"
  obtains s1 where "rbus_unregisterMethod E n m s = Some (RTMESSAGE_BUS_SUCCESS, s1)" and "registry_wf E s1"
    and "abs_reg s1 = (abs_reg s)(n \<mapsto> a\<lparr>ao_methods := (ao_methods a)(m := None)\<rparr>)"
    and "g_mutex s1 \<longrightarrow> g_mutex s"
  by (rule reg_step_objectE [OF a unregisterMethod_step [OF wf, of n m, unfolded spec_unregisterMethod_def]])
    (use that m in auto)

lemma register_table_run:
  assumes "registry_wf E s" and "abs_reg s n = Some a" and "table_ok table"
    and "\<forall>t\<in>set table. ao_methods a (mt_method t) = None"
    and "card (dom (ao_methods a)) + length table \<le> MAX_SUPPORTED_METHODS"
  shows "\<exists>s1. rbus_registerMethodTable E n table s = Some (RTMESSAGE_BUS_SUCCESS, s1) \<and> registry_wf E s1 \<and>
    abs_reg s1 = (abs_reg s)(n \<mapsto> a\<lparr>ao_methods := ao_methods a ++ table_methods table\<rparr>) \<and>
    (\<forall>k q. reg_find s k = Some q \<longrightarrow> reg_find s1 k = Some q) \<and> (g_mutex s1 \<longrightarrow> g_mutex s) \<and>
    server_core s1 = server_core s"
  using assms
proof (induction table arbitrary: s a)
  case Nil
  then show ?case by (simp add: fun_upd_idem)
next
  case (Cons t table)
  note t = Cons.prems(3) [unfolded table_ok_Cons]
  have new: "ao_methods a (mt_method t) = None" and room: "card (dom (ao_methods a)) < MAX_SUPPORTED_METHODS"
    using Cons.prems(4,5) by simp_all
  let ?a = "a\<lparr>ao_methods := (ao_methods a)(mt_method t \<mapsto> entry_method t)\<rparr>"
  obtain s1 where s1: "rbus_registerMethod E n (mt_method t) (mt_callback t) (mt_user_data t) s =
      Some (RTMESSAGE_BUS_SUCCESS, s1)" "registry_wf E s1" "abs_reg s1 = (abs_reg s)(n \<mapsto> ?a)"
      "\<forall>k q. reg_find s k = Some q \<longrightarrow> reg_find s1 k = Some q"
      "g_mutex s1 \<longrightarrow> g_mutex s" "server_core s1 = server_core s"
    by (rule register_entry [OF Cons.prems(1,2) _ _ new room]) (use t in auto)
  have names: "\<forall>u\<in>set table. ao_methods ?a (mt_method u) = None" using t Cons.prems(4) by (auto simp: image_iff)
  have "card (dom (ao_methods ?a)) = Suc (card (dom (ao_methods a)))"
    using methods_finite [OF Cons.prems(1,2)] new by (simp add: card_insert_if domIff)
  with Cons.prems(5) have room': "card (dom (ao_methods ?a)) + length table \<le> MAX_SUPPORTED_METHODS" by simp
  have "\<exists>s2. rbus_registerMethodTable E n table s1 = Some (RTMESSAGE_BUS_SUCCESS, s2) \<and> registry_wf E s2 \<and>
      abs_reg s2 = (abs_reg s1)(n \<mapsto> ?a\<lparr>ao_methods := ao_methods ?a ++ table_methods table\<rparr>) \<and>
      (\<forall>k q. reg_find s1 k = Some q \<longrightarrow> reg_find s2 k = Some q) \<and> (g_mutex s2 \<longrightarrow> g_mutex s1) \<and>
      server_core s2 = server_core s1"
    by (rule Cons.IH [OF s1(2) _ _ names room']) (use s1(3) t in simp_all)
  then show ?case using s1 t by (auto simp: add_entry)
qed

lemma unregister_table_run:
  assumes "registry_wf E s" and "abs_reg s n = Some a" and "table_ok table"
    and "ao_methods a = M ++ table_methods table" and "\<forall>t\<in>set table. M (mt_method t) = None"
  shows "\<exists>s1. rbus_unregisterMethodTable E n table s = Some (RTMESSAGE_BUS_SUCCESS, s1) \<and> registry_wf E s1 \<and>
    abs_reg s1 = (abs_reg s)(n \<mapsto> a\<lparr>ao_methods := M\<rparr>) \<and> (g_mutex s1 \<longrightarrow> g_mutex s)"
  using assms
proof (induction table arbitrary: s a)
  case Nil
  then show ?case by (auto simp: fun_upd_idem)
next
  case (Cons t table)
  note t = Cons.prems(3) [unfolded table_ok_Cons]
  have some: "ao_methods a (mt_method t) \<noteq> None" using Cons.prems(4) by (simp add: table_methods_Cons map_add_def)
  obtain s1 where s1: "rbus_unregisterMethod E n (mt_method t) s = Some (RTMESSAGE_BUS_SUCCESS, s1)"
      "registry_wf E s1" "abs_reg s1 = (abs_reg s)(n \<mapsto> a\<lparr>ao_methods := (ao_methods a)(mt_method t := None)\<rparr>)"
      "g_mutex s1 \<longrightarrow> g_mutex s"
    by (rule unregister_entry [OF Cons.prems(1,2) some])
  have "(ao_methods a)(mt_method t := None) = M ++ table_methods table"
    using Cons.prems(4,5) t by (simp add: drop_entry)
  then have "\<exists>s2. rbus_unregisterMethodTable E n table s1 = Some (RTMESSAGE_BUS_SUCCESS, s2) \<and> registry_wf E s2 \<and>
      abs_reg s2 = (abs_reg s1)(n \<mapsto> a\<lparr>ao_methods := (ao_methods a)(mt_method t := None)\<rparr>\<lparr>ao_methods := M\<rparr>) \<and>
      (g_mutex s2 \<longrightarrow> g_mutex s1)"
    using s1(3) t Cons.prems(5) by (intro Cons.IH [OF s1(2)]) simp_all
  then show ?case using s1 by auto
qed

end

section \<open>Tables with refused entries\<close>

text \<open>The code of an entry when the entries \<open>pre\<close> before it have been registered.\<close>

definition entry_code ::
    "abs_registry \<Rightarrow> string \<Rightarrow> rbus_method_table_entry_t list \<Rightarrow> rbus_method_table_entry_t \<Rightarrow> rbus_error_t" where
  "entry_code A n pre t =
     (if MAX_METHOD_NAME_LENGTH \<le> length (mt_method t) then RTMESSAGE_BUS_ERROR_INVALID_PARAM
      else case A n of
        None \<Rightarrow> RTMESSAGE_BUS_ERROR_INVALID_PARAM
      | Some a \<Rightarrow>
          if MAX_SUPPORTED_METHODS \<le> card (dom (ao_methods a)) + length pre
          then RTMESSAGE_BUS_ERROR_OUT_OF_RESOURCES
          else if ao_methods a (mt_method t) \<noteq> None \<or> mt_method t \<in> mt_method ` set pre
          then RTMESSAGE_BUS_ERROR_INVALID_PARAM
          else RTMESSAGE_BUS_SUCCESS)"

definition all_accepted :: "abs_registry \<Rightarrow> string \<Rightarrow> rbus_method_table_entry_t list \<Rightarrow> bool" where
  "all_accepted A n pre \<longleftrightarrow>
     (\<forall>i<length pre. entry_code A n (take i pre) (pre ! i) = RTMESSAGE_BUS_SUCCESS)"

definition with_methods :: "abs_registry \<Rightarrow> string \<Rightarrow> rbus_method_table_entry_t list \<Rightarrow> abs_registry" where
  "with_methods A n pre =
     (case A n of None \<Rightarrow> A
      | Some a \<Rightarrow> A(n \<mapsto> a\<lparr>ao_methods := ao_methods a ++ table_methods pre\<rparr>))"

lemma with_methods_Nil [simp]: "with_methods A n [] = A"
  by (auto simp: with_methods_def fun_upd_idem split: option.split)

lemma all_accepted_Nil [simp]: "all_accepted A n []"
  by (simp add: all_accepted_def)

lemma all_accepted_snoc:
  "all_accepted A n (pre @ [t]) \<longleftrightarrow> all_accepted A n pre \<and> entry_code A n pre t = RTMESSAGE_BUS_SUCCESS"
  by (auto simp: all_accepted_def less_Suc_eq nth_append)

lemma entry_accepted:
  assumes "entry_code A n pre t = RTMESSAGE_BUS_SUCCESS"
  obtains a where "A n = Some a" and "length (mt_method t) < MAX_METHOD_NAME_LENGTH"
    and "card (dom (ao_methods a)) + length pre < MAX_SUPPORTED_METHODS"
    and "ao_methods a (mt_method t) = None" and "mt_method t \<notin> mt_method ` set pre"
  using assms by (auto simp: entry_code_def split: if_splits option.splits)

lemma accepted_methods:
  assumes "all_accepted A n pre" and "A n = Some a"
  shows "distinct (map mt_method pre) \<and> (\<forall>t\<in>set pre. ao_methods a (mt_method t) = None)"
  using assms(1)
proof (induction pre rule: rev_induct)
  case (snoc t pre)
  then have "all_accepted A n pre" and "entry_code A n pre t = RTMESSAGE_BUS_SUCCESS"
    by (simp_all add: all_accepted_snoc)
  with snoc.IH assms(2) show ?case by (auto elim!: entry_accepted)
qed simp

lemma table_methods_dom: "dom (table_methods table) = mt_method ` set table"
  using table_methods_None by (metis (no_types, lifting) domIff set_eqI)

lemma accepted_card:
  assumes "all_accepted A n pre" and "A n = Some a" and "finite (dom (ao_methods a))"
  shows "card (dom (ao_methods a ++ table_methods pre)) = card (dom (ao_methods a)) + length pre"
proof -
  have d: "distinct (map mt_method pre)" "mt_method ` set pre \<inter> dom (ao_methods a) = {}"
    using accepted_methods [OF assms(1,2)] by auto
  have "card (mt_method ` set pre) = length pre"
    using distinct_card [OF d(1)] by simp
  then show ?thesis using d(2) assms(3) by (simp add: table_methods_dom card_Un_disjoint)
qed

lemma table_methods_snoc:
  "mt_method t \<notin> mt_method ` set pre \<Longrightarrow>
   M ++ table_methods (pre @ [t]) = (M ++ table_methods pre)(mt_method t \<mapsto> entry_method t)"
  using table_methods_None [of pre "mt_method t"]
  by (auto simp: table_methods_def map_add_def fun_eq_iff split: option.split)

context rbus_runtime
begin

text \<open>One more entry after accepted ones: its code, and the registry with it or as it was.\<close>

lemma next_entry:
  assumes wf: "registry_wf E s" and fin: "\<And>a. A n = Some a \<Longrightarrow> finite (dom (ao_methods a))"
    and pre: "all_accepted A n pre" and s: "abs_reg s = with_methods A n pre"
    and app: "mt_callback t \<noteq> Subscription_Handler"
  obtains s' where "rbus_registerMethod E n (mt_method t) (mt_callback t) (mt_user_data t) s =
      Some (entry_code A n pre t, s')" and "registry_wf E s'"
    and "abs_reg s' = with_methods A n (if entry_code A n pre t = RTMESSAGE_BUS_SUCCESS then pre @ [t] else pre)"
proof -
  have step: "reg_step E s (rbus_registerMethod E n (mt_method t) (mt_callback t) (mt_user_data t) s)
      (spec_registerMethod n (mt_method t) (entry_method t) (abs_reg s))"
    using registerMethod_step [OF wf, of "mt_callback t" n "mt_user_data t" "mt_method t"] app
    by (simp add: entry_method_def)
  have "spec_registerMethod n (mt_method t) (entry_method t) (abs_reg s) =
      (entry_code A n pre t,
       with_methods A n (if entry_code A n pre t = RTMESSAGE_BUS_SUCCESS then pre @ [t] else pre))"
  proof (cases "A n")
    case None
    then show ?thesis
      by (simp add: s with_methods_def spec_registerMethod_def on_object_def entry_code_def)
  next
    case (Some a)
    let ?M = "ao_methods a ++ table_methods pre"
    have card: "card (dom ?M) = card (dom (ao_methods a)) + length pre"
      using accepted_card [OF pre Some fin [OF Some]] .
    have dup: "?M (mt_method t) \<noteq> None \<longleftrightarrow> ao_methods a (mt_method t) \<noteq> None \<or> mt_method t \<in> mt_method ` set pre"
      using table_methods_None [of pre "mt_method t"] by (auto simp: map_add_None simp del: not_None_eq)
    have "mt_method t \<notin> mt_method ` set pre \<Longrightarrow>
        ao_methods a ++ table_methods (pre @ [t]) = ?M(mt_method t \<mapsto> entry_method t)"
      by (rule table_methods_snoc)
    with Some card dup show ?thesis
      by (simp add: s with_methods_def spec_registerMethod_def on_object_def entry_code_def spec_add_method_def
          del: not_None_eq dom_map_add map_add_None)
  qed
  with step that show thesis by (auto simp: reg_step_def)
qed

lemma table_append:
  "rbus_registerMethodTable E n pre s = Some (RTMESSAGE_BUS_SUCCESS, s1) \<Longrightarrow>
   rbus_registerMethodTable E n (pre @ post) s = rbus_registerMethodTable E n post s1"
  by (induction pre arbitrary: s) (auto split: Option.bind_splits if_splits)

lemma accepted_table_run:
  assumes wf: "registry_wf E s" and pre: "all_accepted (abs_reg s) n pre"
    and app: "\<forall>t\<in>set pre. mt_callback t \<noteq> Subscription_Handler"
  shows "\<exists>s'. rbus_registerMethodTable E n pre s = Some (RTMESSAGE_BUS_SUCCESS, s') \<and> registry_wf E s' \<and>
    abs_reg s' = with_methods (abs_reg s) n pre"
  using pre app
proof (induction pre rule: rev_induct)
  case (snoc t pre)
  from snoc.prems(1) have ok: "all_accepted (abs_reg s) n pre" "entry_code (abs_reg s) n pre t = RTMESSAGE_BUS_SUCCESS"
    by (simp_all add: all_accepted_snoc)
  with snoc.IH snoc.prems(2) obtain s1 where s1: "rbus_registerMethodTable E n pre s = Some (RTMESSAGE_BUS_SUCCESS, s1)"
    "registry_wf E s1" "abs_reg s1 = with_methods (abs_reg s) n pre" by auto
  have app: "mt_callback t \<noteq> Subscription_Handler" using snoc.prems(2) by simp
  obtain s2 where
    "rbus_registerMethod E n (mt_method t) (mt_callback t) (mt_user_data t) s1 = Some (RTMESSAGE_BUS_SUCCESS, s2)"
    "registry_wf E s2" "abs_reg s2 = with_methods (abs_reg s) n (pre @ [t])"
    by (rule next_entry [OF s1(2) methods_finite [OF wf] ok(1) s1(3) app]) (auto simp: ok(2))
  then show ?case by (simp add: table_append [OF s1(1)])
qed (simp add: wf)

end

section \<open>Properties\<close>

text \<open>
  C19. A method table whose entries have new, distinct names within the limits and fit the object is registered as a whole:
  the object has its old methods and the table's, nothing else of the registry changes, and
  unregistering the same table restores the registry.
\<close>

theorem method_table_roundtrip:
  assumes "rbus_runtime E" and "registry_wf E s" and "abs_reg s n = Some a" and "table_ok table"
    and "\<forall>t\<in>set table. ao_methods a (mt_method t) = None"
    and "card (dom (ao_methods a)) + length table \<le> MAX_SUPPORTED_METHODS" and "\<not> g_mutex s"
  shows "\<exists>s1 s2. rbus_registerMethodTable E n table s = Some (RTMESSAGE_BUS_SUCCESS, s1) \<and>
    abs_reg s1 = (abs_reg s)(n \<mapsto> a\<lparr>ao_methods := ao_methods a ++ table_methods table\<rparr>) \<and>
    rbus_unregisterMethodTable E n table s1 = Some (RTMESSAGE_BUS_SUCCESS, s2) \<and>
    abs_reg s2 = abs_reg s \<and> registry_wf E s2 \<and> \<not> g_mutex s2"
proof -
  let ?a = "a\<lparr>ao_methods := ao_methods a ++ table_methods table\<rparr>"
  obtain s1 where s1: "rbus_registerMethodTable E n table s = Some (RTMESSAGE_BUS_SUCCESS, s1)" "registry_wf E s1"
      "abs_reg s1 = (abs_reg s)(n \<mapsto> ?a)" "g_mutex s1 \<longrightarrow> g_mutex s"
    using rbus_runtime.register_table_run [OF assms(1-6)] by blast
  have "\<exists>s2. rbus_unregisterMethodTable E n table s1 = Some (RTMESSAGE_BUS_SUCCESS, s2) \<and> registry_wf E s2 \<and>
      abs_reg s2 = (abs_reg s1)(n \<mapsto> ?a\<lparr>ao_methods := ao_methods a\<rparr>) \<and> (g_mutex s2 \<longrightarrow> g_mutex s1)"
    using s1(3) assms(4,5) by (intro rbus_runtime.unregister_table_run [OF assms(1) s1(2)]) simp_all
  then show ?thesis using s1 assms(3,7) by (auto simp: fun_upd_idem)
qed

text \<open>
  C38. A table registration is not undone when it fails.  For every table of the application's callbacks, whatever
  the names and whether the object exists: the entries are registered in order up to the first one that is
  refused (name too long, no object, object full, name taken by the object or by an earlier entry), its code is
  returned, the entries before it stay registered and nothing else of the registry changes; with
  no refused entry the whole table is registered.
\<close>

theorem method_table_keeps_prefix:
  assumes "rbus_runtime E" and "registry_wf E s" and "\<forall>t\<in>set table. mt_callback t \<noteq> Subscription_Handler"
  shows "\<exists>k c s'. k \<le> length table \<and> rbus_registerMethodTable E n table s = Some (c, s') \<and>
    all_accepted (abs_reg s) n (take k table) \<and> abs_reg s' = with_methods (abs_reg s) n (take k table) \<and>
    c = (if k = length table then RTMESSAGE_BUS_SUCCESS else entry_code (abs_reg s) n (take k table) (table ! k)) \<and>
    (c = RTMESSAGE_BUS_SUCCESS) = (k = length table)"
proof (cases "all_accepted (abs_reg s) n table")
  case True
  from rbus_runtime.accepted_table_run [OF assms(1,2) True assms(3)] True
  show ?thesis by (intro exI [of _ "length table"]) auto
next
  case False
  let ?A = "abs_reg s"
  define k where "k = (LEAST k. k < length table \<and> entry_code ?A n (take k table) (table ! k) \<noteq> RTMESSAGE_BUS_SUCCESS)"
  from False have "\<exists>k. k < length table \<and> entry_code ?A n (take k table) (table ! k) \<noteq> RTMESSAGE_BUS_SUCCESS"
    by (auto simp: all_accepted_def)
  then have k: "k < length table" "entry_code ?A n (take k table) (table ! k) \<noteq> RTMESSAGE_BUS_SUCCESS"
    unfolding k_def by (metis (mono_tags, lifting) LeastI_ex)+
  have "entry_code ?A n (take i table) (table ! i) = RTMESSAGE_BUS_SUCCESS" if "i < k" for i
    using that not_less_Least [of i "\<lambda>k. k < length table \<and> entry_code ?A n (take k table) (table ! k) \<noteq> RTMESSAGE_BUS_SUCCESS"]
      k(1) unfolding k_def by auto
  then have pre: "all_accepted ?A n (take k table)" using k(1) by (simp add: all_accepted_def min_absorb1)
  have app: "\<forall>t\<in>set (take k table). mt_callback t \<noteq> Subscription_Handler" "mt_callback (table ! k) \<noteq> Subscription_Handler"
    using assms(3) k(1) by (auto dest: in_set_takeD)
  from rbus_runtime.accepted_table_run [OF assms(1,2) pre app(1)] obtain s1 where
    s1: "rbus_registerMethodTable E n (take k table) s = Some (RTMESSAGE_BUS_SUCCESS, s1)" "registry_wf E s1"
      "abs_reg s1 = with_methods ?A n (take k table)" by blast
  obtain s2 where
    s2: "rbus_registerMethod E n (mt_method (table ! k)) (mt_callback (table ! k)) (mt_user_data (table ! k)) s1 =
      Some (entry_code ?A n (take k table) (table ! k), s2)" "abs_reg s2 = with_methods ?A n (take k table)"
    by (rule rbus_runtime.next_entry [OF assms(1) s1(2) methods_finite [OF assms(2)] pre s1(3) app(2)]) (auto simp: k(2))
  have "rbus_registerMethodTable E n (take k table @ table ! k # drop (Suc k) table) s =
      Some (entry_code ?A n (take k table) (table ! k), s2)"
    using rbus_runtime.table_append [OF assms(1) s1(1)] s2(1) k(2) by simp
  with k pre s2(2) show ?thesis
    by (intro exI [of _ k] exI [of _ "entry_code ?A n (take k table) (table ! k)"] exI [of _ s2])
      (simp add: id_take_nth_drop [symmetric])
qed

definition table_entry :: "string \<Rightarrow> fnptr \<Rightarrow> rbus_method_table_entry_t" where
  "table_entry m f = \<lparr>mt_method = m, mt_user_data = UD_NULL, mt_callback = App_Callback f\<rparr>"

lemma service_methods: "ao_methods (abs_object service_object) = [''get'' \<mapsto> AM_App 2 (UD_App 5)]"
  by (auto simp: abs_object_def service_object_def abs_methods_def table_map_def fun_eq_iff)

theorem method_table_roundtrip_witness:
  "\<exists>s1 s2. rbus_registerMethodTable (std_runtime calm_world) ''obj'' [table_entry ''set'' 3, table_entry ''del'' 4]
      service_state = Some (RTMESSAGE_BUS_SUCCESS, s1) \<and>
    map_option (\<lambda>ob. ao_methods ob ''del'') (abs_reg s1 ''obj'') = Some (Some (AM_App 4 UD_NULL)) \<and>
    rbus_unregisterMethodTable (std_runtime calm_world) ''obj'' [table_entry ''set'' 3, table_entry ''del'' 4] s1 =
      Some (RTMESSAGE_BUS_SUCCESS, s2) \<and> abs_reg s2 = abs_reg service_state"
proof -
  let ?t = "[table_entry ''set'' 3, table_entry ''del'' 4]"
  have "table_ok ?t" "\<forall>t\<in>set ?t. ao_methods (abs_object service_object) (mt_method t) = None"
    "card (dom (ao_methods (abs_object service_object))) + length ?t \<le> MAX_SUPPORTED_METHODS" "\<not> g_mutex service_state"
    by (simp_all add: table_ok_def table_entry_def service_methods MAX_METHOD_NAME_LENGTH_def MAX_SUPPORTED_METHODS_def
        service_state_def ready_state_def initial_state_def)
  from method_table_roundtrip [OF std_rbus_runtime [of calm_world] service_state_facts(1,4) this]
  show ?thesis by (auto simp: table_methods_def table_entry_def entry_method_def)
qed

theorem method_table_keeps_prefix_witness:
  "\<exists>s'. rbus_registerMethodTable (std_runtime calm_world) ''obj''
      [table_entry ''set'' 3, table_entry ''set'' 4, table_entry ''del'' 5] service_state =
      Some (RTMESSAGE_BUS_ERROR_INVALID_PARAM, s') \<and>
    map_option (\<lambda>ob. ao_methods ob ''set'') (abs_reg s' ''obj'') = Some (Some (AM_App 3 UD_NULL)) \<and>
    map_option (\<lambda>ob. ao_methods ob ''del'') (abs_reg s' ''obj'') = Some None"
proof -
  let ?t = "[table_entry ''set'' 3, table_entry ''set'' 4, table_entry ''del'' 5]" and ?A = "abs_reg service_state"
  have a: "?A ''obj'' = Some (abs_object service_object)" by (rule service_state_facts)
  have 0: "entry_code ?A ''obj'' [] (?t ! 0) = RTMESSAGE_BUS_SUCCESS"
    and 1: "entry_code ?A ''obj'' [?t ! 0] (?t ! 1) = RTMESSAGE_BUS_ERROR_INVALID_PARAM"
    by (simp_all add: entry_code_def a table_entry_def service_methods MAX_METHOD_NAME_LENGTH_def MAX_SUPPORTED_METHODS_def)
  have "\<forall>t\<in>set ?t. mt_callback t \<noteq> Subscription_Handler" by (simp add: table_entry_def)
  from method_table_keeps_prefix [OF std_rbus_runtime [of calm_world] service_state_facts(1) this, of "''obj''"]
  obtain k c s' where k: "k \<le> 3" "rbus_registerMethodTable (std_runtime calm_world) ''obj'' ?t service_state = Some (c, s')"
    "all_accepted ?A ''obj'' (take k ?t)" "abs_reg s' = with_methods ?A ''obj'' (take k ?t)"
    "c = (if k = 3 then RTMESSAGE_BUS_SUCCESS else entry_code ?A ''obj'' (take k ?t) (?t ! k))"
    "(c = RTMESSAGE_BUS_SUCCESS) = (k = 3)"
    by (auto simp: numeral_3_eq_3)
  have "k \<noteq> 0"
  proof
    assume "k = 0"
    with k(5,6) 0 show False by simp
  qed
  moreover have "\<not> 1 < k"
  proof
    assume "1 < k"
    then have "1 < length (take k ?t)" by simp
    from k(3) [unfolded all_accepted_def, rule_format, OF this]
    have "entry_code ?A ''obj'' (take 1 (take k ?t)) (take k ?t ! 1) = RTMESSAGE_BUS_SUCCESS" .
    moreover have "take 1 (take k ?t) = [?t ! 0]" "take k ?t ! 1 = ?t ! 1"
      using \<open>1 < k\<close> by (simp_all add: take_Cons' nth_Cons')
    ultimately show False using 1 by simp
  qed
  ultimately have "k = 1" by simp
  with k 1 show ?thesis
    by (auto simp: with_methods_def a table_methods_def table_entry_def entry_method_def service_methods)
qed

end
