(* ===== verification/Session_Manager.thy ===== *)
theory Session_Manager
  imports Rbus_Connection Rbus_Tables
begin

text \<open>
  \<open>rbus-core/session_manager/session_manager.c\<close>: the process that hands out session ids.  Its
  three RPC handlers work on two global integers; \<open>main\<close> connects, registers one object and
  its method table, and waits.
\<close>

record session_state =
  g_counter :: int
  g_current_session_id :: int

definition session_init :: session_state where
  "session_init = \<lparr>g_counter = 0, g_current_session_id = 0\<rparr>"

definition RBUS_SMGR_DESTINATION_NAME :: string where
  "RBUS_SMGR_DESTINATION_NAME = ''_rbus_session_mgr''"
definition RBUS_SMGR_METHOD_GET_CURRENT_SESSION_ID :: string where
  "RBUS_SMGR_METHOD_GET_CURRENT_SESSION_ID = ''get_curr_s''"
definition RBUS_SMGR_METHOD_REQUEST_SESSION_ID :: string where
  "RBUS_SMGR_METHOD_REQUEST_SESSION_ID = ''req_new_s''"
definition RBUS_SMGR_METHOD_END_SESSION :: string where
  "RBUS_SMGR_METHOD_END_SESSION = ''end_of_s''"

section \<open>The handlers\<close>

text \<open>
  A handler takes the request and the state and gives the response and the new state; its
  return value is always 0.  \<open>++g_counter\<close> beyond \<open>INT_MAX\<close> is undefined behaviour.
\<close>

definition request_session_id ::
    "runtime \<Rightarrow> session_state \<Rightarrow> (rbusMessage \<times> session_state) option" where
  "request_session_id E st =
     (if g_current_session_id st = 0 then
        if g_counter st = 2 ^ 31 - 1 then None
        else do {
          let n = g_counter st + 1;
          (_, m1) \<leftarrow> rbusMessage_SetInt32 (mp E) rbusMessage_Init (error_int32 RTMESSAGE_BUS_SUCCESS);
          (_, m2) \<leftarrow> rbusMessage_SetInt32 (mp E) m1 (of_int n);
          Some (m2, st\<lparr>g_counter := n, g_current_session_id := n\<rparr>)
        }
      else do {
        (_, m1) \<leftarrow> rbusMessage_SetInt32 (mp E) rbusMessage_Init (error_int32 RTMESSAGE_BUS_ERROR_INVALID_STATE);
        Some (m1, st)
      })"

definition get_session_id :: "runtime \<Rightarrow> session_state \<Rightarrow> (rbusMessage \<times> session_state) option" where
  "get_session_id E st = do {
     (_, m1) \<leftarrow> rbusMessage_SetInt32 (mp E) rbusMessage_Init (error_int32 RTMESSAGE_BUS_SUCCESS);
     (_, m2) \<leftarrow> rbusMessage_SetInt32 (mp E) m1 (of_int (g_current_session_id st));
     Some (m2, st)
   }"

definition end_session ::
    "runtime \<Rightarrow> rbusMessage \<Rightarrow> session_state \<Rightarrow> (rbusMessage \<times> session_state) option" where
  "end_session E req st =
     (let (result, st') =
        (case rbusMessage_GetInt32 (mp E) req of (err, v, _) \<Rightarrow>
           let sessionid = (case v of None \<Rightarrow> 0 | Some w \<Rightarrow> sint w)
           in if err = RT_OK
              then (if sessionid = g_current_session_id st
                    then (RTMESSAGE_BUS_SUCCESS, st\<lparr>g_current_session_id := 0\<rparr>)
                    else (RTMESSAGE_BUS_ERROR_INVALID_STATE, st))
              else (RTMESSAGE_BUS_ERROR_INVALID_PARAM, st))
      in do {
        (_, m) \<leftarrow> rbusMessage_SetInt32 (mp E) rbusMessage_Init (error_int32 result);
        Some (m, st')
      })"

section \<open>The main program\<close>

text \<open>The application's function pointers, in the order the source defines them.\<close>

definition fn_request_session_id :: fnptr where "fn_request_session_id = 0"
definition fn_get_session_id :: fnptr where "fn_get_session_id = 1"
definition fn_end_session :: fnptr where "fn_end_session = 2"
definition fn_callback :: fnptr where "fn_callback = 3"

definition session_table :: "rbus_method_table_entry_t list" where
  "session_table =
     [\<lparr>mt_method = RBUS_SMGR_METHOD_GET_CURRENT_SESSION_ID, mt_user_data = UD_NULL,
       mt_callback = App_Callback fn_get_session_id\<rparr>,
      \<lparr>mt_method = RBUS_SMGR_METHOD_REQUEST_SESSION_ID, mt_user_data = UD_NULL,
       mt_callback = App_Callback fn_request_session_id\<rparr>,
      \<lparr>mt_method = RBUS_SMGR_METHOD_END_SESSION, mt_user_data = UD_NULL,
       mt_callback = App_Callback fn_end_session\<rparr>]"

text \<open>The loop that connects, with fuel: \<open>None\<close> is out of fuel, \<open>Some None\<close> undefined.\<close>

fun connect_loop :: "nat \<Rightarrow> runtime \<Rightarrow> rbus_state \<Rightarrow> rbus_state option option" where
  "connect_loop 0 E s = None"
| "connect_loop (Suc fuel) E s =
     (case rbus_openBrokerConnection E (Some RBUS_SMGR_DESTINATION_NAME) s of
        None \<Rightarrow> Some None
      | Some (err, s1) \<Rightarrow>
          if err = RTMESSAGE_BUS_SUCCESS then Some (Some s1) else connect_loop fuel E s1)"

text \<open>From the connection to \<open>pause()\<close>: the results of the two registrations are ignored.\<close>

definition session_setup :: "runtime \<Rightarrow> rbus_state \<Rightarrow> rbus_state option" where
  "session_setup E s = do {
     (_, s1) \<leftarrow> rbus_registerObj E (Some RBUS_SMGR_DESTINATION_NAME) (App_Callback fn_callback) UD_NULL s;
     (_, s2) \<leftarrow> rbus_registerMethodTable E RBUS_SMGR_DESTINATION_NAME session_table s1;
     Some s2
   }"

definition session_main :: "nat \<Rightarrow> runtime \<Rightarrow> rbus_state \<Rightarrow> rbus_state option option" where
  "session_main fuel E s =
     (case connect_loop fuel E s of
        None \<Rightarrow> None
      | Some None \<Rightarrow> Some None
      | Some (Some s1) \<Rightarrow> Some (session_setup E s1))"

section \<open>Runs of the session manager\<close>

text \<open>What a client reads from a response: the result code and, if there is one, an id.\<close>

definition answer_ints :: "msgpack \<Rightarrow> rbusMessage \<Rightarrow> int32 option \<times> int32 option" where
  "answer_ints M m =
     (case rbusMessage_GetInt32 M (rbusMessage_FromBytes M (sbuf m)) of (_, code, m1) \<Rightarrow>
        (case rbusMessage_GetInt32 M m1 of (_, v, _) \<Rightarrow> (code, v)))"

text \<open>A run is a sequence of handled requests, each with its response (and the request, for an end of session).\<close>

datatype session_event =
    Requested rbusMessage
  | Queried rbusMessage
  | Ended rbusMessage rbusMessage

inductive session_run :: "runtime \<Rightarrow> session_state \<Rightarrow> session_event list \<Rightarrow> session_state \<Rightarrow> bool" for E st where
  start: "session_run E st [] st"
| request: "session_run E st tr st1 \<Longrightarrow> request_session_id E st1 = Some (m, st2) \<Longrightarrow>
    session_run E st (tr @ [Requested m]) st2"
| query: "session_run E st tr st1 \<Longrightarrow> get_session_id E st1 = Some (m, st2) \<Longrightarrow>
    session_run E st (tr @ [Queried m]) st2"
| finish: "session_run E st tr st1 \<Longrightarrow> end_session E req st1 = Some (m, st2) \<Longrightarrow>
    session_run E st (tr @ [Ended req m]) st2"

text \<open>The id a response grants, and the id a request has ended.\<close>

fun granted :: "msgpack \<Rightarrow> session_event \<Rightarrow> int list" where
  "granted M (Requested m) =
     (case answer_ints M m of (Some c, Some v) \<Rightarrow> if c = 0 then [sint v] else [] | _ \<Rightarrow> [])"
| "granted M _ = []"

fun ended :: "msgpack \<Rightarrow> session_event \<Rightarrow> int option" where
  "ended M (Ended req m) =
     (case (rbusMessage_GetInt32 M req, answer_ints M m) of ((_, v, _), (c, _)) \<Rightarrow>
        if c = Some 0 then map_option sint v else None)"
| "ended M _ = None"

definition granted_ids :: "msgpack \<Rightarrow> session_event list \<Rightarrow> int list" where
  "granted_ids M tr = concat (map (granted M) tr)"

lemma granted_ids_simps [simp]:
  "granted_ids M [] = []" "granted_ids M (tr @ [ev]) = granted_ids M tr @ granted M ev"
  by (simp_all add: granted_ids_def)

lemma sint_small:
  assumes "- (2 ^ 31) \<le> k" and "k < 2 ^ 31"
  shows "sint (of_int k :: int32) = k"
  using assms by (simp only: signed_of_int) (simp add: signed_take_bit_int_eq_self)

context rbus_runtime
begin

lemma set_int32:
  "pk m \<Longrightarrow> rbusMessage_SetInt32 (mp E) m w = Some (RT_OK, m\<lparr>sbuf := sbuf m @ enc_int32 (mp E) w\<rparr>)"
  using put_field_appends [of m "F_Int32 w"] by simp

lemma get_int32:
  assumes "sbuf m = pre @ enc_int32 (mp E) w @ post" and "read_offset m = length pre"
  shows "rbusMessage_GetInt32 (mp E) m = (RT_OK, Some w, m\<lparr>read_offset := length pre + length (enc_int32 (mp E) w)\<rparr>)"
proof -
  have "get_field (mp E) m (F_Int32 w) =
      (RT_OK, Some (F_Int32 w), m\<lparr>read_offset := length pre + length (enc_int32 (mp E) w)\<rparr>)"
    using get_field_reads [of m pre "F_Int32 w" post] assms by simp
  then show ?thesis by (auto simp: rbusMessage_GetInt32_def verify_unpack_def split: prod.splits option.splits)
qed

lemma FromBytes_start: "sbuf (rbusMessage_FromBytes (mp E) b) = b" "read_offset (rbusMessage_FromBytes (mp E) b) = 0"
  using FromBytes_sbuf by (simp_all add: rbusMessage_FromBytes_def)

lemma answer_code: "sbuf m = enc_int32 (mp E) c @ rest \<Longrightarrow> fst (answer_ints (mp E) m) = Some c"
  using get_int32 [of "rbusMessage_FromBytes (mp E) (sbuf m)" "[]" c rest]
  by (simp add: answer_ints_def FromBytes_start split: prod.splits)

lemma answer_pair:
  assumes "sbuf m = enc_int32 (mp E) c @ enc_int32 (mp E) v"
  shows "answer_ints (mp E) m = (Some c, Some v)"
proof -
  let ?m = "rbusMessage_FromBytes (mp E) (sbuf m)"
  have 1: "rbusMessage_GetInt32 (mp E) ?m = (RT_OK, Some c, ?m\<lparr>read_offset := length (enc_int32 (mp E) c)\<rparr>)"
    using get_int32 [of ?m "[]" c "enc_int32 (mp E) v"] assms by (simp add: FromBytes_start)
  have "rbusMessage_GetInt32 (mp E) (?m\<lparr>read_offset := length (enc_int32 (mp E) c)\<rparr>) =
      (RT_OK, Some v, ?m\<lparr>read_offset := length (enc_int32 (mp E) c) + length (enc_int32 (mp E) v)\<rparr>)"
    using get_int32 [of "?m\<lparr>read_offset := length (enc_int32 (mp E) c)\<rparr>" "enc_int32 (mp E) c" v "[]"] assms
    by (simp add: FromBytes_start)
  with 1 show ?thesis by (simp add: answer_ints_def)
qed

lemma error_int32_codes: "error_int32 RTMESSAGE_BUS_SUCCESS = 0" "error_int32 RTMESSAGE_BUS_ERROR_INVALID_STATE \<noteq> 0"
  "error_int32 RTMESSAGE_BUS_ERROR_INVALID_PARAM \<noteq> 0"
  by (simp_all add: error_int32_def)

text \<open>The handlers, branch by branch.\<close>

lemma request_granted:
  assumes "g_current_session_id st = 0" and "0 \<le> g_counter st" and "g_counter st < 2 ^ 31 - 1"
  obtains m where "request_session_id E st = Some (m, st\<lparr>g_counter := g_counter st + 1, g_current_session_id := g_counter st + 1\<rparr>)"
    and "answer_ints (mp E) m = (Some 0, Some (of_int (g_counter st + 1)))"
    and "granted (mp E) (Requested m) = [g_counter st + 1]"
proof -
  let ?m = "rbusMessage_Init\<lparr>sbuf := enc_int32 (mp E) 0 @ enc_int32 (mp E) (of_int (g_counter st + 1))\<rparr>"
  have run: "request_session_id E st = Some (?m, st\<lparr>g_counter := g_counter st + 1, g_current_session_id := g_counter st + 1\<rparr>)"
    using assms by (simp add: request_session_id_def set_int32 rbusMessage_Init_def error_int32_codes Let_def)
  have ans: "answer_ints (mp E) ?m = (Some 0, Some (of_int (g_counter st + 1)))" by (rule answer_pair) simp
  have "sint (of_int (g_counter st + 1) :: int32) = g_counter st + 1"
    using assms(2,3) by (intro sint_small) simp_all
  then have "granted (mp E) (Requested ?m) = [g_counter st + 1]" using ans by simp
  then show thesis by (rule that [OF run ans])
qed

lemma request_refused:
  assumes "g_current_session_id st \<noteq> 0"
  obtains m where "request_session_id E st = Some (m, st)"
    and "fst (answer_ints (mp E) m) = Some (error_int32 RTMESSAGE_BUS_ERROR_INVALID_STATE)"
    and "granted (mp E) (Requested m) = []"
proof -
  let ?m = "rbusMessage_Init\<lparr>sbuf := enc_int32 (mp E) (error_int32 RTMESSAGE_BUS_ERROR_INVALID_STATE)\<rparr>"
  have run: "request_session_id E st = Some (?m, st)"
    using assms by (simp add: request_session_id_def set_int32 rbusMessage_Init_def)
  have ans: "fst (answer_ints (mp E) ?m) = Some (error_int32 RTMESSAGE_BUS_ERROR_INVALID_STATE)"
    by (rule answer_code [where rest = "[]"]) simp
  then have "granted (mp E) (Requested ?m) = []" using error_int32_codes(2) by (auto split: prod.split option.split)
  then show thesis by (rule that [OF run ans])
qed

lemma request_overflows:
  "g_current_session_id st = 0 \<Longrightarrow> g_counter st = 2 ^ 31 - 1 \<Longrightarrow> request_session_id E st = None"
  by (simp add: request_session_id_def)

lemma get_session:
  obtains m where "get_session_id E st = Some (m, st)"
    and "answer_ints (mp E) m = (Some 0, Some (of_int (g_current_session_id st)))"
proof -
  let ?m = "rbusMessage_Init\<lparr>sbuf := enc_int32 (mp E) 0 @ enc_int32 (mp E) (of_int (g_current_session_id st))\<rparr>"
  have "get_session_id E st = Some (?m, st)"
    by (simp add: get_session_id_def set_int32 rbusMessage_Init_def error_int32_codes)
  then show thesis using that answer_pair [of ?m 0] by simp
qed

lemma get_int32_ok:
  assumes "rbusMessage_GetInt32 (mp E) m = (err, v, m')"
  shows "err = RT_OK \<longleftrightarrow> v \<noteq> None"
  using assms by (auto simp: rbusMessage_GetInt32_def verify_unpack_def split: prod.splits option.splits)

lemma end_session_run:
  assumes "rbusMessage_GetInt32 (mp E) req = (e, v, req')"
  obtains m where "end_session E req st = Some (m, case v of
      Some w \<Rightarrow> if sint w = g_current_session_id st then st\<lparr>g_current_session_id := 0\<rparr> else st | None \<Rightarrow> st)"
    and "fst (answer_ints (mp E) m) = Some (error_int32 (case v of
      Some w \<Rightarrow> if sint w = g_current_session_id st then RTMESSAGE_BUS_SUCCESS else RTMESSAGE_BUS_ERROR_INVALID_STATE
    | None \<Rightarrow> RTMESSAGE_BUS_ERROR_INVALID_PARAM))"
proof -
  let ?c = "case v of
      Some w \<Rightarrow> if sint w = g_current_session_id st then RTMESSAGE_BUS_SUCCESS else RTMESSAGE_BUS_ERROR_INVALID_STATE
    | None \<Rightarrow> RTMESSAGE_BUS_ERROR_INVALID_PARAM"
  let ?m = "rbusMessage_Init\<lparr>sbuf := enc_int32 (mp E) (error_int32 ?c)\<rparr>"
  have "end_session E req st = Some (?m, case v of
      Some w \<Rightarrow> if sint w = g_current_session_id st then st\<lparr>g_current_session_id := 0\<rparr> else st | None \<Rightarrow> st)"
    using assms get_int32_ok [of req]
    by (cases v) (auto simp: end_session_def set_int32 rbusMessage_Init_def)
  moreover have "fst (answer_ints (mp E) ?m) = Some (error_int32 ?c)"
    by (rule answer_code [where rest = "[]"]) simp
  ultimately show thesis by (rule that)
qed

text \<open>The invariant, by induction over the run.\<close>

lemma session_invariant:
  assumes "session_run E session_init tr st"
  shows "0 \<le> g_counter st \<and> g_counter st < 2 ^ 31 \<and> g_current_session_id st \<in> {0, g_counter st} \<and>
    granted_ids (mp E) tr = [1..g_counter st]"
  using assms
proof induction
  case start
  show ?case by (simp add: session_init_def)
next
  case (request tr st1 m st2)
  show ?case
  proof (cases "g_current_session_id st1 = 0")
    case True
    then have lt: "g_counter st1 < 2 ^ 31 - 1"
      using request request_overflows [of st1] by (cases "g_counter st1 = 2 ^ 31 - 1") auto
    obtain m' where "request_session_id E st1 =
        Some (m', st1\<lparr>g_counter := g_counter st1 + 1, g_current_session_id := g_counter st1 + 1\<rparr>)"
        "granted (mp E) (Requested m') = [g_counter st1 + 1]"
      by (rule request_granted [OF True _ lt]) (use request.IH in auto)
    moreover have "[1..g_counter st1 + 1] = [1..g_counter st1] @ [g_counter st1 + 1]"
      using request.IH by (intro upto_rec2 [of 1 "g_counter st1 + 1", simplified]) auto
    ultimately show ?thesis using request lt by simp
  next
    case False
    obtain m' where "request_session_id E st1 = Some (m', st1)" "granted (mp E) (Requested m') = []"
      by (rule request_refused [OF False])
    then show ?thesis using request by simp
  qed
next
  case (query tr st1 m st2)
  obtain m' where "get_session_id E st1 = Some (m', st1)" by (rule get_session)
  then show ?case using query by simp
next
  case (finish tr st1 req m st2)
  obtain e v req' where g: "rbusMessage_GetInt32 (mp E) req = (e, v, req')" by (metis prod.exhaust)
  obtain m' where "end_session E req st1 = Some (m', case v of
      Some w \<Rightarrow> if sint w = g_current_session_id st1 then st1\<lparr>g_current_session_id := 0\<rparr> else st1 | None \<Rightarrow> st1)"
    by (rule end_session_run [OF g, of st1])
  then show ?case using finish by (auto split: option.splits if_splits)
qed

lemma session_kept:
  assumes "session_run E st tr st'" and "g_current_session_id st \<noteq> 0"
    and "\<forall>ev\<in>set tr. ended (mp E) ev \<noteq> Some (g_current_session_id st)"
  shows "g_current_session_id st' = g_current_session_id st \<and> granted_ids (mp E) tr = []"
  using assms(1,3)
proof induction
  case (request tr st1 m st2)
  then have "g_current_session_id st1 \<noteq> 0" using assms(2) by simp
  then obtain m' where "request_session_id E st1 = Some (m', st1)" "granted (mp E) (Requested m') = []"
    by (rule request_refused)
  then show ?case using request by simp
next
  case (query tr st1 m st2)
  obtain m' where "get_session_id E st1 = Some (m', st1)" by (rule get_session)
  then show ?case using query by simp
next
  case (finish tr st1 req m st2)
  obtain e v req' where g: "rbusMessage_GetInt32 (mp E) req = (e, v, req')" by (metis prod.exhaust)
  obtain m' where m': "end_session E req st1 = Some (m', case v of
      Some w \<Rightarrow> if sint w = g_current_session_id st1 then st1\<lparr>g_current_session_id := 0\<rparr> else st1 | None \<Rightarrow> st1)"
    "fst (answer_ints (mp E) m') = Some (error_int32 (case v of
      Some w \<Rightarrow> if sint w = g_current_session_id st1 then RTMESSAGE_BUS_SUCCESS else RTMESSAGE_BUS_ERROR_INVALID_STATE
    | None \<Rightarrow> RTMESSAGE_BUS_ERROR_INVALID_PARAM))"
    by (rule end_session_run [OF g, of st1])
  then show ?case
    using finish g error_int32_codes(1) by (auto split: option.splits if_splits prod.splits)
qed simp

end

section \<open>Connecting and serving\<close>

text \<open>A process without a connection, whose heap has free addresses.\<close>

definition unconnected :: "rbus_state \<Rightarrow> bool" where
  "unconnected s \<longleftrightarrow> g_connection s = None \<and> (\<forall>p\<ge>next_ptr s. objs s p = None) \<and> heap_fresh s"

definition session_object :: abs_object where
  "session_object = (new_object (AM_App fn_callback UD_NULL))\<lparr>ao_methods := table_methods session_table\<rparr>"

lemma session_table_ok: "table_ok session_table" "length session_table \<le> MAX_SUPPORTED_METHODS"
  by (simp_all add: table_ok_def session_table_def RBUS_SMGR_METHOD_GET_CURRENT_SESSION_ID_def
      RBUS_SMGR_METHOD_REQUEST_SESSION_ID_def RBUS_SMGR_METHOD_END_SESSION_def MAX_METHOD_NAME_LENGTH_def
      MAX_SUPPORTED_METHODS_def)

lemma new_object_methods [simp]: "ao_methods (new_object am) = Map.empty"
  by (simp add: new_object_def)

context rbus_runtime
begin

lemma connect_attempt:
  assumes "unconnected s" and "rbuscore_checkBusStatus_address E \<noteq> 3" and fits: "length n < 2 ^ 31 - 10"
  obtains (connected) s' c where "rbus_openBrokerConnection E (Some n) s = Some (RTMESSAGE_BUS_SUCCESS, s')"
      and "g_connection s' \<noteq> None" and "registry_wf E s'" and "abs_reg s' = Map.empty" and "\<not> g_mutex s'"
      and "length (io s') = Suc (length (io s))" and "rt_result E (io s) c = RT_OK"
  | (refused) s' c where "rbus_openBrokerConnection E (Some n) s = Some (RTMESSAGE_BUS_ERROR_GENERAL, s')"
      and "unconnected s'" and "length (io s') = Suc (length (io s))" and "rt_result E (io s) c \<noteq> RT_OK"
proof -
  from assms(1) have u: "g_connection s = None" "\<forall>p\<ge>next_ptr s. objs s p = None" "heap_fresh s"
    by (simp_all add: unconnected_def)
  let ?c = "Rt_Create (''rbus.'' @ n) (g_daemon_address (configure_router_address E s))"
  obtain s' where s': "rbus_openBrokerConnection2 E (Some n) None s = Some (if rt_result E (io s) ?c = RT_OK
      then RTMESSAGE_BUS_SUCCESS else RTMESSAGE_BUS_ERROR_GENERAL, s')" "io s' = io s @ [?c]" "msgs s' = msgs s"
      "\<not> g_mutex s'" "next_ptr s \<le> next_ptr s'" "\<forall>p. objs s p = None \<longrightarrow> objs s' p = None"
      "if rt_result E (io s) ?c = RT_OK then g_connection s' \<noteq> None \<and> registry_wf E s' \<and> abs_reg s' = Map.empty
       else g_connection s' = None"
    using open_connection_run [OF fits u refl refl, of None] by (auto split: if_splits)
  have run: "rbus_openBrokerConnection E (Some n) s = rbus_openBrokerConnection2 E (Some n) None s"
    using assms(2) by (simp add: rbus_openBrokerConnection_def)
  show thesis
  proof (cases "rt_result E (io s) ?c = RT_OK")
    case True
    then show thesis using s' run by (intro connected [of s' ?c]) simp_all
  next
    case False
    then have "unconnected s'" using s' u by (auto simp: unconnected_def heap_fresh_def)
    with False show thesis using s' run by (intro refused [of s' ?c]) simp_all
  qed
qed

lemma connect_loop_succeeds:
  assumes "rbuscore_checkBusStatus_address E \<noteq> 3"
    and "\<forall>t c. rt_result E t c = RT_OK \<longleftrightarrow> N \<le> length t" and "unconnected s" and "N - length (io s) < fuel"
  shows "\<exists>s'. connect_loop fuel E s = Some (Some s') \<and> g_connection s' \<noteq> None \<and> registry_wf E s' \<and>
    abs_reg s' = Map.empty \<and> \<not> g_mutex s' \<and> N \<le> length (io s')"
  using assms(3,4)
proof (induction fuel arbitrary: s)
  case (Suc fuel)
  have "length RBUS_SMGR_DESTINATION_NAME < 2 ^ 31 - 10" by (simp add: RBUS_SMGR_DESTINATION_NAME_def)
  with Suc.prems(1) assms(1) show ?case
  proof (cases rule: connect_attempt [where n = RBUS_SMGR_DESTINATION_NAME])
    case (connected s' c)
    then show ?thesis using assms(2) by simp
  next
    case (refused s' c)
    then have "length (io s) < N" using assms(2) by simp
    with Suc.prems(2) refused(3) have "N - length (io s') < fuel" by simp
    from Suc.IH [OF refused(2) this] show ?thesis using refused by auto
  qed
qed simp

lemma session_setup_run:
  assumes wf: "registry_wf E s" and empty: "abs_reg s = Map.empty" and c: "g_connection s \<noteq> None"
    and len: "length RBUS_SMGR_DESTINATION_NAME < MAX_OBJECT_NAME_LENGTH E"
    and ok: "\<And>c. rt_result E (io s) c = RT_OK" and mutex: "\<not> g_mutex s"
  shows "\<exists>s'. session_setup E s = Some s' \<and> registry_wf E s' \<and> \<not> g_mutex s' \<and> g_connection s' \<noteq> None \<and>
    abs_reg s' = [RBUS_SMGR_DESTINATION_NAME \<mapsto> session_object]"
proof -
  let ?n = RBUS_SMGR_DESTINATION_NAME and ?o = "new_object (AM_App fn_callback UD_NULL)"
  have "?n \<noteq> []" and short: "length ?n < 2 ^ 31" by (simp_all add: RBUS_SMGR_DESTINATION_NAME_def)
  then have "spec_registerObj (MAX_OBJECT_NAME_LENGTH E) (g_connection s \<noteq> None) RT_OK (Some ?n)
      (AM_App fn_callback UD_NULL) (abs_reg s) = (RTMESSAGE_BUS_SUCCESS, [?n \<mapsto> ?o])"
    using len c empty by (simp add: spec_registerObj_def)
  then obtain s1 where s1: "rbus_registerObj E (Some ?n) (App_Callback fn_callback) UD_NULL s =
      Some (RTMESSAGE_BUS_SUCCESS, s1)" "registry_wf E s1" "abs_reg s1 = [?n \<mapsto> ?o]" "\<not> g_mutex s1"
      "server_core s1 = server_core s"
    using registerObj_answer [OF wf _ refl, of "Some ?n" fn_callback UD_NULL] short ok mutex by (auto simp: reg_step_def)
  have "\<exists>s2. rbus_registerMethodTable E ?n session_table s1 = Some (RTMESSAGE_BUS_SUCCESS, s2) \<and> registry_wf E s2 \<and>
    abs_reg s2 = (abs_reg s1)(?n \<mapsto> ?o\<lparr>ao_methods := ao_methods ?o ++ table_methods session_table\<rparr>) \<and>
    (\<forall>k q. reg_find s1 k = Some q \<longrightarrow> reg_find s2 k = Some q) \<and> (g_mutex s2 \<longrightarrow> g_mutex s1) \<and>
    server_core s2 = server_core s1"
    using s1(3) session_table_ok by (intro register_table_run [OF s1(2)]) simp_all
  then show ?thesis
    using s1 c by (auto simp: session_setup_def session_object_def dest!: server_core_connection)
qed

end

section \<open>Properties\<close>

text \<open>
  C11. Session ids are never reused.  In every run of the session manager's handlers from its start the ids granted,
  in order, are 1, 2, 3 and so on up to the counter; the active session is none or the last one
  granted; the counter stays an \<open>int\<close>.
\<close>

theorem session_ids_never_reused:
  assumes "rbus_runtime E" and "session_run E session_init tr st"
  shows "granted_ids (mp E) tr = [1..g_counter st] \<and> g_current_session_id st \<in> {0, g_counter st} \<and>
    0 \<le> g_counter st \<and> g_counter st < 2 ^ 31"
  using rbus_runtime.session_invariant [OF assms] by blast

text \<open>
  C12. There is one session at a time.  While a session is active no request is granted, whatever the clients send,
  until a request ends that session: the active id stays the same.
\<close>

theorem one_session_at_a_time:
  assumes "rbus_runtime E" and "session_run E st tr st'" and "g_current_session_id st \<noteq> 0"
    and "\<forall>ev\<in>set tr. ended (mp E) ev \<noteq> Some (g_current_session_id st)"
  shows "g_current_session_id st' = g_current_session_id st \<and> granted_ids (mp E) tr = []"
  using rbus_runtime.session_kept [OF assms] .

text \<open>
  C33. The end of a session, on every branch: the active session's id ends it, another id is refused with
  \<open>INVALID_STATE\<close>, a request without an integer with \<open>INVALID_PARAM\<close>, and only the first changes the
  state.  With no session active the id 0 is accepted.
\<close>

theorem end_session_answers:
  assumes "rbus_runtime E" and "rbusMessage_GetInt32 (mp E) req = (e, v, req')"
  shows "\<exists>m st'. end_session E req st = Some (m, st') \<and>
    st' = (if map_option sint v = Some (g_current_session_id st) then st\<lparr>g_current_session_id := 0\<rparr> else st) \<and>
    fst (answer_ints (mp E) m) = Some (error_int32
      (case v of None \<Rightarrow> RTMESSAGE_BUS_ERROR_INVALID_PARAM
       | Some w \<Rightarrow> if sint w = g_current_session_id st then RTMESSAGE_BUS_SUCCESS else RTMESSAGE_BUS_ERROR_INVALID_STATE))"
  by (rule rbus_runtime.end_session_run [OF assms, of st]) (auto split: option.split)

text \<open>
  C14. The session manager comes up.  With a router that accepts its calls from the \<open>N\<close>-th on and refuses them before, the loop that
  connects ends after at most \<open>N + 1\<close> attempts, and the process serves: it is connected, the mutex is free, and
  the registry holds one object, with the three methods of the table.
\<close>

theorem session_manager_comes_up:
  assumes "rbus_runtime E" and "3 < rbuscore_checkBusStatus_address E"
    and "length RBUS_SMGR_DESTINATION_NAME < MAX_OBJECT_NAME_LENGTH E"
    and "\<forall>t c. rt_result E t c = RT_OK \<longleftrightarrow> N \<le> length t" and "unconnected s" and "N - length (io s) < fuel"
  shows "\<exists>s'. session_main fuel E s = Some (Some s') \<and> g_connection s' \<noteq> None \<and> registry_wf E s' \<and>
    \<not> g_mutex s' \<and> abs_reg s' = [RBUS_SMGR_DESTINATION_NAME \<mapsto> session_object]"
proof -
  have "rbuscore_checkBusStatus_address E \<noteq> 3" using assms(2) by simp
  then obtain s1 where s1: "connect_loop fuel E s = Some (Some s1)" "g_connection s1 \<noteq> None" "registry_wf E s1"
      "abs_reg s1 = Map.empty" "\<not> g_mutex s1" "N \<le> length (io s1)"
    using rbus_runtime.connect_loop_succeeds [OF assms(1) _ assms(4-6)] by blast
  have "rt_result E (io s1) c = RT_OK" for c using assms(4) s1(6) by simp
  from rbus_runtime.session_setup_run [OF assms(1) s1(3,4,2) assms(3) this s1(5)] s1(1)
  show ?thesis by (auto simp: session_main_def)
qed

text \<open>
  C13. A new session, end to end.  A client calls the session manager's method for a new session while none is active; the manager runs
  its handler once and answers once, and the client that gets the answer reads the code 0 and the next id.
\<close>

theorem new_session_end_to_end:
  fixes Ec Es :: runtime
  assumes "rbus_runtime Ec" and "rbus_runtime Es" and "mp Ec = M" and "mp Es = M"
    and "g_current_session_id st = 0" and "0 \<le> g_counter st" and "g_counter st < 2 ^ 31 - 1"
    and "results = [F_Int32 0, F_Int32 (of_int (g_counter st + 1))]"
    and "method_fits M [] RBUS_SMGR_METHOD_REQUEST_SESSION_ID" and "method_fits M (enc_fields M results) METHOD_RESPONSE"
    \<comment> \<open>the client\<close>
    and "g_connection cs \<noteq> None" and "length n < MAX_OBJECT_NAME_LENGTH Ec"
    and "msgs cs q = Some m" and "pk m" and "refCount m = 1" and "sbuf m = []" and "q < next_ptr cs"
    and "req = Rt_SendBinaryRequest bytes n timeout" and "bytes = method_bytes M [] RBUS_SMGR_METHOD_REQUEST_SESSION_ID"
    \<comment> \<open>the session manager\<close>
    and "registry_wf Es s" and "idle Es s" and "reg_find s n = Some p" and "abs_reg s n = Some session_object"
    and "rtMessageHeader_IsRequest Es hdr"
    and "c = App_Rpc fn_request_session_id (topic hdr) (Some RBUS_SMGR_METHOD_REQUEST_SESSION_ID)
      (rbusMessage_FromBytes M bytes) UD_NULL hdr"
    and "rt_nested Es (io s) c = []"
    and "app_response Es (io s) c = map_option (\<lambda>(m, _). sbuf m) (request_session_id Es st)"
    and "app_result Es (io s) c = 0"
  shows "\<exists>s' mi b. onMessage (Suc fuel) Es hdr bytes p s = Some (Some s') \<and>
    io s' = io s @ [App_Rpc fn_request_session_id (topic hdr) (Some RBUS_SMGR_METHOD_REQUEST_SESSION_ID) mi UD_NULL hdr,
      Rt_SendBinaryResponse hdr b 1000] \<and> b = method_bytes M (enc_fields M results) METHOD_RESPONSE \<and> abs_reg s' = abs_reg s \<and>
    (rt_result Ec (io cs) req = RT_OK \<and> rt_reply Ec (io cs) req = b \<longrightarrow>
      (\<exists>r cs' rm. rbus_invokeRemoteMethod Ec n RBUS_SMGR_METHOD_REQUEST_SESSION_ID (Some q) timeout cs =
          Some (RTMESSAGE_BUS_SUCCESS, Some r, cs') \<and>
        msgs cs' r = Some rm \<and> get_fields M rm results = Some results))"
proof -
  have "request_session_id Es st = Some (rbusMessage_Init\<lparr>sbuf := enc_fields M results\<rparr>,
      st\<lparr>g_counter := g_counter st + 1, g_current_session_id := g_counter st + 1\<rparr>)"
    using assms(4-8) rbus_runtime.set_int32 [OF assms(2)]
    by (simp add: request_session_id_def rbusMessage_Init_def error_int32_def enc_fields_def Let_def)
  then have resp: "app_response Es (io s) c = Some (enc_fields M results)" using assms(27) by simp
  have meth: "(case ao_methods session_object RBUS_SMGR_METHOD_REQUEST_SESSION_ID of None \<Rightarrow> ao_callback session_object
      | Some am \<Rightarrow> am) = AM_App fn_request_session_id UD_NULL"
    by (simp add: session_object_def table_methods_def session_table_def entry_method_def
        RBUS_SMGR_METHOD_GET_CURRENT_SESSION_ID_def RBUS_SMGR_METHOD_REQUEST_SESSION_ID_def)
  have e: "enc_fields M [] = []" "\<forall>f\<in>set ([] :: field list). field_ok f" "\<forall>f\<in>set results. field_ok f"
    "app_result Es (io s) c \<noteq> rbus_error_code RTMESSAGE_BUS_SUCCESS_ASYNC"
    using assms(8,28) by (simp_all add: enc_fields_def)
  show ?thesis
    using rpc_exchange [OF assms(1-4) e(2,3) assms(9) [folded e(1)] assms(10-15) assms(16) [folded e(1)] assms(17)
        assms(18) [unfolded assms(19), folded e(1)] assms(20-24) meth assms(25) [unfolded assms(19), folded e(1)]
        assms(26) resp e(4), of fuel] assms(19) e(1)
    by fastforce
qed

section \<open>Concrete runs\<close>

text \<open>A run with one session granted and a second request refused.\<close>

definition first_grant :: "rbusMessage \<times> session_state" where
  "first_grant = the (request_session_id (std_runtime calm_world) session_init)"

definition second_request :: "rbusMessage \<times> session_state" where
  "second_request = the (request_session_id (std_runtime calm_world) (snd first_grant))"

lemma first_grant:
  "request_session_id (std_runtime calm_world) session_init = Some first_grant"
  "snd first_grant = \<lparr>g_counter = 1, g_current_session_id = 1\<rparr>"
proof -
  obtain m where "request_session_id (std_runtime calm_world) session_init =
      Some (m, session_init\<lparr>g_counter := g_counter session_init + 1, g_current_session_id := g_counter session_init + 1\<rparr>)"
    by (rule std.request_granted [of session_init]) (simp_all add: session_init_def)
  then show "request_session_id (std_runtime calm_world) session_init = Some first_grant"
    "snd first_grant = \<lparr>g_counter = 1, g_current_session_id = 1\<rparr>"
    by (simp_all add: first_grant_def session_init_def)
qed

lemma second_request:
  "request_session_id (std_runtime calm_world) (snd first_grant) = Some second_request"
  "snd second_request = snd first_grant"
proof -
  have "g_current_session_id (snd first_grant) \<noteq> 0" by (simp add: first_grant)
  then obtain m where "request_session_id (std_runtime calm_world) (snd first_grant) = Some (m, snd first_grant)"
    by (rule std.request_refused)
  then show "request_session_id (std_runtime calm_world) (snd first_grant) = Some second_request"
    "snd second_request = snd first_grant" by (simp_all add: second_request_def)
qed

lemma refused_run:
  assumes "session_run (std_runtime calm_world) st tr (snd first_grant)"
  shows "session_run (std_runtime calm_world) st (tr @ [Requested (fst second_request)]) (snd first_grant)"
  by (rule session_run.request [OF assms]) (simp add: second_request prod_eq_iff)

lemma granted_run:
  "session_run (std_runtime calm_world) session_init ([] @ [Requested (fst first_grant)]) (snd first_grant)"
  by (rule session_run.request [OF session_run.start]) (simp add: first_grant(1))

lemmas demo_session_run = refused_run [OF granted_run] refused_run [OF session_run.start]

theorem session_ids_never_reused_witness:
  "granted_ids messagepack (([] @ [Requested (fst first_grant)]) @ [Requested (fst second_request)]) = [1]"
  using session_ids_never_reused [OF std_rbus_runtime demo_session_run(1)] by (simp add: first_grant)

theorem one_session_at_a_time_witness:
  "g_current_session_id (snd first_grant) = 1 \<and> granted_ids messagepack ([] @ [Requested (fst second_request)]) = []"
  using one_session_at_a_time [OF std_rbus_runtime demo_session_run(2)] by (simp add: first_grant)

theorem end_session_answers_witness:
  "\<exists>m. end_session (std_runtime calm_world) (rbusMessage_FromBytes messagepack (enc_int32 messagepack 0)) session_init =
      Some (m, session_init) \<and> fst (answer_ints messagepack m) = Some (error_int32 RTMESSAGE_BUS_SUCCESS)"
proof -
  let ?r = "rbusMessage_FromBytes messagepack (enc_int32 messagepack 0)"
  have "rbusMessage_GetInt32 (mp (std_runtime calm_world)) ?r =
      (RT_OK, Some 0, ?r\<lparr>read_offset := length (enc_int32 messagepack 0)\<rparr>)"
    using std.get_int32 [of ?r "[]" calm_world 0 "[]"] std.FromBytes_start [of calm_world "enc_int32 messagepack 0"] by simp
  from end_session_answers [OF std_rbus_runtime this, of session_init] show ?thesis
    by (auto simp: session_init_def)
qed

definition late_world :: world where
  "late_world = calm_world\<lparr>w_result := (\<lambda>t _. if 2 \<le> length t then RT_OK else RT_FAIL)\<rparr>"

theorem session_manager_comes_up_witness:
  "\<exists>s'. session_main 3 (std_runtime late_world) initial_state = Some (Some s') \<and>
    abs_reg s' = [RBUS_SMGR_DESTINATION_NAME \<mapsto> session_object]"
proof -
  have "3 < rbuscore_checkBusStatus_address (std_runtime late_world)"
    "length RBUS_SMGR_DESTINATION_NAME < MAX_OBJECT_NAME_LENGTH (std_runtime late_world)"
    "\<forall>t c. rt_result (std_runtime late_world) t c = RT_OK \<longleftrightarrow> 2 \<le> length t" "unconnected initial_state"
    "2 - length (io initial_state) < 3"
    by (simp_all add: std_runtime_def late_world_def calm_world_def unconnected_def initial_facts
        RBUS_SMGR_DESTINATION_NAME_def)
  from session_manager_comes_up [OF std_rbus_runtime this] show ?thesis by blast
qed

definition session_world :: world where
  "session_world = calm_world\<lparr>
     w_reply := (\<lambda>_ _. method_bytes messagepack (enc_fields messagepack [F_Int32 0, F_Int32 1]) METHOD_RESPONSE),
     w_response := (\<lambda>_ _. Some (enc_fields messagepack [F_Int32 0, F_Int32 1]))\<rparr>"

definition session_server :: server_object where
  "session_server =
     \<lparr>so_name = ''smgr'', so_data = UD_NULL, so_callback = App_Callback fn_callback,
      process_event_subscriptions = False,
      methods = Some (map (\<lambda>t. \<lparr>sm_name = mt_method t, sm_callback = mt_callback t, sm_data = mt_user_data t\<rparr>) session_table),
      subscriptions = Some [], subscribe_handler_override = None, subscribe_handler_data = UD_NULL\<rparr>"

definition session_server_state :: rbus_state where
  "session_server_state = ready_state\<lparr>g_server_objects := Live (Some [1]), next_ptr := 2, objs := [1 \<mapsto> session_server]\<rparr>"

definition session_client_state :: rbus_state where
  "session_client_state = ready_state\<lparr>next_ptr := 2, msgs := [1 \<mapsto> rbusMessage_Init]\<rparr>"

lemma session_server_facts:
  "registry_wf (std_runtime w) session_server_state" "idle (std_runtime w) session_server_state"
  "reg_find session_server_state ''smgr'' = Some 1" "abs_reg session_server_state ''smgr'' = Some session_object"
  by (auto simp: registry_wf_def session_server_state_def session_server_def ready_state_def session_table_def
      initial_state_def table_wf_def obj_name_def object_wf_def methods_wf_def events_wf_def session_object_def
      abs_reg_def reg_find_def objects_of_def table_map_def idle_def heap_fresh_def list_vector_def new_object_def
      abs_object_def abs_methods_def abs_events_def table_methods_def entry_method_def MAX_METHOD_NAME_LENGTH_def
      MAX_SUPPORTED_METHODS_def RBUS_SMGR_METHOD_GET_CURRENT_SESSION_ID_def
      RBUS_SMGR_METHOD_REQUEST_SESSION_ID_def RBUS_SMGR_METHOD_END_SESSION_def fun_eq_iff)

theorem new_session_end_to_end_witness:
  "\<exists>s' r cs' rm. onMessage 1 (std_runtime session_world) \<lparr>topic = ''smgr'', reply_topic = ''r'', flags = 1\<rparr>
      (method_bytes messagepack [] RBUS_SMGR_METHOD_REQUEST_SESSION_ID) 1 session_server_state = Some (Some s') \<and>
    length (io s') = 2 \<and>
    rbus_invokeRemoteMethod (std_runtime session_world) ''smgr'' RBUS_SMGR_METHOD_REQUEST_SESSION_ID (Some 1) 1000
      session_client_state = Some (RTMESSAGE_BUS_SUCCESS, Some r, cs') \<and> msgs cs' r = Some rm \<and>
    get_fields messagepack rm [F_Int32 0, F_Int32 1] = Some [F_Int32 0, F_Int32 1]"
proof -
  let ?E = "std_runtime session_world" and ?hdr = "\<lparr>topic = ''smgr'', reply_topic = ''r'', flags = 1\<rparr>"
  let ?res = "[F_Int32 0, F_Int32 1]"
  have st: "g_current_session_id session_init = 0" "0 \<le> g_counter session_init" "g_counter session_init < 2 ^ 31 - 1"
    "?res = [F_Int32 0, F_Int32 (of_int (g_counter session_init + 1))]"
    by (simp_all add: session_init_def)
  have fits: "method_fits messagepack [] RBUS_SMGR_METHOD_REQUEST_SESSION_ID"
    "method_fits messagepack (enc_fields messagepack ?res) METHOD_RESPONSE"
    by (simp_all add: method_fits_def method_bytes_def enc_fields_def cname_ok_def no_nul_def char_of_0
        mp_str_def mp_int_def METHOD_RESPONSE_def RBUS_SMGR_METHOD_REQUEST_SESSION_ID_def)
  have cl: "g_connection session_client_state \<noteq> None" "length ''smgr'' < MAX_OBJECT_NAME_LENGTH ?E"
    "msgs session_client_state 1 = Some rbusMessage_Init" "pk rbusMessage_Init" "refCount rbusMessage_Init = 1"
    "sbuf rbusMessage_Init = []" "1 < next_ptr session_client_state"
    by (simp_all add: session_client_state_def ready_state_def initial_state_def rbusMessage_Init_def)
  have w: "rt_nested ?E t c = []" "app_result ?E t c = 0" "rt_result ?E t c = RT_OK"
    "app_response ?E t c = map_option (\<lambda>(m, _). sbuf m) (request_session_id ?E session_init)"
    "rt_reply ?E t c = method_bytes messagepack (enc_fields messagepack ?res) METHOD_RESPONSE"
    "rtMessageHeader_IsRequest ?E ?hdr" "mp ?E = messagepack" for t c
    using std.set_int32 [of _ session_world]
    by (simp_all add: std_runtime_def session_world_def calm_world_def request_session_id_def session_init_def
        rbusMessage_Init_def error_int32_def enc_fields_def)
  from new_session_end_to_end [OF std_rbus_runtime std_rbus_runtime w(7,7) st fits cl refl refl
      session_server_facts w(6) refl w(1,4,2), of 0 1000] w(3,5)
  have "\<exists>s' r cs' rm mi b. onMessage 1 ?E ?hdr (method_bytes messagepack [] RBUS_SMGR_METHOD_REQUEST_SESSION_ID) 1
      session_server_state = Some (Some s') \<and> io s' = io session_server_state @ [mi, b] \<and>
    rbus_invokeRemoteMethod ?E ''smgr'' RBUS_SMGR_METHOD_REQUEST_SESSION_ID (Some 1) 1000
      session_client_state = Some (RTMESSAGE_BUS_SUCCESS, Some r, cs') \<and> msgs cs' r = Some rm \<and>
    get_fields messagepack rm ?res = Some ?res" by auto
  then show ?thesis by (auto simp: session_server_state_def ready_state_def initial_state_def)
qed

end
