(* ===== verification/Rbus_Discovery.thy ===== *)
theory Rbus_Discovery
  imports Rbus_Connection
begin

text \<open>
  Discovery (\<open>rbus-core/lib/rbus_core.c\<close>): the five functions that ask the router for names and copy
  the answer into an array for the caller.  Requests and answers are \<open>rtMessage\<close>s, of a
  library that is not in the repository: its operations, the keys and the topics are the
  parameter \<open>J\<close>, with their laws in the locale \<open>rtmessage_api\<close>.  So are \<open>rt_try_malloc\<close>,
  \<open>rt_try_realloc\<close> and \<open>strndup\<close>, which may fail.
\<close>

section \<open>The interface of rtMessage\<close>

text \<open>
  \<open>rtMessage_GetInt32\<close>, \<open>rtMessage_GetArrayLength\<close> and \<open>rtMessage_GetStringItem\<close> give \<open>None\<close> for any result but
  \<open>RT_OK\<close>; they leave their output argument alone then.  \<open>rtm_reply\<close> is the message the router answers with.
  \<open>realloc_zero_frees\<close>: a request of \<open>rt_try_realloc\<close> for 0 bytes frees the block and returns \<open>NULL\<close>, as it does with
  glibc; the C standard leaves it to the implementation.
\<close>

record 'j rtMessage_ops =
  rtMessage_Create :: 'j
  rtMessage_SetString :: "'j \<Rightarrow> string \<Rightarrow> string \<Rightarrow> 'j"
  rtMessage_SetInt32 :: "'j \<Rightarrow> string \<Rightarrow> int32 \<Rightarrow> 'j"
  rtMessage_AddString :: "'j \<Rightarrow> string \<Rightarrow> string \<Rightarrow> 'j"
  rtMessage_GetInt32 :: "'j \<Rightarrow> string \<Rightarrow> int32 option"
  rtMessage_GetArrayLength :: "'j \<Rightarrow> string \<Rightarrow> int32 option"
  rtMessage_GetStringItem :: "'j \<Rightarrow> string \<Rightarrow> nat \<Rightarrow> string option"
  rtMessage_ToByteArray :: "'j \<Rightarrow> byte list"
  rtm_reply :: "io_call list \<Rightarrow> io_call \<Rightarrow> 'j"
  rt_try_malloc :: "nat \<Rightarrow> bool"
  rt_try_realloc :: "nat \<Rightarrow> bool"
  realloc_zero_frees :: bool
  strndup_succeeds :: "string \<Rightarrow> bool"
  RTM_DISCOVERY_EXPRESSION :: string
  RTM_DISCOVERY_RESULT :: string
  RTM_DISCOVERY_COUNT :: string
  RTM_DISCOVERY_ITEMS :: string
  RTM_DISCOVER_WILDCARD_DESTINATIONS :: string
  RTM_DISCOVER_OBJECT_ELEMENTS :: string
  RTM_DISCOVER_ELEMENT_OBJECTS :: string
  RTM_DISCOVER_REGISTERED_COMPONENTS :: string

text \<open>
  The laws, over the array that a message has under a key: what is set is read back, and an array has its items in order.
\<close>

locale rtmessage_api =
  fixes J :: "'j rtMessage_ops" and items :: "'j \<Rightarrow> string \<Rightarrow> string list"
  assumes get_set_int: "rtMessage_GetInt32 J (rtMessage_SetInt32 J m k v) k' =
      (if k' = k then Some v else rtMessage_GetInt32 J m k')"
    and get_add: "k' \<noteq> k \<Longrightarrow> rtMessage_GetInt32 J (rtMessage_AddString J m k x) k' = rtMessage_GetInt32 J m k'"
    and array_length: "rtMessage_GetArrayLength J m k = Some (of_nat (length (items m k)))"
    and string_item: "rtMessage_GetStringItem J m k i = (if i < length (items m k) then Some (items m k ! i) else None)"
    and items_create: "items (rtMessage_Create J) k = []"
    and items_set_int: "k' \<noteq> k \<Longrightarrow> items (rtMessage_SetInt32 J m k v) k' = items m k'"
    and items_add: "items (rtMessage_AddString J m k x) k = items m k @ [x]"
    and keys: "RTM_DISCOVERY_COUNT J \<noteq> RTM_DISCOVERY_ITEMS J" "RTM_DISCOVERY_RESULT J \<noteq> RTM_DISCOVERY_ITEMS J"
      "RTM_DISCOVERY_COUNT J \<noteq> RTM_DISCOVERY_RESULT J"

section \<open>Arrays of strings\<close>

text \<open>
  A cell of an array is not initialised, \<open>NULL\<close> or a string.  What the caller gets: the value stored through
  \<open>count\<close>, and the array stored through the other argument, or a pointer to an array that is freed.
\<close>

datatype cell = Uninit | Null | Str string

datatype darray = Array "cell list" | Dangling

record discovered =
  d_count :: "int32 option"
  d_array :: "darray option"

definition nothing :: discovered where
  "nothing = \<lparr>d_count = None, d_array = None\<rparr>"

text \<open>\<open>n * sizeof(char *)\<close>, in \<open>size_t\<close>.\<close>

definition pointer_bytes :: "int32 \<Rightarrow> nat" where
  "pointer_bytes n = nat ((sint n * 8) mod 2 ^ 64)"

definition malloc_cells :: "'j rtMessage_ops \<Rightarrow> int32 \<Rightarrow> cell list option" where
  "malloc_cells J n =
     (if rt_try_malloc J (pointer_bytes n) then Some (replicate (pointer_bytes n div 8) Uninit) else None)"

text \<open>\<open>memset(array_ptr, 0, n * sizeof(char *))\<close>: \<open>None\<close> is a write past the end of the array.\<close>

definition memset_cells :: "cell list \<Rightarrow> int32 \<Rightarrow> cell list option" where
  "memset_cells cells n =
     (let k = pointer_bytes n div 8
      in if k \<le> length cells then Some (replicate k Null @ drop k cells) else None)"

definition strndup :: "'j rtMessage_ops \<Rightarrow> string \<Rightarrow> nat \<Rightarrow> string option" where
  "strndup J v n = (if strndup_succeeds J v then Some (take n v) else None)"

text \<open>The loop that copies the items; \<open>None\<close>: an item could not be read or copied, and the array is freed.\<close>

fun copy_items :: "'j rtMessage_ops \<Rightarrow> 'j \<Rightarrow> nat \<Rightarrow> nat list \<Rightarrow> cell list \<Rightarrow> cell list option" where
  "copy_items J msg lim [] cells = Some cells"
| "copy_items J msg lim (i # is) cells =
     (case rtMessage_GetStringItem J msg (RTM_DISCOVERY_ITEMS J) i of
        None \<Rightarrow> None
      | Some v \<Rightarrow>
          (case strndup J v lim of
             None \<Rightarrow> None
           | Some d \<Rightarrow> copy_items J msg lim is (cells[i := Str d])))"

text \<open>
  The block that allocates, clears and fills the array, with the code it leaves in \<open>ret\<close>.  After a failure the
  caller's pointer still refers to the freed array.
\<close>

definition copy_array ::
    "'j rtMessage_ops \<Rightarrow> 'j \<Rightarrow> nat \<Rightarrow> int32 \<Rightarrow> int32 \<Rightarrow> (rbus_error_t \<times> discovered) option" where
  "copy_array J msg lim sz len =
     (case malloc_cells J sz of
        None \<Rightarrow> Some (RTMESSAGE_BUS_ERROR_INSUFFICIENT_MEMORY, \<lparr>d_count = Some sz, d_array = None\<rparr>)
      | Some cells \<Rightarrow> do {
          cells1 \<leftarrow> memset_cells cells len;
          Some (case copy_items J msg lim [0..<nat (sint len)] cells1 of
              None \<Rightarrow> (RTMESSAGE_BUS_ERROR_GENERAL, \<lparr>d_count = Some sz, d_array = Some Dangling\<rparr>)
            | Some cs \<Rightarrow> (RTMESSAGE_BUS_SUCCESS, \<lparr>d_count = Some sz, d_array = Some (Array cs)\<rparr>))
        })"

section \<open>The functions\<close>

definition discovery_request ::
    "runtime \<Rightarrow> 'j rtMessage_ops \<Rightarrow> 'j \<Rightarrow> string \<Rightarrow> rbus_state \<Rightarrow> rtError \<times> 'j \<times> rbus_state" where
  "discovery_request E J msg destination s =
     (let c = Rt_SendRequest (rtMessage_ToByteArray J msg) destination TIMEOUT_VALUE_FIRE_AND_FORGET
      in case rt_do E c s of (err, s') \<Rightarrow> (err, rtm_reply J (io s) c, s'))"

text \<open>
  \<open>count\<close> and the array argument are flags that say whether the caller passed a pointer.  A count or a length the answer
  does not have is read from a variable that is not initialised: \<open>None\<close>.
\<close>

definition rbus_discoverWildcardDestinations ::
    "runtime \<Rightarrow> 'j rtMessage_ops \<Rightarrow> string option \<Rightarrow> bool \<Rightarrow> bool \<Rightarrow> rbus_state \<Rightarrow>
     (rbus_error_t \<times> discovered \<times> rbus_state) option" where
  "rbus_discoverWildcardDestinations E J expression count destinations s =
     (if g_connection s = None then Some (RTMESSAGE_BUS_ERROR_INVALID_STATE, nothing, s)
      else case expression of
        None \<Rightarrow> Some (RTMESSAGE_BUS_ERROR_INVALID_PARAM, nothing, s)
      | Some expr \<Rightarrow>
          if \<not> count \<or> \<not> destinations then Some (RTMESSAGE_BUS_ERROR_INVALID_PARAM, nothing, s)
          else (case discovery_request E J
              (rtMessage_SetString J (rtMessage_Create J) (RTM_DISCOVERY_EXPRESSION J) expr)
              (RTM_DISCOVER_WILDCARD_DESTINATIONS J) s of (err, msg, s1) \<Rightarrow>
            if err \<noteq> RT_OK then Some (RTMESSAGE_BUS_ERROR_MALFORMED_RESPONSE, nothing, s1)
            else if rtMessage_GetInt32 J msg (RTM_DISCOVERY_RESULT J) = Some 0 then do {
              sz \<leftarrow> rtMessage_GetInt32 J msg (RTM_DISCOVERY_COUNT J);
              len \<leftarrow> rtMessage_GetArrayLength J msg (RTM_DISCOVERY_ITEMS J);
              (_, out) \<leftarrow> (if sz \<noteq> 0 \<and> len \<noteq> 0
                then copy_array J msg (MAX_OBJECT_NAME_LENGTH E) sz len
                else Some (RTMESSAGE_BUS_SUCCESS, nothing));
              Some (RTMESSAGE_BUS_SUCCESS, out, s1)
            }
            else Some (RTMESSAGE_BUS_ERROR_GENERAL, nothing, s1)))"

text \<open>The part of two functions after the request: the code of the copy is overwritten.\<close>

definition copy_answer ::
    "runtime \<Rightarrow> 'j rtMessage_ops \<Rightarrow> 'j \<Rightarrow> rbus_state \<Rightarrow> (rbus_error_t \<times> discovered \<times> rbus_state) option" where
  "copy_answer E J msg s = do {
     sz \<leftarrow> rtMessage_GetInt32 J msg (RTM_DISCOVERY_COUNT J);
     len \<leftarrow> rtMessage_GetArrayLength J msg (RTM_DISCOVERY_ITEMS J);
     (_, out) \<leftarrow> copy_array J msg (MAX_OBJECT_NAME_LENGTH E) sz len;
     Some (RTMESSAGE_BUS_SUCCESS, out, s)
   }"

definition rbus_discoverObjectElements ::
    "runtime \<Rightarrow> 'j rtMessage_ops \<Rightarrow> string option \<Rightarrow> bool \<Rightarrow> bool \<Rightarrow> rbus_state \<Rightarrow>
     (rbus_error_t \<times> discovered \<times> rbus_state) option" where
  "rbus_discoverObjectElements E J object count elements s =
     (if g_connection s = None then Some (RTMESSAGE_BUS_ERROR_INVALID_STATE, nothing, s)
      else case object of
        None \<Rightarrow> Some (RTMESSAGE_BUS_ERROR_INVALID_PARAM, nothing, s)
      | Some name \<Rightarrow>
          if \<not> elements \<or> \<not> count then Some (RTMESSAGE_BUS_ERROR_INVALID_PARAM, nothing, s)
          else (case discovery_request E J
              (rtMessage_SetString J (rtMessage_Create J) (RTM_DISCOVERY_EXPRESSION J) name)
              (RTM_DISCOVER_OBJECT_ELEMENTS J) s of (err, msg, s1) \<Rightarrow>
            if err = RT_OK then copy_answer E J msg s1
            else Some (RTMESSAGE_BUS_ERROR_GENERAL, nothing, s1)))"

definition rbus_discoverElementObjects ::
    "runtime \<Rightarrow> 'j rtMessage_ops \<Rightarrow> string option \<Rightarrow> rbus_state \<Rightarrow>
     (rbus_error_t \<times> discovered \<times> rbus_state) option" where
  "rbus_discoverElementObjects E J element s =
     (case element of
        None \<Rightarrow> Some (RTMESSAGE_BUS_ERROR_INVALID_PARAM, nothing, s)
      | Some name \<Rightarrow>
          (case discovery_request E J
              (rtMessage_AddString J (rtMessage_SetInt32 J (rtMessage_Create J) (RTM_DISCOVERY_COUNT J) 1)
                (RTM_DISCOVERY_ITEMS J) name)
              (RTM_DISCOVER_ELEMENT_OBJECTS J) s of (err, msg, s1) \<Rightarrow>
            if err \<noteq> RT_OK then Some (RTMESSAGE_BUS_ERROR_MALFORMED_RESPONSE, nothing, s1)
            else if rtMessage_GetInt32 J msg (RTM_DISCOVERY_RESULT J) = Some 0 then do {
              let n = (case rtMessage_GetInt32 J msg (RTM_DISCOVERY_COUNT J) of None \<Rightarrow> 0 | Some k \<Rightarrow> k);
              (ret, out) \<leftarrow> copy_array J msg (MAX_OBJECT_NAME_LENGTH E) n n;
              Some (ret, out, s1)
            }
            else Some (RTMESSAGE_BUS_ERROR_GENERAL, nothing, s1)))"

text \<open>\<open>rtMessage_SetInt32(out, "dummy", 0)\<close> comes before the test of the connection.\<close>

definition rbus_discoverRegisteredComponents ::
    "runtime \<Rightarrow> 'j rtMessage_ops \<Rightarrow> rbus_state \<Rightarrow> (rbus_error_t \<times> discovered \<times> rbus_state) option" where
  "rbus_discoverRegisteredComponents E J s =
     (let out = rtMessage_SetInt32 J (rtMessage_Create J) ''dummy'' 0
      in if g_connection s = None then Some (RTMESSAGE_BUS_ERROR_INVALID_STATE, nothing, s)
      else (case discovery_request E J out (RTM_DISCOVER_REGISTERED_COMPONENTS J) s of (err, msg, s1) \<Rightarrow>
        if err = RT_OK then copy_answer E J msg s1
        else Some (RTMESSAGE_BUS_ERROR_GENERAL, nothing, s1)))"

text \<open>
  The loops of \<open>rbus_discoverElementsObjects\<close>.  The inner one reads the item at \<open>array_count\<close>, which an empty
  item does not advance.  Its result is the code, the array and \<open>array_count\<close>; a write past the array
  is \<open>None\<close>.
\<close>

fun read_components ::
    "'j rtMessage_ops \<Rightarrow> 'j \<Rightarrow> nat \<Rightarrow> nat \<Rightarrow> cell list \<Rightarrow> nat \<Rightarrow> (rbus_error_t \<times> cell list \<times> nat) option" where
  "read_components J msg lim 0 cells array_count = Some (RTMESSAGE_BUS_SUCCESS, cells, array_count)"
| "read_components J msg lim (Suc j) cells array_count =
     (case rtMessage_GetStringItem J msg (RTM_DISCOVERY_ITEMS J) array_count of
        None \<Rightarrow> Some (RTMESSAGE_BUS_ERROR_GENERAL, cells, array_count)
      | Some component \<Rightarrow>
          if component = [] then read_components J msg lim j cells array_count
          else if length cells \<le> array_count then None
          else (case strndup J component lim of
              None \<Rightarrow> Some (RTMESSAGE_BUS_ERROR_GENERAL, cells[array_count := Null], Suc array_count)
            | Some d \<Rightarrow> read_components J msg lim j (cells[array_count := Str d]) (Suc array_count)))"

text \<open>
  \<open>rt_try_malloc\<close> the first time, then \<open>rt_try_realloc\<close>, to \<open>n\<close> pointers: the new array, \<open>NULL\<close> with the
  array as it was, or \<open>NULL\<close> with the array freed.
\<close>

datatype reallocated = Moved "cell list" | Refused | Freed_Null

definition realloc_cells :: "'j rtMessage_ops \<Rightarrow> cell list option \<Rightarrow> int32 \<Rightarrow> reallocated" where
  "realloc_cells J array_ptr n =
     (case array_ptr of
        None \<Rightarrow> (case malloc_cells J n of None \<Rightarrow> Refused | Some fresh \<Rightarrow> Moved fresh)
      | Some cells \<Rightarrow>
          if pointer_bytes n = 0 \<and> realloc_zero_frees J then Freed_Null
          else if rt_try_realloc J (pointer_bytes n)
          then (let k = pointer_bytes n div 8
                in Moved (take k cells @ replicate (k - length cells) Uninit))
          else Refused)"

text \<open>
  The sum \<open>array_count + numComponents\<close> is one of \<open>int\<close>s: \<open>None\<close> when it overflows.  \<open>None\<close> also after a
  reallocation that freed the array, since the function frees it again before it returns.
\<close>

fun read_elements ::
    "'j rtMessage_ops \<Rightarrow> 'j \<Rightarrow> nat \<Rightarrow> nat \<Rightarrow> cell list option \<Rightarrow> nat \<Rightarrow>
     (rbus_error_t \<times> cell list option \<times> nat) option" where
  "read_elements J msg lim 0 array_ptr array_count = Some (RTMESSAGE_BUS_SUCCESS, array_ptr, array_count)"
| "read_elements J msg lim (Suc i) array_ptr array_count =
     (case rtMessage_GetInt32 J msg (RTM_DISCOVERY_COUNT J) of
        None \<Rightarrow> Some (RTMESSAGE_BUS_ERROR_GENERAL, array_ptr, array_count)
      | Some numComponents \<Rightarrow>
          let total = (if array_ptr = None then sint numComponents else int array_count + sint numComponents)
          in if total < - (2 ^ 31) \<or> 2 ^ 31 \<le> total then None
          else (case realloc_cells J array_ptr (of_int total) of
             Refused \<Rightarrow> Some (RTMESSAGE_BUS_ERROR_GENERAL, array_ptr, array_count)
           | Freed_Null \<Rightarrow> None
           | Moved cells \<Rightarrow> do {
               (ret, cells', array_count') \<leftarrow>
                 read_components J msg lim (nat (sint numComponents)) cells array_count;
               if ret = RTMESSAGE_BUS_SUCCESS then read_elements J msg lim i (Some cells') array_count'
               else Some (ret, Some cells', array_count')
             }))"

definition rbus_discoverElementsObjects ::
    "runtime \<Rightarrow> 'j rtMessage_ops \<Rightarrow> int32 \<Rightarrow> string list option \<Rightarrow> rbus_state \<Rightarrow>
     (rbus_error_t \<times> discovered \<times> rbus_state) option" where
  "rbus_discoverElementsObjects E J numElements elements s =
     (let n = nat (sint numElements); failed = \<lparr>d_count = Some 0, d_array = None\<rparr>
      in case elements of
        None \<Rightarrow> Some (RTMESSAGE_BUS_ERROR_INVALID_PARAM, failed, s)
      | Some names \<Rightarrow>
          if length names < n then None
          else (case discovery_request E J
              (foldl (\<lambda>m e. rtMessage_AddString J m (RTM_DISCOVERY_ITEMS J) e)
                (rtMessage_SetInt32 J (rtMessage_Create J) (RTM_DISCOVERY_COUNT J) numElements) (take n names))
              (RTM_DISCOVER_ELEMENT_OBJECTS J) s of (err, msg, s1) \<Rightarrow>
            if err \<noteq> RT_OK then Some (RTMESSAGE_BUS_ERROR_MALFORMED_RESPONSE, failed, s1)
            else if rtMessage_GetInt32 J msg (RTM_DISCOVERY_RESULT J) = Some 0 then do {
              (ret, array_ptr, array_count) \<leftarrow> read_elements J msg (MAX_OBJECT_NAME_LENGTH E) n None 0;
              Some (if ret = RTMESSAGE_BUS_SUCCESS
                then (ret, \<lparr>d_count = Some (of_nat array_count), d_array = map_option Array array_ptr\<rparr>, s1)
                else (ret, failed, s1))
            }
            else Some (RTMESSAGE_BUS_ERROR_GENERAL, failed, s1)))"

section \<open>Facts\<close>

text \<open>The answer of a router: a result, a count and the names.\<close>

definition router_answer :: "'j rtMessage_ops \<Rightarrow> int32 \<Rightarrow> int32 \<Rightarrow> string list \<Rightarrow> 'j" where
  "router_answer J result count names =
     foldl (\<lambda>m x. rtMessage_AddString J m (RTM_DISCOVERY_ITEMS J) x)
       (rtMessage_SetInt32 J (rtMessage_SetInt32 J (rtMessage_Create J) (RTM_DISCOVERY_RESULT J) result)
         (RTM_DISCOVERY_COUNT J) count) names"

definition names_found :: "runtime \<Rightarrow> string list \<Rightarrow> discovered" where
  "names_found E names =
     \<lparr>d_count = Some (of_nat (length names)),
      d_array = Some (Array (map (\<lambda>x. Str (take (MAX_OBJECT_NAME_LENGTH E) x)) names))\<rparr>"

text \<open>All the memory a call asks for is there.\<close>

definition memory_available :: "'j rtMessage_ops \<Rightarrow> bool" where
  "memory_available J \<longleftrightarrow> (\<forall>n. rt_try_malloc J n \<and> rt_try_realloc J n) \<and> (\<forall>x. strndup_succeeds J x)"

lemma sint_of_nat: "n < 2 ^ 31 \<Longrightarrow> sint (of_nat n :: int32) = int n"
  by (simp add: signed_of_nat signed_take_bit_int_eq_self)

lemma pointer_bytes_of_nat [simp]: "n < 2 ^ 31 \<Longrightarrow> pointer_bytes (of_nat n) div 8 = n"
  by (simp add: pointer_bytes_def sint_of_nat)

lemma malloc_cells_available:
  "memory_available J \<Longrightarrow> n < 2 ^ 31 \<Longrightarrow> malloc_cells J (of_nat n) = Some (replicate n Uninit)"
  by (simp add: malloc_cells_def memory_available_def)

lemma memset_cells_all: "n < 2 ^ 31 \<Longrightarrow> length cells = n \<Longrightarrow> memset_cells cells (of_nat n) = Some (replicate n Null)"
  by (simp add: memset_cells_def)

lemma copy_items_run:
  assumes "\<forall>i<length names. rtMessage_GetStringItem J msg (RTM_DISCOVERY_ITEMS J) i = Some (names ! i)"
    and "memory_available J" and "k \<le> length names" and "length pre = k"
  shows "copy_items J msg lim [k..<length names] (pre @ replicate (length names - k) c) =
    Some (pre @ map (\<lambda>x. Str (take lim x)) (drop k names))"
  using assms(3,4)
proof (induction "length names - k" arbitrary: k pre)
  case (Suc n)
  then have lt: "k < length names" by simp
  then have "[k..<length names] = k # [Suc k..<length names]" "drop k names = names ! k # drop (Suc k) names"
    "replicate (length names - k) c = c # replicate (length names - Suc k) c"
    by (simp_all add: upt_conv_Cons Cons_nth_drop_Suc Suc_diff_Suc flip: replicate_Suc)
  moreover have "n = length names - Suc k" using Suc.hyps(2) by simp
  ultimately show ?case
    using Suc.hyps(1) [of "Suc k" "pre @ [Str (take lim (names ! k))]"] Suc.prems lt assms(1,2)
    by (simp add: strndup_def memory_available_def list_update_append)
qed simp

lemma copy_array_run:
  assumes "\<forall>i<length names. rtMessage_GetStringItem J msg (RTM_DISCOVERY_ITEMS J) i = Some (names ! i)"
    and "memory_available J" and "length names < 2 ^ 31"
  shows "copy_array J msg (MAX_OBJECT_NAME_LENGTH E) (of_nat (length names)) (of_nat (length names)) =
    Some (RTMESSAGE_BUS_SUCCESS, names_found E names)"
  using copy_items_run [OF assms(1,2), of 0 "[]" "MAX_OBJECT_NAME_LENGTH E" Null] assms(2,3)
  by (simp add: copy_array_def malloc_cells_available memset_cells_all sint_of_nat names_found_def)

context rtmessage_api
begin

lemma answer_ints:
  "rtMessage_GetInt32 J (router_answer J result count names) (RTM_DISCOVERY_RESULT J) = Some result"
  "rtMessage_GetInt32 J (router_answer J result count names) (RTM_DISCOVERY_COUNT J) = Some count"
  using keys by (induction names rule: rev_induct) (simp_all add: router_answer_def get_set_int get_add)

lemma answer_items: "items (router_answer J result count names) (RTM_DISCOVERY_ITEMS J) = names"
  using keys by (induction names rule: rev_induct) (simp_all add: router_answer_def items_create items_set_int items_add)

lemma answer_names:
  "rtMessage_GetArrayLength J (router_answer J result count names) (RTM_DISCOVERY_ITEMS J) = Some (of_nat (length names))"
  "i < length names \<Longrightarrow>
   rtMessage_GetStringItem J (router_answer J result count names) (RTM_DISCOVERY_ITEMS J) i = Some (names ! i)"
  by (simp_all add: array_length string_item answer_items)

lemma answer_copied:
  assumes "memory_available J" and "length names < 2 ^ 31"
  shows "copy_array J (router_answer J result count names) (MAX_OBJECT_NAME_LENGTH E) (of_nat (length names))
      (of_nat (length names)) = Some (RTMESSAGE_BUS_SUCCESS, names_found E names)"
  using assms by (intro copy_array_run) (simp_all add: answer_names)

end

text \<open>
  The loops of \<open>rbus_discoverElementsObjects\<close>: after \<open>T\<close> reads they have copied the names before the first
  empty one, and no more than \<open>T\<close>.
\<close>

definition routed :: "string list \<Rightarrow> string list" where
  "routed names = takeWhile (\<lambda>x. x \<noteq> []) names"

definition copied :: "nat \<Rightarrow> string list \<Rightarrow> nat \<Rightarrow> cell list \<Rightarrow> bool" where
  "copied lim names k cells \<longleftrightarrow> k \<le> length cells \<and> take k cells = map (\<lambda>x. Str (take lim x)) (take k (routed names))"

lemma routed_nth:
  assumes "k < length (routed names)"
  shows "names ! k \<noteq> [] \<and> routed names ! k = names ! k"
proof -
  have "routed names ! k = names ! k" using assms by (simp add: routed_def takeWhile_nth)
  moreover have "routed names ! k \<noteq> []" using nth_mem [OF assms] by (auto simp: routed_def dest: set_takeWhileD)
  ultimately show ?thesis by simp
qed

lemma routed_stop:
  assumes "length (routed names) < length names"
  shows "names ! length (routed names) = []"
  using nth_length_takeWhile [of "\<lambda>x. x \<noteq> []" names] assms by (simp add: routed_def)

lemma copied_step:
  assumes "copied lim names k cells" and "k < length (routed names)" and "k < length cells"
  shows "copied lim names (Suc k) (cells[k := Str (take lim (names ! k))])"
  using assms routed_nth [OF assms(2)]
  by (auto simp: copied_def take_Suc_conv_app_nth)

lemma read_components_run:
  assumes "\<forall>i<length names. rtMessage_GetStringItem J msg (RTM_DISCOVERY_ITEMS J) i = Some (names ! i)"
    and "memory_available J" and "T + j \<le> length names" and "min T (length (routed names)) + j \<le> length cells"
    and "copied lim names (min T (length (routed names))) cells"
  shows "\<exists>cells'. read_components J msg lim j cells (min T (length (routed names))) =
      Some (RTMESSAGE_BUS_SUCCESS, cells', min (T + j) (length (routed names))) \<and>
    length cells' = length cells \<and> copied lim names (min (T + j) (length (routed names))) cells'"
  using assms(3-5)
proof (induction j arbitrary: T cells)
  case (Suc j)
  let ?m = "length (routed names)"
  show ?case
  proof (cases "T < ?m")
    case True
    have "?m \<le> length names" by (simp add: routed_def length_takeWhile_le)
    with True have item: "rtMessage_GetStringItem J msg (RTM_DISCOVERY_ITEMS J) T = Some (names ! T)"
      using assms(1) by simp
    let ?cells = "cells[T := Str (take lim (names ! T))]"
    have "copied lim names (Suc T) ?cells" using copied_step [of lim names T cells] Suc.prems True by simp
    with Suc.IH [of "Suc T" ?cells] Suc.prems True item routed_nth [OF True] assms(2)
    show ?thesis by (auto simp: strndup_def memory_available_def)
  next
    case False
    then have m: "min T ?m = ?m" "min (Suc T) ?m = ?m" "?m < length names" using Suc.prems(1) by simp_all
    then have "rtMessage_GetStringItem J msg (RTM_DISCOVERY_ITEMS J) ?m = Some []"
      using assms(1) routed_stop by metis
    with Suc.IH [of "Suc T" cells] Suc.prems m show ?thesis by simp
  qed
qed simp

lemma pointer_bytes_0: "n < 2 ^ 31 \<Longrightarrow> pointer_bytes (of_nat n) = 0 \<longleftrightarrow> n = 0"
  by (simp add: pointer_bytes_def sint_of_nat)

lemma realloc_cells_run:
  assumes "memory_available J" and "k + c < 2 ^ 31" and "array_ptr = None \<longrightarrow> k = 0"
    and "\<forall>cells. array_ptr = Some cells \<longrightarrow> copied lim names k cells"
    and "array_ptr = None \<or> k + c \<noteq> 0 \<or> \<not> realloc_zero_frees J"
  obtains cells where "realloc_cells J array_ptr (of_nat (k + c)) = Moved cells" and "length cells = k + c"
    and "copied lim names k cells"
proof (cases array_ptr)
  case None
  then show thesis
    using assms that [of "replicate c Uninit"] malloc_cells_available [OF assms(1), of c]
    by (auto simp: realloc_cells_def copied_def)
next
  case (Some cells)
  have "pointer_bytes (of_nat (k + c)) div 8 = k + c" using assms(2) by (rule pointer_bytes_of_nat)
  moreover have "\<not> (pointer_bytes (of_nat (k + c)) = 0 \<and> realloc_zero_frees J)"
    using pointer_bytes_0 [OF assms(2)] assms(5) Some by auto
  ultimately have "realloc_cells J array_ptr (of_nat (k + c)) =
      Moved (take (k + c) cells @ replicate (k + c - length cells) Uninit)"
    using assms(1) Some by (simp add: realloc_cells_def memory_available_def Let_def del: of_nat_add)
  moreover have "copied lim names k cells" using assms(4) Some by blast
  ultimately show thesis
    using that [of "take (k + c) cells @ replicate (k + c - length cells) Uninit"]
    by (auto simp: copied_def min_def)
qed

text \<open>The sum of the counts, as the code computes it.\<close>

lemma total_of_nat:
  assumes "k + c < 2 ^ 31" and "array_ptr = None \<longrightarrow> k = 0"
  shows "(if array_ptr = None then sint (of_nat c :: int32) else int k + sint (of_nat c :: int32)) = int (k + c)"
  using assms by (auto simp: sint_of_nat)

lemma read_elements_run:
  assumes "\<forall>i<length names. rtMessage_GetStringItem J msg (RTM_DISCOVERY_ITEMS J) i = Some (names ! i)"
    and "rtMessage_GetInt32 J msg (RTM_DISCOVERY_COUNT J) = Some (of_nat c)" and "memory_available J"
    and "length names < 2 ^ 30" and "c < 2 ^ 30"
    and "T + n * c \<le> length names" and "array_ptr = None \<longrightarrow> T = 0"
    and "\<forall>cells. array_ptr = Some cells \<longrightarrow> copied lim names (min T (length (routed names))) cells"
    and "c \<noteq> 0 \<or> \<not> realloc_zero_frees J \<or> n = 0 \<or> array_ptr = None \<and> n = 1"
  shows "\<exists>array'. read_elements J msg lim n array_ptr (min T (length (routed names))) =
      Some (RTMESSAGE_BUS_SUCCESS, array', min (T + n * c) (length (routed names))) \<and>
    (n = 0 \<longrightarrow> array' = array_ptr) \<and>
    (0 < n \<longrightarrow> (\<exists>cells. array' = Some cells \<and> copied lim names (min (T + n * c) (length (routed names))) cells))"
  using assms(6-9)
proof (induction n arbitrary: T array_ptr)
  case (Suc n)
  let ?m = "length (routed names)" and ?k = "min T (length (routed names))"
  have k: "?k + c < 2 ^ 31" "array_ptr = None \<longrightarrow> ?k = 0" using Suc.prems(1,2) assms(4,5) by simp_all
  obtain cells where cells: "realloc_cells J array_ptr (of_nat (?k + c)) = Moved cells" "length cells = ?k + c"
      "copied lim names ?k cells"
    by (rule realloc_cells_run [OF assms(3) k Suc.prems(3)]) (use Suc.prems(4) in auto)
  have "T + c \<le> length names" using Suc.prems(1) by simp
  then obtain cells' where cells': "read_components J msg lim c cells ?k = Some (RTMESSAGE_BUS_SUCCESS, cells', min (T + c) ?m)"
      "copied lim names (min (T + c) ?m) cells'"
    using read_components_run [OF assms(1,3), of T c cells lim] cells(2,3) by auto
  have "nat (sint (of_nat c :: int32)) = c" using assms(5) by (simp add: sint_of_nat)
  moreover have "(of_int (int (?k + c)) :: int32) = of_nat (?k + c)" by (rule of_int_of_nat_eq)
  moreover have "int (?k + c) < 2 ^ 31" "\<not> int (?k + c) < - (2 ^ 31)" using k(1) by simp_all
  ultimately have step: "read_elements J msg lim (Suc n) array_ptr ?k = read_elements J msg lim n (Some cells') (min (T + c) ?m)"
    using assms(2) cells(1) cells'(1)
    by (simp only: read_elements.simps option.case total_of_nat [OF k] Let_def not_le [symmetric] if_False
        reallocated.case simp_thms bind.bind_lunit case_prod_conv if_True)
  have "\<exists>array'. read_elements J msg lim n (Some cells') (min (T + c) ?m) =
      Some (RTMESSAGE_BUS_SUCCESS, array', min (T + c + n * c) ?m) \<and> (n = 0 \<longrightarrow> array' = Some cells') \<and>
    (0 < n \<longrightarrow> (\<exists>cells. array' = Some cells \<and> copied lim names (min (T + c + n * c) ?m) cells))"
    using Suc.prems(1,4) cells'(2) by (intro Suc.IH) (auto simp: add.assoc)
  then show ?case using step cells'(2) by (cases "n = 0") (auto simp: add.assoc)
qed simp

text \<open>An answer with count 0 and two elements: the second round asks for 0 bytes.\<close>

lemma read_no_components:
  assumes "rtMessage_GetInt32 J msg (RTM_DISCOVERY_COUNT J) = Some 0" and "memory_available J"
    and "realloc_zero_frees J"
  shows "read_elements J msg lim (Suc (Suc n)) None 0 = None"
proof -
  have "malloc_cells J 0 = Some []" using assms(2) by (simp add: malloc_cells_def memory_available_def pointer_bytes_def)
  with assms(1,3) show ?thesis by (simp add: realloc_cells_def pointer_bytes_def)
qed

section \<open>Properties\<close>

text \<open>
  C21. Discovery returns the router's names.  For a connected process and a router that answers with the names of a list, the four functions
  that copy an answer as a whole return \<open>SUCCESS\<close>, the number of names, and an array with the names in the
  router's order (each cut at the longest object name); they send one request and change nothing else.
\<close>

theorem discovery_returns_names:
  assumes "rtmessage_api J items" and "g_connection s \<noteq> None" and "\<forall>c. rt_result E (io s) c = RT_OK"
    and "\<forall>c. rtm_reply J (io s) c = router_answer J 0 (of_nat (length names)) names"
    and "memory_available J" and "names \<noteq> []" and "length names < 2 ^ 31"
  shows "\<exists>c1 c2 c3 c4.
    rbus_discoverWildcardDestinations E J (Some x) True True s =
      Some (RTMESSAGE_BUS_SUCCESS, names_found E names, s\<lparr>io := io s @ [c1]\<rparr>) \<and>
    rbus_discoverObjectElements E J (Some x) True True s =
      Some (RTMESSAGE_BUS_SUCCESS, names_found E names, s\<lparr>io := io s @ [c2]\<rparr>) \<and>
    rbus_discoverElementObjects E J (Some x) s =
      Some (RTMESSAGE_BUS_SUCCESS, names_found E names, s\<lparr>io := io s @ [c3]\<rparr>) \<and>
    rbus_discoverRegisteredComponents E J s =
      Some (RTMESSAGE_BUS_SUCCESS, names_found E names, s\<lparr>io := io s @ [c4]\<rparr>)"
proof -
  note api = assms(1)
  note ans = rtmessage_api.answer_ints [OF api] rtmessage_api.answer_names(1) [OF api]
    rtmessage_api.answer_copied [OF api assms(5,7)]
  have "sint (of_nat (length names) :: int32) = int (length names)" using assms(7) by (rule sint_of_nat)
  then have nz: "of_nat (length names) \<noteq> (0 :: int32)" using assms(6) by auto
  show ?thesis
    using assms(2-4) ans nz
    by (simp add: rbus_discoverWildcardDestinations_def rbus_discoverObjectElements_def rbus_discoverElementObjects_def
        rbus_discoverRegisteredComponents_def discovery_request_def rt_do_def copy_answer_def Let_def del: not_None_eq)
      blast
qed

text \<open>
  C36. Failures of discovery are reported as success.  When the array cannot be allocated, or an item cannot be read, the code that says so is
  overwritten: the caller gets \<open>SUCCESS\<close>, a count, and no array, or a pointer to an array that is freed.  An
  answer whose array is longer than its count makes the function write past the array it allocates.
\<close>

theorem discovery_hides_failures:
  assumes "g_connection s \<noteq> None" and "\<forall>c. rt_result E (io s) c = RT_OK" and "\<forall>c. rtm_reply J (io s) c = msg"
    and "rtMessage_GetInt32 J msg (RTM_DISCOVERY_RESULT J) = Some 0"
    and "rtMessage_GetInt32 J msg (RTM_DISCOVERY_COUNT J) = Some (of_nat sz)"
    and "rtMessage_GetArrayLength J msg (RTM_DISCOVERY_ITEMS J) = Some (of_nat len)"
    and "0 < sz" and "sz < 2 ^ 31" and "0 < len" and "len < 2 ^ 31"
    and "rbus_discoverWildcardDestinations E J (Some x) True True s = r"
  shows "(\<not> rt_try_malloc J (pointer_bytes (of_nat sz)) \<longrightarrow>
      (\<exists>s'. r = Some (RTMESSAGE_BUS_SUCCESS, \<lparr>d_count = Some (of_nat sz), d_array = None\<rparr>, s'))) \<and>
    (rt_try_malloc J (pointer_bytes (of_nat sz)) \<and> sz < len \<longrightarrow> r = None) \<and>
    (rt_try_malloc J (pointer_bytes (of_nat sz)) \<and> len \<le> sz \<and>
      copy_items J msg (MAX_OBJECT_NAME_LENGTH E) [0..<len] (replicate len Null @ replicate (sz - len) Uninit) = None \<longrightarrow>
      (\<exists>s'. r = Some (RTMESSAGE_BUS_SUCCESS, \<lparr>d_count = Some (of_nat sz), d_array = Some Dangling\<rparr>, s')))"
proof -
  have nz: "of_nat sz \<noteq> (0 :: int32)" "of_nat len \<noteq> (0 :: int32)"
    using sint_of_nat [OF assms(8)] sint_of_nat [OF assms(10)] assms(7,9) by auto
  have r: "r = do { (_, out) \<leftarrow> copy_array J msg (MAX_OBJECT_NAME_LENGTH E) (of_nat sz) (of_nat len);
      Some (RTMESSAGE_BUS_SUCCESS, out, s\<lparr>io := io s @ [Rt_SendRequest (rtMessage_ToByteArray J (rtMessage_SetString J
        (rtMessage_Create J) (RTM_DISCOVERY_EXPRESSION J) x)) (RTM_DISCOVER_WILDCARD_DESTINATIONS J)
        TIMEOUT_VALUE_FIRE_AND_FORGET]\<rparr>) }"
    using assms(1-6,11) nz
    by (simp add: rbus_discoverWildcardDestinations_def discovery_request_def rt_do_def Let_def del: not_None_eq)
  have len: "nat (sint (of_nat len :: int32)) = len" using sint_of_nat [OF assms(10)] by simp
  show ?thesis
    using assms(8,10)
    by (auto simp: r copy_array_def malloc_cells_def memset_cells_def len)
qed

text \<open>
  C22. \<open>rbus_discoverElementsObjects\<close> does not keep the promise of \<open>rbus_core.h\<close>, that an element whose look-up
  fails is represented by an empty string in the array.  The router puts an empty string where an element has no route;
  the function does not copy it, and its index of the next item does not move past it, so it returns \<open>SUCCESS\<close> with the
  components before the first such element, and every component after it is lost; without an empty string the
  result is all components, in order.  When the router counts no component per element and there are two
  elements or more, the array is freed by a reallocation to 0 bytes (if that frees, as with glibc)
  and then a second time.
\<close>

theorem elements_objects_before_first_gap:
  assumes "rtmessage_api J items" and "\<forall>c. rt_result E (io s) c = RT_OK"
    and "\<forall>t. rtm_reply J (io s) t = router_answer J 0 (of_nat c) names" and "memory_available J"
    and "n < 2 ^ 31" and "0 < n" and "length elements = n" and "n * c = length names"
    and "length names < 2 ^ 30" and "c < 2 ^ 30"
  shows "if c = 0 \<and> 1 < n \<and> realloc_zero_frees J
    then rbus_discoverElementsObjects E J (of_nat n) (Some elements) s = None
    else (\<exists>cells s'. rbus_discoverElementsObjects E J (of_nat n) (Some elements) s =
        Some (RTMESSAGE_BUS_SUCCESS, \<lparr>d_count = Some (of_nat (length (routed names))), d_array = Some (Array cells)\<rparr>, s') \<and>
      take (length (routed names)) cells = map (\<lambda>x. Str (take (MAX_OBJECT_NAME_LENGTH E) x)) (routed names))"
proof -
  note api = assms(1)
  let ?msg = "router_answer J 0 (of_nat c) names"
  have n: "nat (sint (of_nat n :: int32)) = n" using sint_of_nat [OF assms(5)] by simp
  show ?thesis
  proof (cases "c = 0 \<and> 1 < n \<and> realloc_zero_frees J")
    case True
    then obtain k where k: "n = Suc (Suc k)" by (cases n; cases "n - 1") auto
    have "read_elements J ?msg (MAX_OBJECT_NAME_LENGTH E) n None 0 = None"
      unfolding k using True rtmessage_api.answer_ints(2) [OF api, of 0 "of_nat c" names] assms(4)
      by (intro read_no_components) simp_all
    with True show ?thesis
      using assms(2,3,7) n rtmessage_api.answer_ints(1) [OF api]
      by (simp add: rbus_discoverElementsObjects_def discovery_request_def rt_do_def Let_def)
  next
    case False
    have le: "length (routed names) \<le> length names" by (simp add: routed_def length_takeWhile_le)
    have "\<exists>array'. read_elements J ?msg (MAX_OBJECT_NAME_LENGTH E) n None (min 0 (length (routed names))) =
        Some (RTMESSAGE_BUS_SUCCESS, array', min (0 + n * c) (length (routed names))) \<and>
      (n = 0 \<longrightarrow> array' = None) \<and> (0 < n \<longrightarrow> (\<exists>cells. array' = Some cells \<and>
        copied (MAX_OBJECT_NAME_LENGTH E) names (min (0 + n * c) (length (routed names))) cells))"
      using assms(6,8-10) False
      by (intro read_elements_run [OF _ rtmessage_api.answer_ints(2) [OF api] assms(4)])
        (auto simp: rtmessage_api.answer_names(2) [OF api])
    then obtain cells where cells: "read_elements J ?msg (MAX_OBJECT_NAME_LENGTH E) n None 0 =
        Some (RTMESSAGE_BUS_SUCCESS, Some cells, length (routed names))"
      "copied (MAX_OBJECT_NAME_LENGTH E) names (length (routed names)) cells"
      using assms(6,8) le by (auto simp: min_absorb2)
    show ?thesis unfolding if_not_P [OF False]
      using assms(2,3,7) n cells rtmessage_api.answer_ints(1) [OF api]
      by (simp add: rbus_discoverElementsObjects_def discovery_request_def rt_do_def Let_def copied_def)
  qed
qed

section \<open>A concrete rtMessage\<close>

text \<open>
  A message as its integers and arrays; the instance models no code of the repository and serves the concrete runs.
\<close>

record jmsg =
  j_ints :: "string \<rightharpoonup> int32"
  j_items :: "string \<Rightarrow> string list"

definition plain_rtmessage :: "(io_call list \<Rightarrow> io_call \<Rightarrow> jmsg) \<Rightarrow> jmsg rtMessage_ops" where
  "plain_rtmessage reply =
     \<lparr>rtMessage_Create = \<lparr>j_ints = Map.empty, j_items = (\<lambda>_. [])\<rparr>,
      rtMessage_SetString = (\<lambda>m k v. m),
      rtMessage_SetInt32 = (\<lambda>m k v. m\<lparr>j_ints := (j_ints m)(k \<mapsto> v)\<rparr>),
      rtMessage_AddString = (\<lambda>m k x. m\<lparr>j_items := (j_items m)(k := j_items m k @ [x])\<rparr>),
      rtMessage_GetInt32 = j_ints,
      rtMessage_GetArrayLength = (\<lambda>m k. Some (of_nat (length (j_items m k)))),
      rtMessage_GetStringItem = (\<lambda>m k i. if i < length (j_items m k) then Some (j_items m k ! i) else None),
      rtMessage_ToByteArray = (\<lambda>_. []), rtm_reply = reply,
      rt_try_malloc = (\<lambda>_. True), rt_try_realloc = (\<lambda>_. True), realloc_zero_frees = True, strndup_succeeds = (\<lambda>_. True),
      RTM_DISCOVERY_EXPRESSION = ''expression'', RTM_DISCOVERY_RESULT = ''result'',
      RTM_DISCOVERY_COUNT = ''count'', RTM_DISCOVERY_ITEMS = ''items'',
      RTM_DISCOVER_WILDCARD_DESTINATIONS = ''_rtrouted.wildcard'', RTM_DISCOVER_OBJECT_ELEMENTS = ''_rtrouted.elements'',
      RTM_DISCOVER_ELEMENT_OBJECTS = ''_rtrouted.objects'', RTM_DISCOVER_REGISTERED_COMPONENTS = ''_rtrouted.components''\<rparr>"

interpretation plain_rtmessage: rtmessage_api "plain_rtmessage reply" j_items for reply
  by unfold_locales (simp_all add: plain_rtmessage_def)

definition answering :: "int32 \<Rightarrow> int32 \<Rightarrow> string list \<Rightarrow> jmsg rtMessage_ops" where
  "answering result count names =
     plain_rtmessage (\<lambda>_ _. router_answer (plain_rtmessage (\<lambda>_ _. \<lparr>j_ints = Map.empty, j_items = (\<lambda>_. [])\<rparr>)) result count names)"

lemma answering_facts:
  "rtmessage_api (answering result count names) j_items" "memory_available (answering result count names)"
  "rtm_reply (answering result count names) t c = router_answer (answering result count names) result count names"
  using plain_rtmessage.rtmessage_api_axioms
  by (simp_all add: answering_def memory_available_def) (simp_all add: plain_rtmessage_def router_answer_def)

definition no_strndup :: "jmsg rtMessage_ops" where
  "no_strndup = (answering 0 1 [''a''])\<lparr>strndup_succeeds := (\<lambda>_. False)\<rparr>"

lemma connected_calm:
  "g_connection ready_state \<noteq> None" "\<forall>c. rt_result (std_runtime calm_world) (io ready_state) c = RT_OK"
  by (simp_all add: subscriber_facts calm_result del: not_None_eq)

theorem discovery_returns_names_witness:
  "\<exists>s'. rbus_discoverObjectElements (std_runtime calm_world) (answering 0 2 [''a.b'', ''c'']) (Some ''obj'') True True
      ready_state = Some (RTMESSAGE_BUS_SUCCESS, names_found (std_runtime calm_world) [''a.b'', ''c''], s')"
proof -
  let ?J = "answering 0 2 [''a.b'', ''c'']"
  have "\<forall>c. rtm_reply ?J (io ready_state) c = router_answer ?J 0 (of_nat (length [''a.b'', ''c''])) [''a.b'', ''c'']"
    by (simp add: answering_facts(3))
  from discovery_returns_names [OF answering_facts(1) connected_calm this answering_facts(2), of "''obj''"]
  show ?thesis by auto
qed

theorem discovery_hides_failures_witness:
  "\<exists>s'. rbus_discoverWildcardDestinations (std_runtime calm_world) no_strndup (Some ''a*'') True True ready_state =
      Some (RTMESSAGE_BUS_SUCCESS, \<lparr>d_count = Some 1, d_array = Some Dangling\<rparr>, s')"
proof -
  let ?J = no_strndup and ?m = "router_answer (answering 0 1 [''a'']) 0 1 [''a'']"
  have m: "\<forall>c. rtm_reply ?J (io ready_state) c = ?m" "rtMessage_GetInt32 ?J ?m (RTM_DISCOVERY_RESULT ?J) = Some 0"
    "rtMessage_GetInt32 ?J ?m (RTM_DISCOVERY_COUNT ?J) = Some (of_nat 1)"
    "rtMessage_GetArrayLength ?J ?m (RTM_DISCOVERY_ITEMS ?J) = Some (of_nat 1)"
    by (simp_all add: no_strndup_def answering_def plain_rtmessage_def router_answer_def)
  have "rt_try_malloc ?J n" "copy_items ?J ?m lim [0] [Null] = None" for n lim
    by (simp_all add: no_strndup_def answering_def plain_rtmessage_def router_answer_def strndup_def)
  then show ?thesis
    using discovery_hides_failures [OF connected_calm m _ _ _ _ refl, of "''a*''"] by simp
qed

theorem elements_objects_before_first_gap_witness:
  "\<exists>cells s'. rbus_discoverElementsObjects (std_runtime calm_world) (answering 0 1 [''a'', [], ''b'']) 3
      (Some [''x'', ''y'', ''z'']) ready_state =
        Some (RTMESSAGE_BUS_SUCCESS, \<lparr>d_count = Some 1, d_array = Some (Array cells)\<rparr>, s') \<and>
    take 1 cells = [Str ''a'']"
proof -
  let ?J = "answering 0 1 [''a'', [], ''b'']" and ?E = "std_runtime calm_world"
  have a: "\<forall>t. rtm_reply ?J (io ready_state) t = router_answer ?J 0 (of_nat 1) [''a'', [], ''b'']"
    by (simp add: answering_facts(3))
  have l: "take (MAX_OBJECT_NAME_LENGTH ?E) ''a'' = ''a''" by (simp add: std_runtime_def calm_world_def)
  show ?thesis
    using elements_objects_before_first_gap [OF answering_facts(1) connected_calm(2) a answering_facts(2),
        of 3 "[''x'', ''y'', ''z'']"] l
    by (auto simp: routed_def)
qed

end
