(* ===== verification/Rbus_Debug.thy ===== *)
theory Rbus_Debug
  imports Rbus_Message
begin

text \<open>
  \<open>rbusMessage_ToDebugString\<close> of \<open>rbus-core/lib/rbus_message.c\<close>: the items of a message printed into a
  buffer of 2048 bytes.  \<open>msgpack_object_print_buffer\<close> is msgpack's; it is the parameter \<open>prn\<close>, a function of
  the message's bytes, the object and the room in the buffer, which returns its result and the bytes it
  writes.  The memory \<open>rt_malloc\<close> returns is not initialised: its contents are the parameter \<open>garbage\<close>.

  The outer \<open>None\<close> of the loop is running out of fuel, the inner one an access outside the
  buffer.
\<close>

type_synonym printer = "byte list \<Rightarrow> msgpack_object \<Rightarrow> nat \<Rightarrow> int \<times> byte list"

section \<open>The function\<close>

definition ALLOC_INCREMENT :: int where "ALLOC_INCREMENT = 2048"

text \<open>Stores at an offset of the buffer.\<close>

definition poke :: "byte list \<Rightarrow> int \<Rightarrow> byte list \<Rightarrow> byte list option" where
  "poke buffer i ws =
     (if 0 \<le> i \<and> nat i + length ws \<le> length buffer
      then Some (take (nat i) buffer @ ws @ drop (nat i + length ws) buffer) else None)"

definition out_of_room :: "int \<Rightarrow> msgpack_object \<Rightarrow> bool" where
  "out_of_room write_offset ob \<longleftrightarrow>
     1 \<ge> ALLOC_INCREMENT - write_offset \<or>
     (case ob of MSGPACK_OBJECT_STR _ n \<Rightarrow> sint (of_nat n :: int32) > ALLOC_INCREMENT - write_offset - 3
      | _ \<Rightarrow> False)"

definition ellipsis :: "byte list \<Rightarrow> int \<Rightarrow> (byte list \<times> int) option" where
  "ellipsis buffer write_offset =
     (let write_offset = (if ALLOC_INCREMENT - write_offset \<le> 4 then ALLOC_INCREMENT - 4 else write_offset)
      in map_option (\<lambda>b. (b, write_offset + 4)) (poke buffer write_offset [46, 46, 46, 0]))"

definition print_item :: "printer \<Rightarrow> byte list \<Rightarrow> msgpack_object \<Rightarrow> byte list \<Rightarrow> int \<Rightarrow> (byte list \<times> int) option" where
  "print_item prn data ob buffer write_offset =
     (case prn data ob (nat (ALLOC_INCREMENT - write_offset)) of (r, ws) \<Rightarrow> do {
        b \<leftarrow> poke buffer write_offset ws;
        let write_offset = write_offset + r;
        if 1 < ALLOC_INCREMENT - write_offset
        then map_option (\<lambda>b. (b, write_offset + 1)) (poke b write_offset [32, 0])
        else Some (b, write_offset)
      })"

fun debug_loop ::
    "nat \<Rightarrow> msgpack \<Rightarrow> printer \<Rightarrow> byte list \<Rightarrow> nat \<Rightarrow> byte list \<Rightarrow> int \<Rightarrow> (byte list \<times> int) option option" where
  "debug_loop 0 mp prn data off buffer write_offset = None"
| "debug_loop (Suc fuel) mp prn data off buffer write_offset =
     (case msgpack_unpack_next mp data off of
        (None, _) \<Rightarrow> Some (Some (buffer, write_offset))
      | (Some ob, off') \<Rightarrow>
          if out_of_room write_offset ob then Some (ellipsis buffer write_offset)
          else (case print_item prn data ob buffer write_offset of
              None \<Rightarrow> Some None
            | Some (buffer', write_offset') \<Rightarrow> debug_loop fuel mp prn data off' buffer' write_offset'))"

definition trim :: "byte list \<Rightarrow> int \<Rightarrow> (byte list \<times> int) option" where
  "trim buffer write_offset =
     (if write_offset = 0 then Some (buffer, 0)
      else if write_offset < 0 \<or> int (length buffer) < write_offset then None
      else if buffer ! nat (write_offset - 1) = 32
        then map_option (\<lambda>b. (b, write_offset - 1)) (poke buffer (write_offset - 1) [0])
      else Some (buffer, write_offset))"

text \<open>The buffer, its length as \<open>*n\<close> reports it, and the message, whose cursor is saved in an \<open>int\<close>.\<close>

definition rbusMessage_ToDebugString ::
    "nat \<Rightarrow> msgpack \<Rightarrow> printer \<Rightarrow> (nat \<Rightarrow> byte) \<Rightarrow> rbusMessage \<Rightarrow> (byte list \<times> int32 \<times> rbusMessage) option option" where
  "rbusMessage_ToDebugString fuel mp prn garbage m =
     (let saved_offset = int32_of_size (read_offset m)
      in map_option (\<lambda>r. do {
           (buffer, write_offset) \<leftarrow> r;
           (buffer', write_offset') \<leftarrow> trim buffer write_offset;
           Some (buffer', of_int write_offset', m\<lparr>read_offset := size_of_int32 saved_offset\<rparr>)
         }) (debug_loop fuel mp prn (sbuf m) 0 (map garbage [0..<nat ALLOC_INCREMENT]) 0))"

section \<open>The laws of the printer and of the unpacker\<close>

text \<open>
  \<open>shown\<close> is the text of an object.  Printing writes it with a terminator if both fit.  If they do not fit, the printer
  is trusted with little: the source says that it "will write past a buffer boundary if precision calls for it".
  So its writes are only known to stay inside the room \<open>n\<close> for a number or a binary, and for a string
  whose size leaves 3 bytes of it, for the quotes and the terminator; of a longer string, of an array
  or of a map (which may hold strings) nothing is assumed.  A successful unpack moves the offset forward and not past
  the end of the buffer, and a string it finds lies before the new offset.
\<close>

fun print_guarded :: "msgpack_object \<Rightarrow> nat \<Rightarrow> bool" where
  "print_guarded (MSGPACK_OBJECT_STR p k) n \<longleftrightarrow> k + 3 \<le> n"
| "print_guarded (MSGPACK_OBJECT_OTHER t) n \<longleftrightarrow> False"
| "print_guarded _ n \<longleftrightarrow> 0 < n"

locale debug_printing = msgpack_api mp for mp +
  fixes prn :: printer and shown :: "byte list \<Rightarrow> msgpack_object \<Rightarrow> byte list"
  assumes unpack_progress: "msgpack_unpack_next mp data off = (Some ob, off') \<Longrightarrow> off < off' \<and> off' \<le> length data"
    and string_inside: "msgpack_unpack_next mp data off = (Some (MSGPACK_OBJECT_STR p k), off') \<Longrightarrow> p + k \<le> off'"
    and print_fits: "length (shown data ob) < n \<Longrightarrow> prn data ob n = (int (length (shown data ob)), shown data ob @ [0])"
    and print_bounded: "print_guarded ob n \<Longrightarrow> prn data ob n = (r, ws) \<Longrightarrow>
      0 \<le> r \<and> r < int n \<and> length ws \<le> n \<and> (0 < r \<longrightarrow> nat r < length ws \<and> ws ! nat r = 0)"

text \<open>The objects of a buffer, the room an object needs, and texts separated by blanks.\<close>

fun unpack_all :: "nat \<Rightarrow> msgpack \<Rightarrow> byte list \<Rightarrow> nat \<Rightarrow> msgpack_object list" where
  "unpack_all 0 mp data off = []"
| "unpack_all (Suc fuel) mp data off =
     (case msgpack_unpack_next mp data off of (None, _) \<Rightarrow> [] | (Some ob, off') \<Rightarrow> ob # unpack_all fuel mp data off')"

text \<open>The items that setters write: no array, no map.\<close>

fun is_field :: "msgpack_object \<Rightarrow> bool" where
  "is_field (MSGPACK_OBJECT_OTHER t) \<longleftrightarrow> False"
| "is_field _ \<longleftrightarrow> True"

definition room :: "byte list \<Rightarrow> msgpack_object \<Rightarrow> nat" where
  "room t ob = (case ob of MSGPACK_OBJECT_STR _ n \<Rightarrow> max (length t) (n + 2) | _ \<Rightarrow> length t) + 1"

fun separated :: "byte list list \<Rightarrow> byte list" where
  "separated [] = []"
| "separated [t] = t"
| "separated (t # u # ts) = t @ 32 # separated (u # ts)"

section \<open>Facts\<close>

lemma poke_Some: "0 \<le> i \<Longrightarrow> nat i + length ws \<le> length buffer \<Longrightarrow>
  poke buffer i ws = Some (take (nat i) buffer @ ws @ drop (nat i + length ws) buffer)"
  by (simp add: poke_def)

lemma poke_at:
  assumes "k + length ws \<le> length buffer"
  obtains b where "poke buffer (int k) ws = Some b" and "length b = length buffer" and "take k b = take k buffer"
    and "\<And>j. j < length ws \<Longrightarrow> b ! (k + j) = ws ! j"
  using assms that [of "take k buffer @ ws @ drop (k + length ws) buffer"]
  by (auto simp: poke_def nth_append)

lemma separated_blank: "ts \<noteq> [] \<Longrightarrow> concat (map (\<lambda>t. t @ [32]) ts) = separated ts @ [32]"
  by (induction ts rule: separated.induct) auto

text \<open>A state of the loop: the text so far, and a terminator after it once there is any.\<close>

definition loop_ok :: "byte list \<Rightarrow> int \<Rightarrow> bool" where
  "loop_ok buffer wo \<longleftrightarrow>
     int (length buffer) = ALLOC_INCREMENT \<and> 0 \<le> wo \<and> wo < ALLOC_INCREMENT \<and> (0 < wo \<longrightarrow> buffer ! nat wo = 0)"

definition ending_ok :: "byte list \<Rightarrow> int \<Rightarrow> bool" where
  "ending_ok buffer wo \<longleftrightarrow>
     int (length buffer) = ALLOC_INCREMENT \<and> 0 < wo \<and> wo \<le> ALLOC_INCREMENT \<and>
     (buffer ! nat (wo - 1) = 0 \<or> wo < ALLOC_INCREMENT \<and> buffer ! nat wo = 0)"

lemma loop_ending: "loop_ok b wo \<Longrightarrow> 0 < wo \<Longrightarrow> ending_ok b wo"
  by (auto simp: loop_ok_def ending_ok_def)

lemma ellipsis_ok:
  assumes "loop_ok buffer wo"
  obtains b wo' where "ellipsis buffer wo = Some (b, wo')" and "ending_ok b wo'"
proof -
  let ?w = "if ALLOC_INCREMENT - wo \<le> 4 then ALLOC_INCREMENT - 4 else wo"
  have l: "nat ?w + length [46, 46, 46, 0 :: byte] \<le> length buffer" "0 \<le> ?w" "?w + 4 \<le> ALLOC_INCREMENT"
    using assms by (auto simp: loop_ok_def ALLOC_INCREMENT_def)
  obtain b where b: "poke buffer ?w [46, 46, 46, 0] = Some b" "length b = length buffer" "b ! (nat ?w + 3) = 0"
    using poke_at [OF l(1)] l(2) by (metis int_nat_eq length_Cons lessI list.size(3) nth_Cons_Suc nth_Cons_0 numeral_3_eq_3)
  moreover have "nat ?w + 3 = nat (?w + 4 - 1)" using l(2) by simp
  ultimately have "ending_ok b (?w + 4)" using assms l by (simp add: ending_ok_def loop_ok_def)
  then show thesis using that b by (simp add: ellipsis_def Let_def)
qed

context debug_printing
begin

lemma print_item_ok:
  assumes "loop_ok buffer wo" and "\<not> out_of_room wo ob" and field: "is_field ob"
    and str: "\<And>p k. ob = MSGPACK_OBJECT_STR p k \<Longrightarrow> k < 2 ^ 31"
  obtains b wo' where "print_item prn data ob buffer wo = Some (b, wo')" and "loop_ok b wo'" and "0 < wo'"
proof -
  have w: "0 \<le> wo" "1 < ALLOC_INCREMENT - wo" and len: "int (length buffer) = ALLOC_INCREMENT"
    using assms by (auto simp: loop_ok_def out_of_room_def)
  define n where "n = nat (ALLOC_INCREMENT - wo)"
  obtain r ws where p: "prn data ob n = (r, ws)" by fastforce
  have "print_guarded ob n"
  proof (cases ob)
    case (MSGPACK_OBJECT_STR p k)
    then have "sint (of_nat k :: int32) = int k"
      using str sint_int32_of_size [of k] by (simp add: int32_of_size_def)
    with assms(2) MSGPACK_OBJECT_STR w show ?thesis by (simp add: out_of_room_def n_def)
  qed (use field w in \<open>simp_all add: n_def\<close>)
  from print_bounded [OF this p]
  have r: "0 \<le> r" "r < int n" "length ws \<le> n" "0 < r \<longrightarrow> nat r < length ws \<and> ws ! nat r = 0"
    by simp_all
  have "nat wo + length ws \<le> length buffer" using r(3) w len by (simp add: n_def)
  from poke_at [OF this] obtain b where b: "poke buffer wo ws = Some b" "length b = length buffer"
      "\<And>j. j < length ws \<Longrightarrow> b ! (nat wo + j) = ws ! j"
    using w(1) by (metis int_nat_eq)
  show thesis
  proof (cases "1 < ALLOC_INCREMENT - (wo + r)")
    case True
    then have "nat (wo + r) + length [32, 0 :: byte] \<le> length b" using b(2) len w(1) r(1) by simp
    from poke_at [OF this] obtain b' where b': "poke b (wo + r) [32, 0] = Some b'" "length b' = length b"
        "b' ! (nat (wo + r) + 1) = 0"
      using w(1) r(1) by (metis int_nat_eq add_nonneg_nonneg One_nat_def length_Cons lessI list.size(3) nth_Cons_0 nth_Cons_Suc)
    moreover have "nat (wo + r) + 1 = nat (wo + r + 1)" using w(1) r(1) by simp
    ultimately have "loop_ok b' (wo + r + 1)" using True b(2) len w(1) r(1) by (simp add: loop_ok_def)
    then show thesis
      using that [of b' "wo + r + 1"] b b' p True w(1) r(1) by (simp add: print_item_def n_def)
  next
    case False
    then have full: "wo + r = ALLOC_INCREMENT - 1" "0 < r" using r(2) w by (simp_all add: n_def)
    have e: "nat (wo + r) = nat wo + nat r" using r(1) w(1) by simp
    have "b ! nat (wo + r) = 0" unfolding e using b(3) [of "nat r"] r(4) full(2) by simp
    then have "loop_ok b (wo + r)" using b(2) len full w(1) by (simp add: loop_ok_def)
    then show thesis using that [of b "wo + r"] b p False full w(1) by (simp add: print_item_def n_def)
  qed
qed

lemma debug_loop_ok:
  assumes "loop_ok buffer wo" and "length data < fuel + off" and "off \<le> length data"
    and "length data < 2 ^ 31" and "\<forall>ob\<in>set (unpack_all fuel mp data off). is_field ob"
  shows "\<exists>b wo'. debug_loop fuel mp prn data off buffer wo = Some (Some (b, wo')) \<and>
    (ending_ok b wo' \<or> fst (msgpack_unpack_next mp data off) = None \<and> wo = 0 \<and> wo' = 0 \<and> b = buffer)"
  using assms
proof (induction fuel arbitrary: off buffer wo)
  case (Suc fuel)
  obtain o' off' where u: "msgpack_unpack_next mp data off = (o', off')" by fastforce
  show ?case
  proof (cases o')
    case None
    then show ?thesis using Suc.prems u by (cases "0 < wo") (auto simp: loop_ending loop_ok_def)
  next
    case (Some ob)
    have adv: "off < off'" "off' \<le> length data" using unpack_progress u Some by simp_all
    show ?thesis
    proof (cases "out_of_room wo ob")
      case True
      obtain b wo' where "ellipsis buffer wo = Some (b, wo')" "ending_ok b wo'" by (rule ellipsis_ok [OF Suc.prems(1)])
      then show ?thesis using u Some True by simp
    next
      case False
      have str: "k < 2 ^ 31" if "ob = MSGPACK_OBJECT_STR p k" for p k
        using string_inside [of data off p k off'] u Some that adv(2) Suc.prems(4) by simp
      have field: "is_field ob" using Suc.prems(5) u Some by simp
      from print_item_ok [OF Suc.prems(1) False field str, where data = data]
      obtain b wo' where b: "print_item prn data ob buffer wo = Some (b, wo')" "loop_ok b wo'" "0 < wo'" .
      have "\<exists>c w. debug_loop fuel mp prn data off' b wo' = Some (Some (c, w)) \<and>
          (ending_ok c w \<or> fst (msgpack_unpack_next mp data off') = None \<and> wo' = 0 \<and> w = 0 \<and> c = b)"
        using Suc.prems(2,4,5) u Some adv b by (intro Suc.IH) simp_all
      then show ?thesis using u Some False b by auto
    qed
  qed
qed simp

lemma print_item_text:
  assumes "length buffer = 2048" and "take (length pre) buffer = pre" and "length pre + room (shown data ob) ob < 2048"
  shows "\<not> out_of_room (int (length pre)) ob"
    and "\<exists>b. print_item prn data ob buffer (int (length pre)) = Some (b, int (length (pre @ shown data ob @ [32]))) \<and>
      length b = 2048 \<and> take (length (pre @ shown data ob @ [32])) b = pre @ shown data ob @ [32]"
proof -
  let ?t = "shown data ob"
  have room: "length pre + length ?t + 1 < 2048" using assms(3) by (simp add: room_def split: msgpack_object.splits)
  show "\<not> out_of_room (int (length pre)) ob"
    using assms(3)
    by (auto simp: out_of_room_def ALLOC_INCREMENT_def room_def signed_of_nat signed_take_bit_int_eq_self
        split: msgpack_object.splits)
  have p: "prn data ob (nat (ALLOC_INCREMENT - int (length pre))) = (int (length ?t), ?t @ [0])"
    using room by (intro print_fits) (simp add: ALLOC_INCREMENT_def)
  let ?b = "pre @ ?t @ 0 # drop (length pre + length ?t + 1) buffer"
  have "poke buffer (int (length pre)) (?t @ [0]) = Some ?b"
    using room assms(1,2) by (simp add: poke_def)
  moreover have "poke ?b (int (length pre) + int (length ?t)) [32, 0] =
      Some (pre @ ?t @ 32 # 0 # drop (length pre + length ?t + 2) buffer)"
    using room assms(1) by (simp add: poke_def nat_add_distrib drop_Suc)
  ultimately show "\<exists>b. print_item prn data ob buffer (int (length pre)) = Some (b, int (length (pre @ ?t @ [32]))) \<and>
      length b = 2048 \<and> take (length (pre @ ?t @ [32])) b = pre @ ?t @ [32]"
    using room assms(1) p by (simp add: print_item_def ALLOC_INCREMENT_def)
qed

lemma debug_loop_text:
  assumes "length buffer = 2048" and "take (length pre) buffer = pre"
    and "length pre + sum_list (map (\<lambda>ob. room (shown data ob) ob) (unpack_all fuel mp data off)) < 2048"
    and "length data < fuel + off" and "off \<le> length data"
    and "full = pre @ concat (map (\<lambda>ob. shown data ob @ [32]) (unpack_all fuel mp data off))"
  shows "\<exists>b. debug_loop fuel mp prn data off buffer (int (length pre)) = Some (Some (b, int (length full))) \<and>
    length b = 2048 \<and> take (length full) b = full"
  using assms
proof (induction fuel arbitrary: off buffer pre)
  case (Suc fuel)
  obtain o' off' where u: "msgpack_unpack_next mp data off = (o', off')" by fastforce
  show ?case
  proof (cases o')
    case None
    then show ?thesis using Suc.prems u by simp
  next
    case (Some ob)
    have adv: "off < off'" "off' \<le> length data" using unpack_progress u Some by simp_all
    let ?pre = "pre @ shown data ob @ [32]"
    have fits: "length pre + room (shown data ob) ob < 2048" using Suc.prems(3) u Some by simp
    from print_item_text [OF Suc.prems(1,2) this] obtain b where b:
        "print_item prn data ob buffer (int (length pre)) = Some (b, int (length ?pre))"
        "length b = 2048" "take (length ?pre) b = ?pre" "\<not> out_of_room (int (length pre)) ob"
      by blast
    have "length ?pre \<le> length pre + room (shown data ob) ob" by (simp add: room_def split: msgpack_object.splits)
    then have "\<exists>c. debug_loop fuel mp prn data off' b (int (length ?pre)) = Some (Some (c, int (length full))) \<and>
        length c = 2048 \<and> take (length full) c = full"
      using Suc.prems(3,4,6) u Some adv b(2,3) by (intro Suc.IH) simp_all
    then show ?thesis using u Some b(1,4) by simp
  qed
qed simp

end



section \<open>Properties\<close>


text \<open>
  C24. The debug string of a message whose items fit the buffer: the texts of its items in order, with a blank
  between two of them, and its length.
\<close>

theorem debug_string_text:
  assumes "debug_printing mp prn shown" and "length (sbuf m) < fuel" and "obs = unpack_all fuel mp (sbuf m) 0"
    and "obs \<noteq> []" and "sum_list (map (\<lambda>ob. room (shown (sbuf m) ob) ob) obs) < 2048"
    and "text = separated (map (shown (sbuf m)) obs)"
  shows "\<exists>buffer m'. rbusMessage_ToDebugString fuel mp prn garbage m = Some (Some (buffer, of_nat (length text), m')) \<and>
    take (length text) buffer = text \<and> buffer ! length text = 0"
proof -
  let ?g = "map garbage [0..<nat ALLOC_INCREMENT]" and ?full = "text @ [32]"
  have full: "?full = [] @ concat (map (\<lambda>ob. shown (sbuf m) ob @ [32]) obs)"
    using separated_blank [of "map (shown (sbuf m)) obs"] assms(4,6) by (simp add: comp_def)
  have "length ?g = 2048" by (simp add: ALLOC_INCREMENT_def)
  from debug_printing.debug_loop_text [OF assms(1) this, of "[]" "sbuf m" fuel 0 ?full]
  obtain b where b: "debug_loop fuel mp prn (sbuf m) 0 ?g 0 = Some (Some (b, int (length ?full)))"
      "length b = 2048" "take (length ?full) b = ?full"
    using assms(2,3,5) full by auto
  have len: "length text < 2048" using arg_cong [OF b(3), of length] b(2) by simp
  have "b ! length text = 32" using arg_cong [OF b(3), of "\<lambda>x. x ! length text"] by simp
  then have "trim b (int (length ?full)) = Some (take (length text) b @ 0 # drop (Suc (length text)) b, int (length text))"
    using len b(2) by (simp add: trim_def poke_def nat_add_distrib)
  moreover have "take (length text) b = text" using arg_cong [OF b(3), of "take (length text)"] by simp
  ultimately show ?thesis using b len by (auto simp: rbusMessage_ToDebugString_def Let_def)
qed

section \<open>A concrete printer\<close>

text \<open>
  A printer that keeps the laws and no more: integers in decimal, strings in quotes up to their terminator, other
  objects as a question mark.  A string that does not fit is written past the room.  It models no code of the
  repository and serves the concrete runs.
\<close>

fun decimal :: "nat \<Rightarrow> byte list" where
  "decimal n = (if n < 10 then [] else decimal (n div 10)) @ [48 + of_nat (n mod 10)]"

declare decimal.simps [simp del]

fun plain_text :: "byte list \<Rightarrow> msgpack_object \<Rightarrow> byte list" where
  "plain_text data (MSGPACK_OBJECT_POSITIVE_INTEGER v) = decimal (unat v)"
| "plain_text data (MSGPACK_OBJECT_NEGATIVE_INTEGER v) = 45 # decimal (nat (- sint v))"
| "plain_text data (MSGPACK_OBJECT_STR p n) = 34 # takeWhile (\<lambda>b. b \<noteq> 0) (take n (drop p data)) @ [34]"
| "plain_text data _ = [63]"

definition plain_printer :: printer where
  "plain_printer data ob n =
     (let t = plain_text data ob
      in if length t < n then (int (length t), t @ [0])
         else case ob of
           MSGPACK_OBJECT_STR p k \<Rightarrow> (int (length t), t @ [0])
         | _ \<Rightarrow> (0, take (n - 1) t @ [0]))"

lemma plain_text_string: "length (plain_text data (MSGPACK_OBJECT_STR p k)) \<le> k + 2"
proof -
  have "length (takeWhile (\<lambda>b. b \<noteq> 0) (take k (drop p data))) \<le> length (take k (drop p data))"
    by (rule length_takeWhile_le)
  then show ?thesis by simp
qed

lemma plain_printer_bounded:
  assumes "print_guarded ob n" and "plain_printer data ob n = (r, ws)"
  shows "0 \<le> r \<and> r < int n \<and> length ws \<le> n \<and> (0 < r \<longrightarrow> nat r < length ws \<and> ws ! nat r = 0)"
proof (cases ob)
  case (MSGPACK_OBJECT_STR p k)
  with assms plain_text_string [of data p k] show ?thesis
    by (auto simp: plain_printer_def Let_def nth_append simp del: plain_text.simps)
qed (use assms in \<open>auto simp: plain_printer_def Let_def nth_append simp del: plain_text.simps split: if_splits\<close>)

lemma mp_take_bounds:
  "mp_take n f r = Some (ob, k) \<Longrightarrow> 0 < k \<and> k \<le> Suc (length r) \<and> (\<exists>x. ob = f x)"
  by (auto simp: mp_take_def split: if_splits)

lemma mp_blob_bounds:
  "mp_blob con n r off = Some (ob, k) \<Longrightarrow>
   0 < k \<and> k \<le> Suc (length r) \<and> (\<exists>l. ob = con (off + Suc n) l \<and> k = Suc (n + l))"
  by (auto simp: mp_blob_def Let_def split: if_splits)

lemma int_object_no_string [simp]: "int_object v \<noteq> MSGPACK_OBJECT_STR p k"
  by (simp add: int_object_def)

lemma mp_decode_bounds:
  assumes "mp_decode bs off = Some (ob, n)"
  shows "0 < n \<and> n \<le> length bs \<and> (\<forall>p k. ob = MSGPACK_OBJECT_STR p k \<longrightarrow> p + k \<le> off + n)"
  using assms
  by (cases bs) (simp_all add: mp_decode_def Let_def split: if_splits,
      auto dest!: mp_take_bounds mp_blob_bounds)

lemma mp_unpack_bounds:
  assumes "msgpack_unpack_next messagepack data off = (Some ob, off')"
  shows "off < off' \<and> off' \<le> length data \<and> (\<forall>p k. ob = MSGPACK_OBJECT_STR p k \<longrightarrow> p + k \<le> off')"
proof -
  from assms obtain n where n: "mp_decode (drop off data) off = Some (ob, n)" "off' = off + n"
    by (auto simp: mp_unpack_def split: option.splits)
  with mp_decode_bounds [OF n(1)] show ?thesis by auto
qed

interpretation plain: debug_printing messagepack plain_printer plain_text
proof unfold_locales
  fix data off ob off'
  assume "msgpack_unpack_next messagepack data off = (Some ob, off')"
  from mp_unpack_bounds [OF this] show "off < off' \<and> off' \<le> length data" by blast
next
  fix data off p k off'
  assume "msgpack_unpack_next messagepack data off = (Some (MSGPACK_OBJECT_STR p k), off')"
  from mp_unpack_bounds [OF this] show "p + k \<le> off'" by blast
next
  fix data ob n
  assume "length (plain_text data ob) < n"
  then show "plain_printer data ob n = (int (length (plain_text data ob)), plain_text data ob @ [0])"
    by (simp add: plain_printer_def Let_def del: plain_text.simps)
qed (rule plain_printer_bounded)

definition two_items :: rbusMessage where
  "two_items = rbusMessage_FromBytes messagepack [7, 0xa2, 111, 0]"

lemma two_items_facts: "sbuf two_items = [7, 0xa2, 111, 0]" "read_offset two_items = 0"
  by (simp_all add: two_items_def rbusMessage_FromBytes_def messagepack_def)

lemma two_items_unpacked: "unpack_all 5 messagepack (sbuf two_items) 0 =
    [MSGPACK_OBJECT_POSITIVE_INTEGER 7, MSGPACK_OBJECT_STR 2 2]"
proof -
  let ?obs = "[MSGPACK_OBJECT_POSITIVE_INTEGER 7, MSGPACK_OBJECT_STR 2 2]"
  have "mp_unpack (sbuf two_items) 0 = (Some (?obs ! 0), 1)" "mp_unpack (sbuf two_items) 1 = (Some (?obs ! 1), 4)"
    "mp_unpack (sbuf two_items) 4 = (None, 4)"
    by (simp_all add: two_items_facts(1) mp_unpack_def mp_decode_def)
  moreover have "(5 :: nat) = Suc (Suc (Suc 2))" by simp
  ultimately show ?thesis by (simp only: unpack_all.simps unpack_messagepack) simp
qed


theorem debug_string_text_witness:
  "\<exists>buffer m'. rbusMessage_ToDebugString 5 messagepack plain_printer (\<lambda>_. 0xff) two_items =
      Some (Some (buffer, 5, m')) \<and> take 5 buffer = [55, 32, 34, 111, 34] \<and> buffer ! 5 = 0"
proof -
  let ?obs = "[MSGPACK_OBJECT_POSITIVE_INTEGER 7, MSGPACK_OBJECT_STR 2 2]"
  note b = two_items_facts(1)
  note obs = two_items_unpacked
  have t: "separated (map (plain_text (sbuf two_items)) ?obs) = [55, 32, 34, 111, 34]"
    by (simp add: b decimal.simps)
  show ?thesis
    using debug_string_text [OF plain.debug_printing_axioms _ obs [symmetric] _ _ t [symmetric], of "\<lambda>_. 0xff"]
    by (simp add: b room_def decimal.simps) (simp add: eval_nat_numeral)
qed

end
