(* ===== verification/Rbus_Process.thy ===== *)
theory Rbus_Process
  imports Rbus_Connection
begin

text \<open>
  A whole process as a state machine: the calls of its application on the registry and on the table of
  subscriptions, interleaved with the events and requests the router delivers.  Both tables live in one
  state with one mutex, one heap of messages and one trace; the theorems say what every operation does in every
  reachable state, on its own table, on the other one and on the trace, and that requests which arrive while another one is
  handled are lost.
\<close>

section \<open>Operations\<close>

datatype process_op =
    Server_Op server_op
  | Subscribe string string fnptr user_data int
  | Unsubscribe string string
  | Set_Master_Handler "fnptr option" user_data
  | Incoming_Event rtMessageHeader "byte list" string string int32
  | Incoming_Call rtMessageHeader string "byte list" string
  | Incoming_Subscription rtMessageHeader string string string bool

text \<open>
  A request goes to the listener that \<open>rbus_registerObj\<close> has installed for its object, if there is one.  One unit
  of fuel is enough, since the queue of requests that arrive during another one stays empty.
\<close>

definition deliver :: "runtime \<Rightarrow> rtMessageHeader \<Rightarrow> string \<Rightarrow> byte list \<Rightarrow> rbus_state \<Rightarrow> rbus_state option" where
  "deliver E hdr n data s =
     (case reg_find s n of
        None \<Rightarrow> Some s
      | Some p \<Rightarrow> (case onMessage 1 E hdr data p s of Some r \<Rightarrow> r | None \<Rightarrow> None))"

definition subscription_bytes :: "runtime \<Rightarrow> string \<Rightarrow> string \<Rightarrow> bool \<Rightarrow> byte list" where
  "subscription_bytes E ev sub activate =
     method_bytes (mp E) (enc_fields (mp E) (subscription_fields ev sub None)) (subscription_method activate)"

fun process_call :: "runtime \<Rightarrow> process_op \<Rightarrow> rbus_state \<Rightarrow> (rbus_error_t \<times> rbus_state) option" where
  "process_call E (Server_Op x) s = server_call E x s"
| "process_call E (Subscribe n ev f d t) s =
     map_option (\<lambda>(c, _, s'). (c, s')) (rbus_subscribeToEventTimeout E (Some n) (Some ev) (Some f) None d t s)"
| "process_call E (Unsubscribe n ev) s = rbus_unsubscribeFromEvent E (Some n) (Some ev) None s"
| "process_call E (Set_Master_Handler f d) s = Some (rbus_registerMasterEventHandler f d s)"
| "process_call E (Incoming_Event hdr body ev n k) s =
     map_option (Pair RTMESSAGE_BUS_SUCCESS) (master_event_callback E hdr (event_bytes (mp E) body ev n k) s)"
| "process_call E (Incoming_Call hdr n body name) s =
     map_option (Pair RTMESSAGE_BUS_SUCCESS) (deliver E hdr n (method_bytes (mp E) body name) s)"
| "process_call E (Incoming_Subscription hdr n ev sub activate) s =
     map_option (Pair RTMESSAGE_BUS_SUCCESS) (deliver E hdr n (subscription_bytes E ev sub activate) s)"

section \<open>The environment\<close>

text \<open>
  What the router and the application may do: the router answers requests with messages that carry a method, the
  responses of the application fit a message, and a vector that was never created stays \<open>NULL\<close> and empty.  The
  results of the application's callbacks, whether they leave a response, and the requests that arrive while they run are arbitrary.
\<close>

definition environment_ok :: "runtime \<Rightarrow> bool" where
  "environment_ok E \<longleftrightarrow>
     (\<forall>t c. answer_ok E t c \<and> method_fits (mp E) (response_body E t c) METHOD_RESPONSE) \<and>
     (\<forall>w. method_fits (mp E) (enc_int32 (mp E) w) METHOD_RESPONSE) \<and>
     rtVector_PushBack (reqs_v E) None = (\<lambda>_. None) \<and> rtVector_Size (reqs_v E) None = 0"

text \<open>The callback that a request for a method reaches.\<close>

definition called :: "abs_object \<Rightarrow> string \<Rightarrow> abs_method" where
  "called a name = (case ao_methods a name of None \<Rightarrow> ao_callback a | Some am \<Rightarrow> am)"

text \<open>
  The operations covered.  On the registry: every one, with names below 2 GiB for new objects.  Subscriptions and
  their cancellation: names over the limits, or a request that can be built.  Events: well-formed, from any sender.
  Method calls: well-formed, requests or not, to an unknown object, or to a callback of the application.
  Subscription requests: well-formed and without a payload, for events known or not, at an unknown object or at one
  that has its subscription methods.
\<close>

fun admissible :: "runtime \<Rightarrow> process_op \<Rightarrow> rbus_state \<Rightarrow> bool" where
  "admissible E (Server_Op x) s \<longleftrightarrow> server_op_ok x"
| "admissible E (Subscribe n ev f d t) s \<longleftrightarrow>
     MAX_OBJECT_NAME_LENGTH E \<le> length n \<or> MAX_EVENT_NAME_LENGTH E \<le> length ev \<or>
     subscription_sendable E n ev True None (g_connection s)"
| "admissible E (Unsubscribe n ev) s \<longleftrightarrow>
     MAX_OBJECT_NAME_LENGTH E \<le> length n \<or> subscription_sendable E n ev False None (g_connection s)"
| "admissible E (Set_Master_Handler f d) s \<longleftrightarrow> True"
| "admissible E (Incoming_Event hdr body ev n k) s \<longleftrightarrow> event_fits (mp E) body ev n k"
| "admissible E (Incoming_Call hdr n body name) s \<longleftrightarrow> method_fits (mp E) body name \<and>
     (case abs_reg s n of None \<Rightarrow> True | Some a \<Rightarrow> called a name \<noteq> AM_Subscription)"
| "admissible E (Incoming_Subscription hdr n ev sub activate) s \<longleftrightarrow>
     rtMessageHeader_IsRequest E hdr \<and> cname_ok ev \<and> cname_ok sub \<and>
     method_fits (mp E) (enc_fields (mp E) (subscription_fields ev sub None)) (subscription_method activate) \<and>
     (case abs_reg s n of None \<Rightarrow> True | Some a \<Rightarrow> ao_methods a (subscription_method activate) = Some AM_Subscription)"

section \<open>Invariant and specification\<close>

definition process_inv :: "runtime \<Rightarrow> rbus_state \<Rightarrow> bool" where
  "process_inv E s \<longleftrightarrow> registry_wf E s \<and> subs_wf E s \<and> idle E s \<and> \<not> g_mutex s \<and>
     g_connection s \<noteq> None \<and> g_queued_requests s = Live None"

text \<open>The calls that a request for a method makes: the application's callback, and the response.\<close>

definition served_calls ::
    "runtime \<Rightarrow> io_call list \<Rightarrow> abs_object \<Rightarrow> rtMessageHeader \<Rightarrow> byte list \<Rightarrow> string \<Rightarrow> io_call list" where
  "served_calls E t a hdr body name =
     (case called a name of
        AM_Subscription \<Rightarrow> []
      | AM_App g d \<Rightarrow>
          let c = App_Rpc g (topic hdr) (Some name)
            (rbusMessage_FromBytes (mp E) (method_bytes (mp E) body name)) d hdr
          in c # (if \<not> rtMessageHeader_IsRequest E hdr \<or> ao_methods a name = None \<and>
                     app_result E t c = rbus_error_code RTMESSAGE_BUS_SUCCESS_ASYNC then []
            else [Rt_SendBinaryResponse hdr (method_bytes (mp E) (response_body E t c) METHOD_RESPONSE)
              TIMEOUT_VALUE_FIRE_AND_FORGET]))"

definition incoming_event_calls ::
    "runtime \<Rightarrow> rbus_state \<Rightarrow> string \<Rightarrow> string \<Rightarrow> rbusMessage \<Rightarrow> int32 \<Rightarrow> io_call list" where
  "incoming_event_calls E s sender ev m k =
     (if MAX_OBJECT_NAME_LENGTH E \<le> length sender then []
      else case (if k = 0 then None else g_master_event_callback s) of
        None \<Rightarrow> listed_calls s sender ev m
      | Some f \<Rightarrow> let c = App_Event f sender (Some ev) m (g_master_event_user_data s)
          in c # (if app_result E (io s) c \<noteq> rbus_error_code RTMESSAGE_BUS_EVENT_NOT_HANDLED then []
                  else listed_calls s sender ev m))"

text \<open>What an operation does, given its code: the registry, the table of subscriptions and the trace.\<close>

fun process_spec :: "runtime \<Rightarrow> process_op \<Rightarrow> rbus_state \<Rightarrow> rbus_error_t \<Rightarrow> rbus_state \<Rightarrow> bool" where
  "process_spec E (Server_Op x) s c s' \<longleftrightarrow>
     server_step E True x (server_abs s) = (c, server_abs s') \<and> abs_subs s' = abs_subs s"
| "process_spec E (Subscribe n ev f d t) s c s' \<longleftrightarrow> abs_reg s' = abs_reg s \<and>
     (let req = subscription_call E n ev True None t (g_connection s); tr = io s @ listener_setup s
      in if MAX_OBJECT_NAME_LENGTH E \<le> length n \<or> MAX_EVENT_NAME_LENGTH E \<le> length ev
         then c = RTMESSAGE_BUS_ERROR_INVALID_PARAM \<and> s' = s
         else if g_master_event_callback s = None \<and> abs_subs s (n, ev) \<noteq> None
         then c = RTMESSAGE_BUS_SUCCESS \<and> abs_subs s' = abs_subs s \<and> io s' = tr
         else io s' = tr @ [req] \<and> (rt_result E tr req \<noteq> RT_OK \<longrightarrow> c \<noteq> RTMESSAGE_BUS_SUCCESS) \<and>
           abs_subs s' = (if c = RTMESSAGE_BUS_SUCCESS \<and> g_master_event_callback s = None
             then (abs_subs s)((n, ev) \<mapsto> (f, d)) else abs_subs s))"
| "process_spec E (Unsubscribe n ev) s c s' \<longleftrightarrow> abs_reg s' = abs_reg s \<and>
     (if MAX_OBJECT_NAME_LENGTH E \<le> length n then c = RTMESSAGE_BUS_ERROR_INVALID_PARAM \<and> s' = s
      else io s' = io s @ [subscription_call E n ev False None 0 (g_connection s)] \<and>
        abs_subs s' = (if g_master_event_callback s = None then (abs_subs s)((n, ev) := None) else abs_subs s))"
| "process_spec E (Set_Master_Handler f d) s c s' \<longleftrightarrow>
     s' = s\<lparr>g_master_event_callback := f, g_master_event_user_data := d\<rparr> \<and> c = RTMESSAGE_BUS_SUCCESS"
| "process_spec E (Incoming_Event hdr body ev n k) s c s' \<longleftrightarrow> abs_reg s' = abs_reg s \<and> abs_subs s' = abs_subs s \<and>
     io s' = io s @ incoming_event_calls E s (reply_topic hdr) ev
       (rbusMessage_FromBytes (mp E) (event_bytes (mp E) body ev n k)) k"
| "process_spec E (Incoming_Call hdr n body name) s c s' \<longleftrightarrow> abs_reg s' = abs_reg s \<and> abs_subs s' = abs_subs s \<and>
     io s' = io s @ (case abs_reg s n of None \<Rightarrow> [] | Some a \<Rightarrow> served_calls E (io s) a hdr body name)"
| "process_spec E (Incoming_Subscription hdr n ev sub activate) s c s' \<longleftrightarrow> abs_subs s' = abs_subs s \<and>
     (case abs_reg s n of
        None \<Rightarrow> s' = s
      | Some a \<Rightarrow> (case subscription_result E (io s) n a ev sub activate of (ret, calls, a') \<Rightarrow>
          abs_reg s' = (abs_reg s)(n \<mapsto> a') \<and> io s' = io s @ calls @ [Rt_SendBinaryResponse hdr
            (method_bytes (mp E) (enc_int32 (mp E) (error_int32 ret)) METHOD_RESPONSE) TIMEOUT_VALUE_FIRE_AND_FORGET]))"

text \<open>The states a process goes through.\<close>

inductive process_run :: "runtime \<Rightarrow> rbus_state \<Rightarrow> process_op list \<Rightarrow> rbus_state \<Rightarrow> bool" for E where
  run_Nil: "process_run E s [] s"
| run_Cons: "admissible E x s \<Longrightarrow> process_call E x s = Some (c, s1) \<Longrightarrow> process_run E s1 xs s2 \<Longrightarrow>
    process_run E s (x # xs) s2"

inductive_simps process_run_Nil [simp]: "process_run E s [] s'"
inductive_simps process_run_Cons: "process_run E s (x # xs) s'"

section \<open>Facts\<close>

lemma client_core_fields:
  "objs (client_core s) = objs s" "g_server_objects (client_core s) = g_server_objects s" "msgs (client_core s) = msgs s"
  "stack_counter (client_core s) = stack_counter s" "g_queued_requests (client_core s) = g_queued_requests s"
  "g_connection (client_core s) = g_connection s"
  by (simp_all add: client_core_def)

lemma same_client_core:
  assumes "client_core s' = client_core s"
  shows "objs s' = objs s" "g_server_objects s' = g_server_objects s" "msgs s' = msgs s"
    "stack_counter s' = stack_counter s" "g_queued_requests s' = g_queued_requests s"
    "g_connection s' = g_connection s"
  using assms client_core_fields by metis+

lemma answered:
  assumes "environment_ok E"
  obtains body name where "rt_result E t c \<noteq> RT_OK \<or> rt_reply E t c = method_bytes (mp E) body name \<and>
    method_fits (mp E) body name"
proof -
  have "answer_ok E t c" using assms by (simp add: environment_ok_def)
  then show thesis using that by (auto simp: answer_ok_def)
qed

text \<open>An operation on the registry keeps the client's part of the invariant, and the other way round.\<close>

lemma server_side_inv:
  assumes "process_inv E s" and "server_core s' = server_core s" and "registry_wf E s'" and "next_ptr s \<le> next_ptr s'"
    and "\<not> g_mutex s'"
  shows "process_inv E s'" and "abs_subs s' = abs_subs s"
  using assms same_server_core [OF assms(2)] subs_frame [of s' s]
  by (auto simp: process_inv_def idle_def heap_fresh_def)

lemma client_side_inv:
  assumes "process_inv E s" and "client_core s' = client_core s" and "subs_wf E s'" and "next_ptr s \<le> next_ptr s'"
    and "\<not> g_mutex s'"
  shows "process_inv E s'" and "abs_reg s' = abs_reg s"
proof -
  note core = same_client_core [OF assms(2)]
  have reg: "registry_wf E s'" "abs_reg s' = abs_reg s"
    using registry_cong [of s' s] assms(1,4) core by (simp_all add: process_inv_def)
  then show "process_inv E s'" "abs_reg s' = abs_reg s"
    using assms core by (auto simp: process_inv_def idle_def heap_fresh_def)
qed

lemma unlock_free: "\<not> g_mutex s \<Longrightarrow> unlock s = s"
  by (simp add: unlock_def)

lemma found_object:
  assumes "registry_wf E s"
  shows "reg_find s n = None \<longleftrightarrow> abs_reg s n = None"
proof (cases "reg_find s n")
  case (Some p)
  from assms Some obtain ob where "abs_reg s n = Some (abs_object ob)" by (rule reg_find_abs)
  with Some show ?thesis by simp
qed (simp add: abs_reg_def)

context rbus_runtime
begin

lemma server_op_step:
  assumes inv: "process_inv E s" and ok: "admissible E (Server_Op x) s"
  shows "\<exists>c s'. process_call E (Server_Op x) s = Some (c, s') \<and> process_inv E s' \<and> process_spec E (Server_Op x) s c s'"
proof -
  have s: "registry_wf E s" "server_op_ok x" "\<not> g_mutex s" "g_connection s \<noteq> None"
    using inv ok by (simp_all add: process_inv_def)
  obtain c s' where s': "server_call E x s = Some (c, s')" "registry_wf E s'"
    "server_step E (g_connection s \<noteq> None) x (server_abs s) = (c, server_abs s')"
    "g_mutex s' \<longrightarrow> g_mutex s" "next_ptr s \<le> next_ptr s'" "server_core s' = server_core s"
    by (rule server_call_refines [OF s(1,2)])
  moreover have "process_inv E s'" "abs_subs s' = abs_subs s"
    using server_side_inv [OF inv s'(6,2,5)] s'(4) s(3) by simp_all
  ultimately show ?thesis using s(4) by auto
qed

lemma subscribe_step:
  assumes inv: "process_inv E s" and env: "environment_ok E" and ok: "admissible E (Subscribe n ev f d t) s"
  shows "\<exists>c s'. process_call E (Subscribe n ev f d t) s = Some (c, s') \<and> process_inv E s' \<and>
    process_spec E (Subscribe n ev f d t) s c s'"
proof (cases "MAX_OBJECT_NAME_LENGTH E \<le> length n \<or> MAX_EVENT_NAME_LENGTH E \<le> length ev")
  case True
  then show ?thesis
    using inv by (auto simp: rbus_subscribeToEventTimeout_def rbus_subscribeToEventInternal_def strnlen_ge_iff process_inv_def)
next
  case False
  have s: "subs_wf E s" "heap_fresh s" "g_connection s \<noteq> None" using inv by (simp_all add: process_inv_def idle_def)
  have len: "length ev < MAX_EVENT_NAME_LENGTH E" "subscription_sendable E n ev True None (g_connection s)"
    "length n < MAX_OBJECT_NAME_LENGTH E"
    using ok False by auto
  let ?req = "subscription_call E n ev True None t (g_connection s)" and ?tr = "io s @ listener_setup s"
  obtain body name where ans: "rt_result E ?tr ?req \<noteq> RT_OK \<or> rt_reply E ?tr ?req = method_bytes (mp E) body name \<and>
      method_fits (mp E) body name"
    by (rule answered [OF env])
  note [simp] = rbus_subscribeToEventTimeout_def
  show ?thesis
  proof (cases "g_master_event_callback s")
    case master: (Some g)
    from subscribe_mastered [OF rbus_runtime_axioms s(2,3) master len(2,1) refl refl ans, of f d]
    obtain c perr k where run: "rbus_subscribeToEventInternal E (Some n) (Some ev) (Some f) None d t s = Some (c, perr,
        unlock (s\<lparr>io := ?tr @ [?req], g_run_event_client_dispatch := True, next_ptr := k\<rparr>))" "next_ptr s \<le> k"
      "rt_result E ?tr ?req \<noteq> RT_OK \<longrightarrow> c \<noteq> RTMESSAGE_BUS_SUCCESS" by blast
    let ?s' = "unlock (s\<lparr>io := ?tr @ [?req], g_run_event_client_dispatch := True, next_ptr := k\<rparr>)"
    have sub: "subs_wf E ?s'" "abs_subs ?s' = abs_subs s" using s(1) subs_frame [of ?s' s] by simp_all
    have "process_inv E ?s'" "abs_reg ?s' = abs_reg s"
      using client_side_inv [OF inv _ sub(1)] run(2) by simp_all
    with run master sub False show ?thesis by (auto simp: Let_def)
  next
    case none: None
    show ?thesis
    proof (cases "abs_subs s (n, ev)")
      case None
      obtain c perr s' where run: "rbus_subscribeToEventInternal E (Some n) (Some ev) (Some f) None d t s = Some (c, perr, s')"
        "subs_wf E s'" "abs_subs s' = (if c = RTMESSAGE_BUS_SUCCESS then (abs_subs s)((n, ev) \<mapsto> (f, d)) else abs_subs s)"
        "io s' = ?tr @ [?req]" "\<not> g_mutex s'" "client_core s' = client_core s" "next_ptr s \<le> next_ptr s'"
        "rt_result E ?tr ?req \<noteq> RT_OK \<Longrightarrow> c \<noteq> RTMESSAGE_BUS_SUCCESS"
        by (rule subscribe_run [OF s none None len(1), of None None ?req t ?tr body name f d]) (use len(2) ans in auto)
      moreover have "process_inv E s'" "abs_reg s' = abs_reg s"
        using client_side_inv [OF inv run(6,2,7,5)] by simp_all
      ultimately show ?thesis using None none False by (auto simp: Let_def)
    next
      case (Some old)
      from subscribe_twice_is_idempotent [OF rbus_runtime_axioms s(1,3) none Some len(3,1), of f None d t]
      obtain s' where "rbus_subscribeToEventInternal E (Some n) (Some ev) (Some f) None d t s =
          Some (RTMESSAGE_BUS_SUCCESS, None, s')" "subs_wf E s'" "abs_subs s' = abs_subs s" "io s' = ?tr"
        "\<not> g_mutex s'" "client_core s' = client_core s" "next_ptr s' = next_ptr s"
        by blast
      moreover from this have "process_inv E s'" "abs_reg s' = abs_reg s"
        using client_side_inv [OF inv, of s'] by simp_all
      ultimately show ?thesis using Some none False by (auto simp: Let_def)
    qed
  qed
qed

lemma unsubscribe_step:
  assumes inv: "process_inv E s" and env: "environment_ok E" and ok: "admissible E (Unsubscribe n ev) s"
  shows "\<exists>c s'. process_call E (Unsubscribe n ev) s = Some (c, s') \<and> process_inv E s' \<and>
    process_spec E (Unsubscribe n ev) s c s'"
proof (cases "MAX_OBJECT_NAME_LENGTH E \<le> length n")
  case True
  then show ?thesis using inv by (simp add: rbus_unsubscribeFromEvent_def strnlen_ge_iff)
next
  case False
  let ?req = "subscription_call E n ev False None 0 (g_connection s)"
  have s: "subs_wf E s" "heap_fresh s" "g_connection s \<noteq> None" using inv by (simp_all add: process_inv_def idle_def)
  have send: "subscription_sendable E n ev False None (g_connection s)" using ok False by simp
  obtain body name where ans: "rt_result E (io s) ?req \<noteq> RT_OK \<or> rt_reply E (io s) ?req = method_bytes (mp E) body name \<and>
      method_fits (mp E) body name"
    by (rule answered [OF env])
  show ?thesis
  proof (cases "g_master_event_callback s")
    case (Some g)
    from unsubscribe_mastered [OF rbus_runtime_axioms s(2,3) Some send refl ans]
    obtain c k where run: "rbus_unsubscribeFromEvent E (Some n) (Some ev) None s =
        Some (c, s\<lparr>io := io s @ [?req], next_ptr := k\<rparr>)" (is "_ = Some (_, ?s')") "next_ptr s \<le> k" by blast
    have sub: "subs_wf E ?s'" "abs_subs ?s' = abs_subs s" using s(1) subs_frame [of ?s' s] by simp_all
    have "process_inv E ?s'" "abs_reg ?s' = abs_reg s"
      using client_side_inv [OF inv _ sub(1)] run(2) inv by (simp_all add: process_inv_def)
    with run(1) Some sub(2) False show ?thesis by simp
  next
    case None
    from unsubscribe_run [OF rbus_runtime_axioms s None send refl ans]
    obtain c s' where run: "rbus_unsubscribeFromEvent E (Some n) (Some ev) None s = Some (c, s')" "subs_wf E s'"
      "abs_subs s' = (abs_subs s)((n, ev) := None)" "io s' = io s @ [?req]" "\<not> g_mutex s'"
      "client_core s' = client_core s" "next_ptr s \<le> next_ptr s'"
      by auto
    then show ?thesis
      using client_side_inv [OF inv run(6,2,7,5)] None False by simp
  qed
qed

lemma event_step:
  assumes inv: "process_inv E s" and ok: "admissible E (Incoming_Event hdr body ev n k) s"
  shows "\<exists>c s'. process_call E (Incoming_Event hdr body ev n k) s = Some (c, s') \<and> process_inv E s' \<and>
    process_spec E (Incoming_Event hdr body ev n k) s c s'"
proof (cases "MAX_OBJECT_NAME_LENGTH E \<le> length (reply_topic hdr)")
  case True
  then show ?thesis using inv by (simp add: master_event_callback_def incoming_event_calls_def)
next
  case False
  have s: "subs_wf E s" "heap_fresh s" "\<not> g_mutex s" using inv by (simp_all add: process_inv_def idle_def)
  have fits: "length (reply_topic hdr) < MAX_OBJECT_NAME_LENGTH E" "event_fits (mp E) body ev n k" using ok False by simp_all
  let ?m = "rbusMessage_FromBytes (mp E) (event_bytes (mp E) body ev n k)"
  let ?s' = "s\<lparr>next_ptr := Suc (next_ptr s), io := io s @ incoming_event_calls E s (reply_topic hdr) ev ?m k\<rparr>"
  have run: "master_event_callback E hdr (event_bytes (mp E) body ev n k) s = Some ?s'"
    using incoming_event_run [OF s(1,2) fits refl] False s(3)
    by (auto simp: incoming_event_calls_def unlock_free Let_def split: option.split)
  have sub: "subs_wf E ?s'" "abs_subs ?s' = abs_subs s" using s(1) subs_frame [of ?s' s] by simp_all
  have "process_inv E ?s'" "abs_reg ?s' = abs_reg s"
    using client_side_inv [OF inv _ sub(1)] s(3) by simp_all
  with run sub(2) show ?thesis by simp
qed

lemma call_step:
  assumes inv: "process_inv E s" and env: "environment_ok E" and ok: "admissible E (Incoming_Call hdr n body name) s"
  shows "\<exists>c s'. process_call E (Incoming_Call hdr n body name) s = Some (c, s') \<and> process_inv E s' \<and>
    process_spec E (Incoming_Call hdr n body name) s c s'"
proof (cases "reg_find s n")
  case None
  then show ?thesis using inv found_object [of E s n] by (simp add: deliver_def process_inv_def)
next
  case (Some p)
  have s: "registry_wf E s" "idle E s" "g_queued_requests s = Live None" using inv by (simp_all add: process_inv_def)
  then obtain a where a: "abs_reg s n = Some a" using Some found_object [of E s n] by auto
  obtain g d where t: "(case ao_methods a name of None \<Rightarrow> ao_callback a | Some am \<Rightarrow> am) = AM_App g d"
    using ok a by (cases "called a name") (simp_all add: called_def)
  have fits: "method_fits (mp E) body name" using ok by simp
  let ?c = "App_Rpc g (topic hdr) (Some name) (rbusMessage_FromBytes (mp E) (method_bytes (mp E) body name)) d hdr"
  have e: "method_fits (mp E) (response_body E (io s) ?c) METHOD_RESPONSE"
    "rtVector_PushBack (reqs_v E) None = (\<lambda>_. None)"
    using env by (simp_all add: environment_ok_def)
  have lost: "\<exists>k\<ge>next_ptr u. deliver_nested E (rt_nested E (io s) ?c) u = Some (u\<lparr>next_ptr := k\<rparr>)"
    if "g_queued_requests u = g_queued_requests s" "heap_fresh u" for u
    using deliver_lost [OF e(2) _ that(2)] that(1) s(3) by simp
  obtain s' where run: "onMessage (Suc 0) E hdr (method_bytes (mp E) body name) p s = Some (Some s')"
    "io s' = io s @ served_calls E (io s) a hdr body name"
    "registry_wf E s'" "abs_reg s' = abs_reg s" "\<not> g_mutex s'" "idle E s'"
    "g_event_subscriptions_for_client s' = g_event_subscriptions_for_client s"
    "g_connection s' = g_connection s" "g_queued_requests s' = g_queued_requests s"
    by (rule request_served [OF s(1) Some a s(2) fits t refl lost e(1)])
      (use t in \<open>auto simp: served_calls_def called_def Let_def\<close>)
  have "process_inv E s'" "abs_subs s' = abs_subs s"
    using run inv subs_frame [of s' s] by (simp_all add: process_inv_def)
  then show ?thesis using Some a run by (simp add: deliver_def)
qed

lemma subscription_step:
  assumes inv: "process_inv E s" and env: "environment_ok E"
    and ok: "admissible E (Incoming_Subscription hdr n ev sub activate) s"
  shows "\<exists>c s'. process_call E (Incoming_Subscription hdr n ev sub activate) s = Some (c, s') \<and> process_inv E s' \<and>
    process_spec E (Incoming_Subscription hdr n ev sub activate) s c s'"
proof (cases "reg_find s n")
  case None
  then show ?thesis using inv found_object [of E s n] by (simp add: deliver_def process_inv_def)
next
  case (Some p)
  have s: "registry_wf E s" "idle E s" using inv by (simp_all add: process_inv_def)
  then obtain a where a: "abs_reg s n = Some a" using Some found_object [of E s n] by auto
  obtain ret calls a' where res: "subscription_result E (io s) n a ev sub activate = (ret, calls, a')"
    by (cases "subscription_result E (io s) n a ev sub activate")
  have ok': "rtMessageHeader_IsRequest E hdr" "ao_methods a (subscription_method activate) = Some AM_Subscription"
    "method_fits (mp E) (enc_fields (mp E) (subscription_fields ev sub None)) (subscription_method activate)"
    "method_fits (mp E) (enc_int32 (mp E) (error_int32 ret)) METHOD_RESPONSE" "cname_ok ev" "cname_ok sub"
    using ok a env by (simp_all add: environment_ok_def)
  obtain s' where run: "onMessage (Suc 0) E hdr (subscription_bytes E ev sub activate) p s = Some (Some s')"
    "io s' = io s @ calls @ [Rt_SendBinaryResponse hdr
        (method_bytes (mp E) (enc_int32 (mp E) (error_int32 ret)) METHOD_RESPONSE) TIMEOUT_VALUE_FIRE_AND_FORGET]"
    "registry_wf E s'" "abs_reg s' = (abs_reg s)(n \<mapsto> a')"
    "idle E s'" "\<not> g_mutex s'" "server_core s' = server_core s"
    by (rule subscription_message_served [OF s(1) Some a s(2) ok'(1,2) subscription_bytes_def ok'(3-6) res])
  have "process_inv E s'" "abs_subs s' = abs_subs s"
    using run inv same_server_core [OF run(7)] subs_frame [of s' s] by (simp_all add: process_inv_def)
  then show ?thesis using Some run a res by (simp add: deliver_def)
qed

lemma master_step:
  assumes "process_inv E s"
  shows "process_inv E (s\<lparr>g_master_event_callback := f, g_master_event_user_data := d\<rparr>)" (is "process_inv E ?s'")
  using assms registry_cong [of ?s' s] subs_frame [of ?s' s] by (auto simp: process_inv_def idle_def heap_fresh_def)

text \<open>Every operation that is covered runs, keeps the invariant and meets its specification.\<close>

lemma process_step:
  assumes inv: "process_inv E s" and env: "environment_ok E" and ok: "admissible E x s"
  shows "\<exists>c s'. process_call E x s = Some (c, s') \<and> process_inv E s' \<and> process_spec E x s c s'"
proof (cases x)
  case (Server_Op y)
  then show ?thesis using server_op_step [OF inv] ok by metis
next
  case (Subscribe n ev f d t)
  then show ?thesis using subscribe_step [OF inv env] ok by metis
next
  case (Unsubscribe n ev)
  then show ?thesis using unsubscribe_step [OF inv env] ok by metis
next
  case (Set_Master_Handler f d)
  then show ?thesis using master_step [OF inv] by (simp add: rbus_registerMasterEventHandler_def)
next
  case (Incoming_Event hdr body ev n k)
  then show ?thesis using event_step [OF inv] ok by metis
next
  case (Incoming_Call hdr n body name)
  then show ?thesis using call_step [OF inv env] ok by metis
next
  case (Incoming_Subscription hdr n ev sub activate)
  then show ?thesis using subscription_step [OF inv env] ok by metis
qed

lemma process_run_inv:
  assumes "process_run E s xs s'" and "process_inv E s" and "environment_ok E"
  shows "process_inv E s'"
  using assms(1,2)
proof induction
  case (run_Cons x s c s1 xs s2)
  from process_step [OF run_Cons.prems assms(3) run_Cons.hyps(1)] run_Cons.hyps(2)
  have "process_inv E s1" by auto
  then show ?case by (rule run_Cons.IH)
qed

text \<open>A process starts by opening the connection, which does not create the vector of queued requests.\<close>

lemma opened_process:
  assumes "environment_ok E" and "length name < 2 ^ 31 - 10"
    and "rbus_openBrokerConnection2 E (Some name) address initial_state = Some (RTMESSAGE_BUS_SUCCESS, s)"
  shows "process_inv E s"
proof -
  have "heap_fresh initial_state" "g_connection initial_state = None" "\<forall>p\<ge>next_ptr initial_state. objs initial_state p = None"
    "stack_counter initial_state = 0" "g_queued_requests initial_state = Live None"
    by (simp_all add: initial_state_def heap_fresh_def)
  with open_connection_run [OF assms(2) this(2,3,1) refl refl, of address] assms(1,3)
  show ?thesis by (auto simp: process_inv_def idle_def heap_fresh_def environment_ok_def split: if_splits)
qed

end

section \<open>Properties\<close>

text \<open>
  C4. A process of well-formed messages is safe.  Let the environment be \<open>environment_ok\<close>: the router's
  replies are messages with a method, the application's responses fit a message; its results (\<open>SUCCESS_ASYNC\<close>
  and overriding subscription handlers included) and the requests that arrive while a callback runs are
  arbitrary, and callbacks do not call the library.  Take a connected process with well-formed tables and any sequence of these operations:
  the seven calls on the registry (names of new objects below 2 GiB), subscriptions and
  cancellations without a payload, changes of the master handler, well-formed events, well-formed calls, with
  or without a reply, to methods of the application, and well-formed subscription requests without a payload.
  In every state reached, each of these operations
  returns without an access to freed memory or past an array, keeps both tables well-formed, leaves the mutex free and
  the queue of requests uncreated, and has exactly its specified effect on the registry, on the table of subscriptions and on
  the trace.  Malformed messages are not covered.
\<close>

theorem process_is_safe:
  assumes "rbus_runtime E" and "environment_ok E" and "process_inv E s" and "process_run E s xs s'" and "admissible E x s'"
  shows "\<exists>c s''. process_call E x s' = Some (c, s'') \<and> process_inv E s'' \<and> process_spec E x s' c s''"
  using rbus_runtime.process_step [OF assms(1) rbus_runtime.process_run_inv [OF assms(1,4,3,2)] assms(2,5)] .

text \<open>An environment with nested requests, a freshly opened process, and a run of it that registers an object.\<close>

lemma mp_int_length: "length (mp_int v) \<le> 9"
  by (simp add: mp_int_def Let_def)

lemma code_fits: "method_fits messagepack (enc_int32 messagepack w) METHOD_RESPONSE"
  using mp_int_length [of "sint w"]
  by (simp add: method_fits_def method_bytes_def enc_fields_def cname_ok_def no_nul_def char_of_0 mp_str_def mp_int_def
      METHOD_RESPONSE_def)

lemma nested_environment: "environment_ok (std_runtime nested_world)"
proof -
  have "answer_ok (std_runtime nested_world) t c" for t c
    using demo_fits(2) by (auto simp: answer_ok_def std_runtime_def nested_world_def answer_world_def)
  then show ?thesis
    using nested_world_facts(2,5,6) code_fits by (simp add: environment_ok_def std_runtime_def)
qed

lemma opened_demo:
  obtains s where "rbus_openBrokerConnection2 (std_runtime nested_world) (Some ''p'') None initial_state =
      Some (RTMESSAGE_BUS_SUCCESS, s)" and "process_inv (std_runtime nested_world) s" and "abs_reg s = Map.empty"
    and "g_connection s = Some 1" and "abs_subs s = Map.empty"
proof -
  let ?E = "std_runtime nested_world"
  have i: "g_connection initial_state = None" "\<forall>p\<ge>next_ptr initial_state. objs initial_state p = None"
    "heap_fresh initial_state" "length ''p'' < 2 ^ 31 - 10"
    by (simp_all add: initial_state_def heap_fresh_def)
  have w: "rt_result ?E t c = RT_OK" "rt_handle ?E t c = 1" for t c
    by (simp_all add: std_runtime_def nested_world_def answer_world_def calm_world_def)
  from std.open_connection_run [OF i(4,1-3) refl refl, of nested_world None] w
  obtain s where s: "rbus_openBrokerConnection2 ?E (Some ''p'') None initial_state = Some (RTMESSAGE_BUS_SUCCESS, s)"
    "abs_reg s = Map.empty" "g_connection s = Some 1" "abs_subs s = Map.empty" by auto
  with std.opened_process [OF nested_environment i(4) s(1)] that show thesis by blast
qed

definition demo_register :: process_op where
  "demo_register = Server_Op (Register_Obj (Some ''obj'') 2 (UD_App 5))"

lemma registered_demo:
  obtains s0 s where "rbus_openBrokerConnection2 (std_runtime nested_world) (Some ''p'') None initial_state =
      Some (RTMESSAGE_BUS_SUCCESS, s0)" and "process_inv (std_runtime nested_world) s0"
    and "process_run (std_runtime nested_world) s0 [demo_register] s" and "process_inv (std_runtime nested_world) s"
    and "abs_reg s ''obj'' = Some (new_object (AM_App 2 (UD_App 5)))" and "g_connection s = Some 1" and "abs_subs s = Map.empty"
proof -
  let ?E = "std_runtime nested_world" and ?x = "Register_Obj (Some ''obj'') 2 (UD_App 5)"
  obtain s0 where s0: "rbus_openBrokerConnection2 ?E (Some ''p'') None initial_state = Some (RTMESSAGE_BUS_SUCCESS, s0)"
    "process_inv ?E s0" "abs_reg s0 = Map.empty" "g_connection s0 = Some 1" "abs_subs s0 = Map.empty"
    by (rule opened_demo)
  have "registry_wf ?E s0" "server_op_ok ?x" using s0(2) by (simp_all add: process_inv_def)
  then obtain c s where s: "server_call ?E ?x s0 = Some (c, s)" "registry_wf ?E s"
    "server_step ?E (g_connection s0 \<noteq> None) ?x (server_abs s0) = (c, server_abs s)"
    "g_mutex s \<longrightarrow> g_mutex s0" "next_ptr s0 \<le> next_ptr s" "server_core s = server_core s0"
    by (rule std.server_call_refines)
  have run: "process_run ?E s0 [demo_register] s" using s(1) by (auto simp: process_run_Cons demo_register_def)
  have "rt_result ?E t k = RT_OK" for t k
    by (simp add: std_runtime_def nested_world_def answer_world_def calm_world_def)
  then have "abs_reg s ''obj'' = Some (new_object (AM_App 2 (UD_App 5)))"
    using s(3) s0(3,4) by (auto simp: server_abs_def spec_registerObj_def std_runtime_def dest!: fun_cong [where x = "''obj''"])
  then show thesis
    using that [OF s0(1,2) run] std.process_run_inv [OF run s0(2) nested_environment] s0 same_server_core [OF s(6)]
      server_side_inv(2) [OF s0(2) s(6,2,5)] s(4) by (simp add: process_inv_def)
qed

theorem process_is_safe_witness:
  "\<exists>s0 s c s'. process_run (std_runtime nested_world) s0 [demo_register] s \<and>
    process_call (std_runtime nested_world) (Incoming_Call \<lparr>topic = ''obj'', reply_topic = ''r'', flags = 1\<rparr> ''obj''
      (enc_fields messagepack [F_String ''key'']) ''get'') s = Some (c, s') \<and> length (io s') = length (io s) + 2"
proof -
  let ?E = "std_runtime nested_world" and ?hdr = "\<lparr>topic = ''obj'', reply_topic = ''r'', flags = 1\<rparr>"
  let ?y = "Incoming_Call ?hdr ''obj'' (enc_fields messagepack [F_String ''key'']) ''get''"
  obtain s0 s where s: "process_inv ?E s0" "process_run ?E s0 [demo_register] s"
    "abs_reg s ''obj'' = Some (new_object (AM_App 2 (UD_App 5)))" by (rule registered_demo)
  have t: "called (new_object (AM_App 2 (UD_App 5))) ''get'' = AM_App 2 (UD_App 5)"
    by (simp add: called_def new_object_def)
  have "admissible ?E ?y s" using s(3) t demo_fits(1) by (simp add: std_runtime_def)
  from process_is_safe [OF std_rbus_runtime nested_environment s(1,2) this]
  obtain c s' where y: "process_call ?E ?y s = Some (c, s')" "process_spec ?E ?y s c s'" by blast
  have "length (io s') = length (io s) + 2"
    using y(2) s(3) t nested_world_facts(1,3) by (simp add: served_calls_def Let_def)
  with s(2) y(1) show ?thesis by blast
qed

text \<open>
  C32. Requests that arrive while another one is handled are lost.  In every state that a process reaches after it has opened its
  connection, the vector of queued requests is still \<open>NULL\<close>: nothing creates it.  A request whose callback runs while
  others arrive (any number, at any objects) is answered, and the others are neither handled nor answered,
  not then and not by a later message: no call is made for them and the queue stays \<open>NULL\<close>.
\<close>

theorem nested_requests_are_lost:
  assumes "rbus_runtime E" and "environment_ok E" and "length name < 2 ^ 31 - 10"
    and "rbus_openBrokerConnection2 E (Some name) address initial_state = Some (RTMESSAGE_BUS_SUCCESS, s0)"
    and "process_run E s0 xs s" and "reg_find s n = Some p" and "abs_reg s n = Some a"
    and "rtMessageHeader_IsRequest E hdr" and "method_fits (mp E) body method"
    and "(case ao_methods a method of None \<Rightarrow> ao_callback a | Some am \<Rightarrow> am) = AM_App g d"
    and "c = App_Rpc g (topic hdr) (Some method)
      (rbusMessage_FromBytes (mp E) (method_bytes (mp E) body method)) d hdr"
    and "app_result E (io s) c \<noteq> rbus_error_code RTMESSAGE_BUS_SUCCESS_ASYNC"
    and "rt_nested E (io s) c \<noteq> []"
  shows "g_queued_requests s = Live None \<and>
    (\<exists>s'. onMessage (Suc fuel) E hdr (method_bytes (mp E) body method) p s = Some (Some s') \<and>
      io s' = io s @ [c, Rt_SendBinaryResponse hdr
        (method_bytes (mp E) (response_body E (io s) c) METHOD_RESPONSE) 1000] \<and>
      msgs s' = msgs s \<and> stack_counter s' = 0 \<and> g_queued_requests s' = Live None)"
proof -
  have inv: "process_inv E s"
    using rbus_runtime.process_run_inv [OF assms(1,5) rbus_runtime.opened_process [OF assms(1-4)] assms(2)] .
  then have s: "registry_wf E s" "stack_counter s = 0" "heap_fresh s" "g_queued_requests s = Live None"
    by (simp_all add: process_inv_def idle_def)
  have e: "rtVector_PushBack (reqs_v E) None = (\<lambda>_. None)" "rtVector_Size (reqs_v E) None = 0"
    "method_fits (mp E) (response_body E (io s) c) METHOD_RESPONSE"
    using assms(2) by (simp_all add: environment_ok_def)
  show ?thesis
    using rbus_runtime.nested_lost [OF assms(1) s(1) assms(6,7) s(2-4) e(1,2) assms(8-12) e(3), of fuel] s(4)
    by (simp add: TIMEOUT_VALUE_FIRE_AND_FORGET_def)
qed

theorem nested_requests_are_lost_witness:
  "\<exists>s0 s p s' c b. process_run (std_runtime nested_world) s0 [demo_register] s \<and>
     onMessage 1 (std_runtime nested_world) \<lparr>topic = ''obj'', reply_topic = ''r'', flags = 1\<rparr>
       (method_bytes messagepack (enc_fields messagepack [F_String ''key'']) ''get'') p s = Some (Some s') \<and>
     length (rt_nested (std_runtime nested_world) (io s) c) = 1 \<and>
     io s' = io s @ [c, Rt_SendBinaryResponse \<lparr>topic = ''obj'', reply_topic = ''r'', flags = 1\<rparr> b 1000]"
proof -
  let ?E = "std_runtime nested_world" and ?hdr = "\<lparr>topic = ''obj'', reply_topic = ''r'', flags = 1\<rparr>"
  let ?a = "new_object (AM_App 2 (UD_App 5))" and ?body = "enc_fields messagepack [F_String ''key'']"
  obtain s0 s where s: "rbus_openBrokerConnection2 ?E (Some ''p'') None initial_state = Some (RTMESSAGE_BUS_SUCCESS, s0)"
    "process_run ?E s0 [demo_register] s" "process_inv ?E s" "abs_reg s ''obj'' = Some ?a" by (rule registered_demo)
  obtain p where p: "reg_find s ''obj'' = Some p" using found_object [of ?E s "''obj''"] s(3,4) by (auto simp: process_inv_def)
  have t: "(case ao_methods ?a ''get'' of None \<Rightarrow> ao_callback ?a | Some am \<Rightarrow> am) = AM_App 2 (UD_App 5)"
    by (simp add: new_object_def)
  have f: "method_fits (mp ?E) ?body ''get''" "length ''p'' < 2 ^ 31 - 10" using demo_fits(1) by (simp_all add: std_runtime_def)
  have n: "rt_nested ?E tr c \<noteq> []" for tr c by (simp add: nested_world_facts(4))
  have M: "mp ?E = messagepack" by (simp add: std_runtime_def)
  from nested_requests_are_lost [OF std_rbus_runtime nested_environment f(2) s(1,2) p s(4)
      nested_world_facts(1) [of "''obj''" "''r''"] f(1) t refl nested_world_facts(3) n, of 0]
  obtain s' c b where "onMessage 1 ?E ?hdr (method_bytes messagepack ?body ''get'') p s = Some (Some s')"
    "io s' = io s @ [c, Rt_SendBinaryResponse ?hdr b 1000]" by (auto simp: M)
  with s(2) nested_world_facts(4) show ?thesis by fastforce
qed

end
