(* ===== verification/Spec2Isabelle.thy ===== *)
theory Spec2Isabelle
  imports Session_Manager Rbus_Discovery Rbus_Debug Rbus_Process
begin

text \<open>
  A verification development for rbuscore, the C library (\<open>src/rbus-core\<close>) through which the processes of a
  device register objects with methods and events on a message bus, call each other's methods and receive
  each other's events.  A router process (rtrouted, not in the repository) carries the
  messages.  The library keeps its state in global variables of \<open>lib/rbus_core.c\<close>; its messages are in
  \<open>lib/rbus_message.c\<close>; \<open>session_manager/session_manager.c\<close> is a small server built on both.

  \<^bold>\<open>How the model reads.\<close>  The globals are the record \<open>rbus_state\<close>, with a heap of objects and a heap of messages, and
  every function of the library is a function of that state with the C name.  \<open>NULL\<close> is \<open>None\<close> where the code can meet it.
  The value \<open>None\<close> of a run is undefined behaviour (freed memory, an access outside an array), so a theorem that a
  run is \<open>Some\<close> says that there is none.  The error codes are those of \<open>rbus_types.h\<close>.  \<open>int32_t\<close> and \<open>int64_t\<close> are words of
  their width, a \<open>double\<close> its 64 bits, \<open>size_t\<close> a natural number with its wrap-around written out.  Where the code keeps the length of a name in
  an \<open>int\<close>, a name of 2 GiB or more is undefined behaviour in the model as in C; the theorems concerned say which
  names they are about.
  rtMessage, its vectors and reference counts, msgpack, \<open>malloc\<close> and the application's callbacks are parameters
  (\<open>runtime\<close>, \<open>msgpack\<close>, \<open>printer\<close>, \<open>rtMessage_ops\<close>); calls to the router and to the application are recorded, in order, in the
  trace \<open>io\<close>, and their results are arbitrary functions of the trace so far.  What the code relies on in these
  libraries is the assumption of a locale: \<open>rtvector\<close>, \<open>named_table\<close>, \<open>msgpack_api\<close>, \<open>retainable\<close>, their sum \<open>rbus_runtime\<close>,
  \<open>debug_printing\<close> and \<open>rtmessage_api\<close>.  Each is interpreted: on list vectors, plain counters and the MessagePack
  format in \<open>Reference_Libraries\<close> and \<open>Reference_Runtime\<close>, where every concrete run of the development is made.

  \<^bold>\<open>The theories.\<close>

  \<^item> \<open>Rbus_Prelude\<close>: C strings, \<open>strncmp\<close>, conversions between \<open>size_t\<close> and \<open>int\<close> (a length kept in an \<open>int\<close> is \<open>strlen_int\<close>),
    lemmas on words and lists.
  \<^item> \<open>Rt_Interface\<close>, \<open>Reference_Libraries\<close>, \<open>Reference_Runtime\<close>: the libraries as locales, and their instances.  The theory of tables of
    named entries (\<open>table_wf\<close>, \<open>table_map\<close>) is shared by all five tables of \<open>rbus_core.c\<close>.
  \<^item> \<open>Rbus_Message\<close>: \<open>rbus_message.c\<close>.  The typed setters and getters and the meta section; what is written is read
    back; a getter of the wrong type; narrowing of integers.
  \<^item> \<open>Rbus_Debug\<close>: \<open>rbusMessage_ToDebugString\<close>.  It ends, stays inside its buffer, and prints the items.
  \<^item> \<open>Rbus_State\<close>: error codes, structures, the global state, the trace, messages on the heap.
  \<^item> \<open>Rbus_Server\<close>, \<open>Rbus_Events\<close>: the operations on objects, methods, elements, events and listeners, the handler of subscription
    requests, and publication.
  \<^item> \<open>Rbus_Registry\<close>: the invariant \<open>registry_wf\<close>, the abstraction \<open>abs_reg\<close> to a map of maps, the specification
    \<open>server_step\<close>, a function on the registry, the trace and the next free address, and the refinement of every sequence
    of operations (locale \<open>refinement\<close>); what a failed operation leaves behind.
  \<^item> \<open>Rbus_Tables\<close>: method tables, as sequences of registrations.
  \<^item> \<open>Rbus_Listeners\<close>: subscription requests at the provider, and which listeners an event is sent to.
  \<^item> \<open>Rbus_Rpc\<close>: \<open>rbus_invokeRemoteMethod\<close>, \<open>rbus_pushObj\<close>, \<open>rbus_pullObj\<close>, \<open>onMessage\<close> with its dispatch and queue, \<open>rbus_sendResponse\<close>.  A
    call from the client's arguments to the client's results.
  \<^item> \<open>Rbus_Client\<close>: the client's table of subscriptions (invariant \<open>subs_wf\<close>, abstraction \<open>abs_subs\<close>), subscription requests, the
    dispatch of events.  A subscription and an event from one process to the other.
  \<^item> \<open>Rbus_Connection\<close>: the configuration file, opening and closing, the bus status, disconnected clients.
  \<^item> \<open>Rbus_Discovery\<close>: the five functions that ask the router for names, and the arrays they return.
  \<^item> \<open>Rbus_Process\<close>: a process as a state machine over both tables (\<open>process_run\<close>), its operations, what it assumes of its environment,
    and the specification of each operation; safety of every reachable state; from the opening of the connection on, the loss of
    requests that arrive while another one is handled.
  \<^item> \<open>Session_Manager\<close>: the handlers and \<open>main\<close>; runs of the handlers; a session requested through the bus.

  \<^bold>\<open>Loops and fuel.\<close>  Loops over vectors are recursions over index lists.  \<open>drain_queue\<close> (callbacks may keep receiving requests),
  \<open>connect_loop\<close> (the router may never accept) and \<open>debug_loop\<close> (the unpacker is a parameter) take fuel, and running out is a value
  of its own.  One unit is enough for \<open>onMessage\<close> when the queue is empty after the dispatch; a router that accepts from its \<open>N\<close>-th call
  on needs \<open>N + 1\<close> units of \<open>connect_loop\<close>; one more than the bytes of the message is enough for \<open>debug_loop\<close>.  The properties are stated for
  these bounds, so they include that the loops end.

  \<^bold>\<open>Threads.\<close>  The mutex is of the error-checking type and the model runs one thread: a second \<open>lock\<close> or an \<open>unlock\<close> without the mutex
  fails and changes nothing, as POSIX says.  Requests that the connection delivers during a callback are modelled (\<open>rt_nested\<close>).

  \<^bold>\<open>What modelling showed.\<close>  Some properties state defects: requests that arrive while another is handled are lost, since their queue is never
  created; a disabled bus is opened; a reopened connection has no event listener; a failed close leaves a connection over
  freed vectors; discovery reports failures as success, loses names after an element without a route against its documentation, and frees
  an array twice when a component count is 0; a table registration that fails keeps a prefix;
  the two subscription methods can be installed by halves; the result \<open>SUCCESS_ASYNC\<close> of a method is ignored.  Lemmas beside them show that closing
  without a connection keeps the mutex, that names of 2 GiB or more overrun their buffers, that a \<open>NULL\<close> event name is dereferenced, and that the early returns of
  \<open>rbus_invokeRemoteMethod\<close> keep the request.

  \<^bold>\<open>Not modelled.\<close>  Log output (\<open>rbus_logger.h\<close>); the samples, unit tests and benchmarks; declarations of \<open>rbus_core.h\<close> and the end of
  \<open>rbus_core.c\<close> that have no definition (timed update events, \<open>subscribeOnevent\<close>); the test function of \<open>rbus_message.c\<close> under \<open>#if 0\<close>; several
  threads in the library at once, and callbacks of the application that call the library.  The theorems on processes are about
  well-formed messages; what single handlers do with malformed replies is in \<open>Rbus_Rpc\<close>.  Of the router only its answers are modelled: two processes are composed by handing the bytes of one to the other.
\<close>

end
